(* ===== verification/Prelude.thy ===== *)
theory Prelude
  imports Main "HOL-Library.Word" "HOL-Library.Signed_Division"
begin

text \<open>
  Shared vocabulary of the development: bytes, the integers of Go on a 64-bit machine, run-time
  panics as values, byte-list surgery (\<open>slice\<close>, \<open>patch\<close>) and the big-endian 32-bit length that
  both the wire format and the compression header use.  The lemmas here are about lists, integers
  and words only; every component theory imports them.
\<close>

unbundle bit_operations_syntax

section \<open>Bytes, strings and panics\<close>

type_synonym byte = "8 word"
type_synonym bytes = "byte list"

text \<open>
  A Go panic carries a value.  Its kind matters to the program, because its deferred handlers do
  \<open>e.(error)\<close> on the recovered value: values that implement \<open>error\<close> (run-time errors and error
  values passed to \<open>panic\<close>) and plain strings (\<open>panic("...")\<close>, \<open>log.Panicln\<close>), on which that
  assertion panics again.  \<open>PanicNil\<close> is \<open>panic(err)\<close> with a nil \<open>err\<close>: it unwinds like any panic,
  but \<open>recover()\<close> returns nil for it.
\<close>

datatype panic = PanicError string | PanicString string | PanicNil

type_synonym 'a go = "panic + 'a"

definition index_out_of_range :: panic where
  "index_out_of_range = PanicError ''index out of range''"

definition slice_out_of_range :: panic where
  "slice_out_of_range = PanicError ''slice bounds out of range''"

definition makeslice_out_of_range :: panic where
  "makeslice_out_of_range = PanicError ''makeslice: len out of range''"

definition send_on_closed :: panic where
  "send_on_closed = PanicError ''send on closed channel''"

definition close_of_closed :: panic where
  "close_of_closed = PanicError ''close of closed channel''"

section \<open>Fixed-width integers\<close>

text \<open>Two's complement reduction of a mathematical integer to \<open>int64\<close> and \<open>int32\<close>.\<close>

definition wrap64 :: "int \<Rightarrow> int" where
  "wrap64 x = signed_take_bit 63 x"

definition wrap32 :: "int \<Rightarrow> int" where
  "wrap32 x = signed_take_bit 31 x"

lemma wrap64_id [simp]: "- (2 ^ 63) \<le> x \<Longrightarrow> x < 2 ^ 63 \<Longrightarrow> wrap64 x = x"
  by (simp add: wrap64_def signed_take_bit_int_eq_self)

lemma wrap64_nonneg: "0 \<le> x \<Longrightarrow> x < 2 ^ 63 \<Longrightarrow> wrap64 x = x"
  by simp

lemma wrap32_id [simp]: "- (2 ^ 31) \<le> x \<Longrightarrow> x < 2 ^ 31 \<Longrightarrow> wrap32 x = x"
  by (simp add: wrap32_def signed_take_bit_int_eq_self)

lemma wrap64_range: "- (2 ^ 63) \<le> wrap64 x \<and> wrap64 x < 2 ^ 63"
  unfolding wrap64_def using signed_take_bit_int_greater_eq_minus_exp [of 63 x] signed_take_bit_int_less_exp [of 63 x]
  by simp

lemma wrap32_range: "- (2 ^ 31) \<le> wrap32 x \<and> wrap32 x < 2 ^ 31"
  unfolding wrap32_def using signed_take_bit_int_greater_eq_minus_exp [of 31 x] signed_take_bit_int_less_exp [of 31 x]
  by simp

lemma sdiv_nonneg: "0 \<le> a \<Longrightarrow> 0 < b \<Longrightarrow> (a :: int) sdiv b = a div b"
  by (cases "a = 0") (simp_all add: signed_divide_int_def)

lemma smod_nonneg: "0 \<le> a \<Longrightarrow> 0 < b \<Longrightarrow> (a :: int) smod b = a mod b"
  by (cases "a = 0") (simp_all add: signed_modulo_int_def)

text \<open>
  \<open>make([]byte, n)\<close> panics for a negative length and for one above the address space the runtime
  can allocate (\<open>2 ^ 48\<close> bytes on 64-bit Linux).
\<close>

definition make_ok :: "int \<Rightarrow> bool" where
  "make_ok n \<longleftrightarrow> 0 \<le> n \<and> n \<le> 2 ^ 48"

section \<open>Byte-list surgery\<close>

definition slice :: "nat \<Rightarrow> nat \<Rightarrow> 'a list \<Rightarrow> 'a list" where
  "slice s n xs = take n (drop s xs)"

definition patch :: "nat \<Rightarrow> 'a list \<Rightarrow> 'a list \<Rightarrow> 'a list" where
  "patch p d xs = take p xs @ d @ drop (p + length d) xs"

lemma slice_0 [simp]: "slice s 0 xs = []"
  by (simp add: slice_def)

lemma slice_all: "slice 0 (length xs) xs = xs"
  by (simp add: slice_def)

lemma length_slice [simp]: "length (slice s n xs) = min n (length xs - s)"
  by (simp add: slice_def)

lemma slice_adjacent: "slice s n xs @ slice (s + n) m xs = slice s (n + m) xs"
  by (simp add: slice_def take_add drop_drop add.commute [of s n] del: drop_drop)
     (simp add: add.commute)

lemma slice_to_end: "n = length xs - s \<Longrightarrow> slice s n xs = drop s xs"
  by (simp add: slice_def)

lemma slice_prefix: "s + n \<le> length xs \<Longrightarrow> slice s n (xs @ ys) = slice s n xs"
  by (simp add: slice_def)

lemma slice_take: "s + n \<le> m \<Longrightarrow> slice s n (take m xs) = slice s n xs"
  by (simp add: slice_def drop_take)

lemma slice_append2: "length xs \<le> s \<Longrightarrow> slice s n (xs @ ys) = slice (s - length xs) n ys"
  by (simp add: slice_def)

lemma slice_straddle:
  "s \<le> length xs \<Longrightarrow> length xs \<le> s + n \<Longrightarrow>
   slice s n (xs @ ys) = drop s xs @ take (s + n - length xs) ys"
  by (simp add: slice_def add.commute)

lemma length_patch [simp]: "p + length d \<le> length xs \<Longrightarrow> length (patch p d xs) = length xs"
  by (simp add: patch_def)

lemma take_patch: "p + length d \<le> length xs \<Longrightarrow> take (p + length d) (patch p d xs) = take p xs @ d"
  by (simp add: patch_def)

lemma patch_end [simp]: "patch (length xs) d xs = xs @ d"
  by (simp add: patch_def)

section \<open>Big-endian 32-bit lengths\<close>

definition be32 :: "int \<Rightarrow> bytes" where
  "be32 n = [word_of_int (drop_bit 24 n), word_of_int (drop_bit 16 n),
             word_of_int (drop_bit 8 n), word_of_int n]"

definition un_be32 :: "bytes \<Rightarrow> int" where
  "un_be32 bs = push_bit 24 (uint (bs ! 0)) + push_bit 16 (uint (bs ! 1)) +
                push_bit 8 (uint (bs ! 2)) + uint (bs ! 3)"

lemma length_be32 [simp]: "length (be32 n) = 4"
  by (simp add: be32_def)

lemma mod_mult_split: "0 \<le> a \<Longrightarrow> n mod (b * a) = b * (n div b mod a) + n mod (b :: int)"
  by (rule zmod_zmult2_eq)

lemma un_be32_be32: "un_be32 (be32 n @ xs) = n mod 2 ^ 32"
proof -
  have "n mod (2 ^ 8 * (2 ^ 8 * (2 ^ 8 * 2 ^ 8))) =
    2 ^ 8 * (2 ^ 8 * (2 ^ 8 * (n div 2 ^ 8 div 2 ^ 8 div 2 ^ 8 mod 2 ^ 8) +
      n div 2 ^ 8 div 2 ^ 8 mod 2 ^ 8) + n div 2 ^ 8 mod 2 ^ 8) + n mod 2 ^ 8" (is "?l = ?r")
    by (simp only: mod_mult_split mult_nonneg_nonneg zero_le_power zero_le_numeral)
  moreover have "un_be32 (be32 n @ xs) = ?r"
    by (simp add: un_be32_def be32_def uint_word_of_int drop_bit_eq_div push_bit_eq_mult
        zdiv_zmult2_eq [symmetric])
  ultimately show ?thesis by simp
qed

lemma un_be32_nonneg [simp]: "0 \<le> un_be32 bs"
  by (simp add: un_be32_def push_bit_eq_mult)

lemma un_be32_prefix: "4 \<le> length xs \<Longrightarrow> un_be32 (xs @ ys) = un_be32 xs"
  by (cases xs) (auto simp: un_be32_def nth_append nth_Cons')

lemma be32_un_be32: "4 \<le> length bs \<Longrightarrow> be32 (un_be32 bs) = take 4 bs"
proof -
  assume "4 \<le> length bs"
  then obtain a b c d rest where bs: "bs = a # b # c # d # rest"
    by (auto simp: Suc_le_length_iff numeral_eq_Suc)
  have bounds: "0 \<le> uint a" "uint a < 256" "0 \<le> uint b" "uint b < 256"
    "0 \<le> uint c" "uint c < 256" "0 \<le> uint d" "uint d < 256"
    using uint_lt2p [of a] uint_lt2p [of b] uint_lt2p [of c] uint_lt2p [of d] by simp_all
  let ?n = "uint a * 16777216 + uint b * 65536 + uint c * 256 + uint d"
  have "?n div 16777216 = uint a" "?n div 65536 = uint a * 256 + uint b"
    "?n div 256 = uint a * 65536 + uint b * 256 + uint c"
    using bounds by linarith+
  moreover have "(256 :: byte) = 0" "(65536 :: byte) = 0" "(16777216 :: byte) = 0"
    by simp_all
  ultimately show ?thesis
    by (simp add: bs be32_def un_be32_def push_bit_eq_mult drop_bit_eq_div del: word_eq_numeral_iff_iszero)
qed

lemma un_be32_less: "un_be32 bs < 2 ^ 32"
  using uint_lt2p [of "bs ! 0"] uint_lt2p [of "bs ! 1"] uint_lt2p [of "bs ! 2"] uint_lt2p [of "bs ! 3"]
  by (simp add: un_be32_def push_bit_eq_mult)

section \<open>Go strings and byte slices\<close>

text \<open>A Go string is a byte sequence, held here as a list of \<open>char\<close>s; \<open>[]byte(s)\<close> is \<open>str_bytes s\<close>.\<close>

definition str_bytes :: "string \<Rightarrow> bytes" where
  "str_bytes s = map (\<lambda>c. of_nat (of_char c)) s"

definition bytes_str :: "bytes \<Rightarrow> string" where
  "bytes_str bs = map (\<lambda>b. char_of (unat b)) bs"

lemma length_str_bytes [simp]: "length (str_bytes s) = length s"
  by (simp add: str_bytes_def)

lemma bytes_str_str_bytes [simp]: "bytes_str (str_bytes s) = s"
proof -
  have "(of_char c :: nat) < 256" for c :: char
    using of_char_mod_256 [of c, where 'a = nat] by (metis mod_less_divisor zero_less_numeral)
  then show ?thesis
    by (simp add: bytes_str_def str_bytes_def o_def unat_of_nat map_idI)
qed

lemma str_bytes_append: "str_bytes (s @ t) = str_bytes s @ str_bytes t"
  by (simp add: str_bytes_def)

lemma str_bytes_inj: "str_bytes s = str_bytes t \<longleftrightarrow> s = t"
  by (metis bytes_str_str_bytes)

text \<open>The outcome of an operation that may panic part way or wait for ever.\<close>

datatype 'a exec = Done 'a | Panics panic 'a | Blocks

text \<open>Statement after statement: a panic or a wait keeps the rest from running.\<close>

definition andThen :: "'a exec \<Rightarrow> ('a \<Rightarrow> 'a exec) \<Rightarrow> 'a exec" where
  "andThen m k = (case m of Done a \<Rightarrow> k a | Panics p a \<Rightarrow> Panics p a | Blocks \<Rightarrow> Blocks)"

lemma andThen_simps [simp]:
  "andThen (Done a) k = k a" "andThen (Panics p a) k = Panics p a" "andThen Blocks k = Blocks"
  by (simp_all add: andThen_def)

lemma andThen_Done: "andThen m Done = m"
  by (cases m) simp_all

lemma andThen_eq_Done: "andThen m k = Done b \<longleftrightarrow> (\<exists>a. m = Done a \<and> k a = Done b)"
  by (cases m) simp_all

lemma andThen_assoc: "andThen (andThen m k) l = andThen m (\<lambda>a. andThen (k a) l)"
  by (cases m) simp_all

text \<open>A loop over a list of items, one statement each.\<close>

fun each :: "('b \<Rightarrow> 'a \<Rightarrow> 'a exec) \<Rightarrow> 'b list \<Rightarrow> 'a \<Rightarrow> 'a exec" where
  "each f [] a = Done a"
| "each f (x # xs) a = andThen (f x a) (each f xs)"

lemma each_append: "each f (xs @ ys) a = andThen (each f xs a) (each f ys)"
proof (induction xs arbitrary: a)
  case (Cons x xs)
  have "each f (xs @ ys) = (\<lambda>a. andThen (each f xs a) (each f ys))"
    using Cons.IH by blast
  then show ?case
    by (simp add: andThen_assoc)
qed simp

text \<open>What holds after every normal end of a statement.\<close>

definition ensures :: "'a exec \<Rightarrow> ('a \<Rightarrow> bool) \<Rightarrow> bool" where
  "ensures m P \<longleftrightarrow> (\<forall>a. m = Done a \<longrightarrow> P a)"

lemma ensures_simps [simp]:
  "ensures (Done a) P = P a" "ensures (Panics p a) P" "ensures Blocks P"
  by (simp_all add: ensures_def)

lemma ensures_andThen:
  "ensures m (\<lambda>a. ensures (k a) P) \<Longrightarrow> ensures (andThen m k) P"
  by (cases m) simp_all

lemma ensures_mono: "ensures m P \<Longrightarrow> (\<And>a. P a \<Longrightarrow> Q a) \<Longrightarrow> ensures m Q"
  by (simp add: ensures_def)

lemma ensures_each:
  assumes "I a" and "\<And>x a. x \<in> set xs \<Longrightarrow> I a \<Longrightarrow> ensures (f x a) I"
  shows "ensures (each f xs a) I"
  using assms
proof (induction xs arbitrary: a)
  case (Cons x xs)
  have "ensures (f x a) I"
    using Cons.prems by simp
  then have "ensures (f x a) (\<lambda>a'. ensures (each f xs a') I)"
    by (rule ensures_mono) (rule Cons.IH, use Cons.prems in auto)
  then show ?case
    by (simp add: ensures_andThen)
qed simp

text \<open>What holds of the state after a statement, panics included.\<close>

definition always :: "'a exec \<Rightarrow> ('a \<Rightarrow> bool) \<Rightarrow> bool" where
  "always m P \<longleftrightarrow> (case m of Done a \<Rightarrow> P a | Panics p a \<Rightarrow> P a | Blocks \<Rightarrow> True)"

lemma always_simps [simp]:
  "always (Done a) P = P a" "always (Panics p a) P = P a" "always Blocks P"
  by (simp_all add: always_def)

lemma always_andThen: "always m P \<Longrightarrow> (\<And>a. P a \<Longrightarrow> always (k a) P) \<Longrightarrow> always (andThen m k) P"
  by (cases m) simp_all

lemma always_mono: "always m P \<Longrightarrow> (\<And>a. P a \<Longrightarrow> Q a) \<Longrightarrow> always m Q"
  by (cases m) simp_all

lemma always_each:
  assumes "P a" and "\<And>x a. x \<in> set xs \<Longrightarrow> P a \<Longrightarrow> always (f x a) P"
  shows "always (each f xs a) P"
  using assms by (induction xs arbitrary: a) (auto intro!: always_andThen)

lemma always_ensures: "always m P \<Longrightarrow> ensures m P"
  by (cases m) simp_all

end
