(* ===== verification/Json.thy ===== *)
theory Json
  imports Prelude
begin

text \<open>
  What the program uses of \<open>encoding/json\<close>: the values, the decoding of an object into a struct
  (\<open>json.Unmarshal\<close> matches field names without regard to case, ignores unknown keys, leaves a
  field alone on \<open>null\<close>, and on a value of the wrong type leaves it alone and reports an error at
  the end).  The conversion from and to text is in theory \<open>JsonText\<close>.  The number
  \<open>JFloat m e\<close> is the literal \<open>m * 10 ^ e\<close> written with a fraction or an exponent.
\<close>

datatype json =
    JNull
  | JBool bool
  | JInt int
  | JFloat int int
  | JStr string
  | JArr "json list"
  | JObj "(string \<times> json) list"

section \<open>Field names\<close>

definition lower :: "char \<Rightarrow> char" where
  "lower c = (let n = (of_char c :: nat) in if 65 \<le> n \<and> n \<le> 90 then char_of (n + 32) else c)"

text \<open>
  The library's \<open>equalFold\<close>: ASCII case, and the two other runes that fold to ASCII letters, the
  Kelvin sign (bytes E2 84 AA, folds to k) and the long s (bytes C5 BF, folds to s).
\<close>

fun fold_key :: "string \<Rightarrow> string" where
  "fold_key [] = []"
| "fold_key (c # cs) =
     (if c = CHR 0xE2 \<and> take 2 cs = [CHR 0x84, CHR 0xAA] then CHR ''k'' # fold_key (drop 2 cs)
      else if c = CHR 0xC5 \<and> take 1 cs = [CHR 0xBF] then CHR ''s'' # fold_key (drop 1 cs)
      else lower c # fold_key cs)"

definition field_matches :: "string \<Rightarrow> string \<Rightarrow> bool" where
  "field_matches name key \<longleftrightarrow> fold_key key = fold_key name"

section \<open>Decoding into a struct\<close>

text \<open>A setter stores one value in a struct and says whether its type was wrong.\<close>

type_synonym 'r setter = "json \<Rightarrow> 'r \<Rightarrow> 'r \<times> bool"

definition set_string :: "(string \<Rightarrow> 'r \<Rightarrow> 'r) \<Rightarrow> 'r setter" where
  "set_string upd v r = (case v of JStr s \<Rightarrow> (upd s r, False) | JNull \<Rightarrow> (r, False) | _ \<Rightarrow> (r, True))"

definition set_bool :: "(bool \<Rightarrow> 'r \<Rightarrow> 'r) \<Rightarrow> 'r setter" where
  "set_bool upd v r = (case v of JBool b \<Rightarrow> (upd b r, False) | JNull \<Rightarrow> (r, False) | _ \<Rightarrow> (r, True))"

definition set_int :: "int \<Rightarrow> int \<Rightarrow> (int \<Rightarrow> 'r \<Rightarrow> 'r) \<Rightarrow> 'r setter" where
  "set_int lo hi upd v r =
     (case v of
        JInt n \<Rightarrow> if lo \<le> n \<and> n \<le> hi then (upd n r, False) else (r, True)
      | JNull \<Rightarrow> (r, False)
      | _ \<Rightarrow> (r, True))"

abbreviation set_int64 :: "(int \<Rightarrow> 'r \<Rightarrow> 'r) \<Rightarrow> 'r setter" where
  "set_int64 \<equiv> set_int (- (2 ^ 63)) (2 ^ 63 - 1)"

abbreviation set_uint16 :: "(int \<Rightarrow> 'r \<Rightarrow> 'r) \<Rightarrow> 'r setter" where
  "set_uint16 \<equiv> set_int 0 65535"

definition decode_key :: "(string \<times> 'r setter) list \<Rightarrow> 'r \<times> bool \<Rightarrow> string \<times> json \<Rightarrow> 'r \<times> bool" where
  "decode_key fields re kv =
     (case find (\<lambda>(name, st). field_matches name (fst kv)) fields of
        None \<Rightarrow> re
      | Some (name, st) \<Rightarrow> (case st (snd kv) (fst re) of (r', e') \<Rightarrow> (r', snd re \<or> e')))"

definition decode_struct :: "(string \<times> 'r setter) list \<Rightarrow> 'r setter" where
  "decode_struct fields v r =
     (case v of
        JObj kvs \<Rightarrow> foldl (decode_key fields) (r, False) kvs
      | JNull \<Rightarrow> (r, False)
      | _ \<Rightarrow> (r, True))"

definition set_struct :: "(string \<times> 's setter) list \<Rightarrow> ('r \<Rightarrow> 's) \<Rightarrow> ('s \<Rightarrow> 'r \<Rightarrow> 'r) \<Rightarrow> 'r setter" where
  "set_struct fields get upd v r =
     (case decode_struct fields v (get r) of (x, e) \<Rightarrow> (upd x r, e))"

lemmas setters = set_string_def set_bool_def set_int_def set_struct_def

lemma decode_struct_obj:
  "decode_struct fields (JObj kvs) r = foldl (decode_key fields) (r, False) kvs"
  by (simp add: decode_struct_def)

text \<open>Keys that match no field change nothing.\<close>

lemma find_none: "\<forall>x \<in> set xs. \<not> P x \<Longrightarrow> find P xs = None"
  by (induction xs) auto

lemma decode_key_unknown:
  "\<forall>f \<in> set fields. \<not> field_matches (fst f) k \<Longrightarrow> decode_key fields re (k, v) = re"
  by (simp add: decode_key_def find_none case_prod_beta)

section \<open>Numbers that do not fit a float64\<close>

text \<open>
  Decoding into \<open>interface{}\<close> turns every number into a \<open>float64\<close> and fails when its magnitude
  rounds to \<open>2 ^ 1024\<close> or more.
\<close>

definition float_limit :: int where
  "float_limit = 2 ^ 1024 - 2 ^ 970"

fun float_overflow :: "json \<Rightarrow> bool" where
  "float_overflow (JInt n) = (\<bar>n\<bar> \<ge> float_limit)"
| "float_overflow (JFloat m e) =
     (if e \<ge> 0 then \<bar>m\<bar> * 10 ^ nat e \<ge> float_limit else \<bar>m\<bar> \<ge> float_limit * 10 ^ nat (- e))"
| "float_overflow (JArr vs) = list_ex float_overflow vs"
| "float_overflow (JObj kvs) = list_ex (\<lambda>(k, v). float_overflow v) kvs"
| "float_overflow _ = False"

section \<open>Properties of decoded structs\<close>

text \<open>A property every setter keeps, for values satisfying \<open>Q\<close>, holds of the decoded struct.\<close>

definition setters_keep :: "(json \<Rightarrow> bool) \<Rightarrow> ('r \<Rightarrow> bool) \<Rightarrow> (string \<times> 'r setter) list \<Rightarrow> bool" where
  "setters_keep Q P flds \<longleftrightarrow> (\<forall>f \<in> set flds. \<forall>v r. Q v \<longrightarrow> P r \<longrightarrow> P (fst (snd f v r)))"

lemma find_mem: "find P xs = Some x \<Longrightarrow> x \<in> set xs"
  by (induction xs) (auto split: if_splits)

lemma decode_key_keeps:
  assumes "setters_keep Q P flds" and "Q (snd kv)" and "P (fst re)"
  shows "P (fst (decode_key flds re kv))"
proof (cases "find (\<lambda>(name, st). field_matches name (fst kv)) flds")
  case (Some f)
  then have "f \<in> set flds"
    by (rule find_mem)
  then have "P (fst (snd f (snd kv) (fst re)))"
    using assms by (simp add: setters_keep_def)
  then show ?thesis
    using Some by (simp add: decode_key_def case_prod_beta)
qed (use assms in \<open>simp add: decode_key_def\<close>)

lemma foldl_decode_keeps:
  "setters_keep Q P flds \<Longrightarrow> \<forall>kv \<in> set kvs. Q (snd kv) \<Longrightarrow> P (fst re) \<Longrightarrow>
   P (fst (foldl (decode_key flds) re kvs))"
  by (induction kvs arbitrary: re) (simp_all add: decode_key_keeps)

lemma decode_struct_keeps:
  assumes "setters_keep Q P flds" and "P r" and "\<And>kvs. v = JObj kvs \<Longrightarrow> \<forall>kv \<in> set kvs. Q (snd kv)"
  shows "P (fst (decode_struct flds v r))"
  using assms by (cases v) (auto simp: decode_struct_def intro: foldl_decode_keeps)

end
