(* ===== verification/JsonText.thy ===== *)
theory JsonText
  imports Json
begin

text \<open>
  The text side of \<open>encoding/json\<close>: \<open>json.Marshal\<close> (compact, with the default HTML escaping) and
  the checker and parser behind \<open>json.Unmarshal\<close>, on the bytes of a Go string.  Invalid UTF-8 is
  written as the escape of U+FFFD and read as U+FFFD.  The parser takes fuel for the nesting of
  values; \<open>unm\<close> gives it more than the text has bytes.  The main result is the round trip
  \<open>unm_mar\<close>.  The program marshals no floating-point number; \<open>JFloat\<close> is written with an exponent
  so that the round trip has no exception there.
\<close>

section \<open>UTF-8\<close>

abbreviation code :: "char \<Rightarrow> nat" where
  "code c \<equiv> of_char c"

definition code_at :: "string \<Rightarrow> nat \<Rightarrow> nat" where
  "code_at s i = (if i < length s then code (s ! i) else 0)"

definition tail_byte :: "nat \<Rightarrow> bool" where
  "tail_byte b \<longleftrightarrow> 128 \<le> b \<and> b \<le> 191"

text \<open>The size of the rune at the front as \<open>utf8.DecodeRune\<close> sees it; 0 when it is invalid.\<close>

definition rune_size :: "string \<Rightarrow> nat" where
  "rune_size s =
     (let a = code_at s 0; b = code_at s 1; c = code_at s 2; d = code_at s 3 in
      if s = [] then 0
      else if a < 128 then 1
      else if 194 \<le> a \<and> a \<le> 223 then (if tail_byte b then 2 else 0)
      else if 224 \<le> a \<and> a \<le> 239 then
        (if tail_byte b \<and> (a = 224 \<longrightarrow> 160 \<le> b) \<and> (a = 237 \<longrightarrow> b \<le> 159) \<and> tail_byte c then 3 else 0)
      else if 240 \<le> a \<and> a \<le> 244 then
        (if tail_byte b \<and> (a = 240 \<longrightarrow> 144 \<le> b) \<and> (a = 244 \<longrightarrow> b \<le> 143) \<and> tail_byte c \<and> tail_byte d
         then 4 else 0)
      else 0)"

lemma code_at_tail: "tail_byte (code_at s i) \<Longrightarrow> i < length s"
  by (auto simp: code_at_def tail_byte_def split: if_splits)

lemma rune_size_le: "rune_size s \<le> length s"
proof -
  have "s \<noteq> [] \<Longrightarrow> 1 \<le> length s"
    by (cases s) auto
  then show ?thesis
    using code_at_tail [of s 1] code_at_tail [of s 2] code_at_tail [of s 3]
    by (auto simp: rune_size_def Let_def)
qed

lemma code_at_take: "i < n \<Longrightarrow> n \<le> length s \<Longrightarrow> code_at (take n s @ r) i = code_at s i"
  by (simp add: code_at_def nth_append)

lemma code_at_0: "code_at s 0 \<noteq> 0 \<Longrightarrow> s \<noteq> []"
  by (auto simp: code_at_def)

lemma rune_size_1: "rune_size s = Suc 0 \<longleftrightarrow> s \<noteq> [] \<and> code_at s 0 < 128"
  by (auto simp: rune_size_def Let_def)

lemma rune_size_2: "rune_size s = 2 \<longleftrightarrow>
    194 \<le> code_at s 0 \<and> code_at s 0 \<le> 223 \<and> tail_byte (code_at s 1)"
  using code_at_0 [of s] by (auto simp: rune_size_def Let_def)

lemma rune_size_3: "rune_size s = 3 \<longleftrightarrow>
    224 \<le> code_at s 0 \<and> code_at s 0 \<le> 239 \<and> tail_byte (code_at s 1) \<and>
    (code_at s 0 = 224 \<longrightarrow> 160 \<le> code_at s 1) \<and> (code_at s 0 = 237 \<longrightarrow> code_at s 1 \<le> 159) \<and>
    tail_byte (code_at s 2)"
  using code_at_0 [of s] by (auto simp: rune_size_def Let_def)

lemma rune_size_4: "rune_size s = 4 \<longleftrightarrow>
    240 \<le> code_at s 0 \<and> code_at s 0 \<le> 244 \<and> tail_byte (code_at s 1) \<and>
    (code_at s 0 = 240 \<longrightarrow> 144 \<le> code_at s 1) \<and> (code_at s 0 = 244 \<longrightarrow> code_at s 1 \<le> 143) \<and>
    tail_byte (code_at s 2) \<and> tail_byte (code_at s 3)"
  using code_at_0 [of s] by (auto simp: rune_size_def Let_def)

lemma rune_size_cases: "rune_size s \<in> {0, Suc 0, 2, 3, 4}"
  by (simp add: rune_size_def Let_def)

lemma rune_size_take:
  assumes "rune_size s = n" "n \<noteq> 0"
  shows "rune_size (take n s @ r) = n"
proof -
  have le: "n \<le> length s"
    using assms rune_size_le [of s] by simp
  note z = code_at_take [OF _ le, of _ r]
  have "take n s @ r \<noteq> []"
    using assms le by (cases s) auto
  moreover have "n \<in> {Suc 0, 2, 3, 4}"
    using assms rune_size_cases [of s] by auto
  ultimately show ?thesis
    using assms(1) z [of 0] z [of 1] z [of 2] z [of 3]
    by (elim insertE) (simp_all add: rune_size_1 rune_size_2 rune_size_3 rune_size_4)
qed

function utf8 :: "string \<Rightarrow> bool" where
  "utf8 s = (if s = [] then True else if rune_size s = 0 then False else utf8 (drop (rune_size s) s))"
  by pat_completeness auto
termination by (relation "measure length") auto

declare utf8.simps [simp del]

definition rune_error :: string where
  "rune_error = [CHR 0xEF, CHR 0xBF, CHR 0xBD]"

definition encode_rune :: "nat \<Rightarrow> string" where
  "encode_rune n =
     (if n < 128 then [char_of n]
      else if n < 2048 then [char_of (192 + n div 64), char_of (128 + n mod 64)]
      else if 55296 \<le> n \<and> n < 57344 then rune_error
      else if n < 65536 then
        [char_of (224 + n div 4096), char_of (128 + n div 64 mod 64), char_of (128 + n mod 64)]
      else if n < 1114112 then
        [char_of (240 + n div 262144), char_of (128 + n div 4096 mod 64),
         char_of (128 + n div 64 mod 64), char_of (128 + n mod 64)]
      else rune_error)"

section \<open>Strings\<close>

definition json_hex_digit :: "nat \<Rightarrow> char" where
  "json_hex_digit d = ''0123456789abcdef'' ! d"

definition hex_value :: "char \<Rightarrow> nat option" where
  "hex_value c =
     (let n = code c in
      if 48 \<le> n \<and> n \<le> 57 then Some (n - 48)
      else if 97 \<le> n \<and> n \<le> 102 then Some (n - 87)
      else if 65 \<le> n \<and> n \<le> 70 then Some (n - 55)
      else None)"

definition escape :: "char \<Rightarrow> string" where
  "escape c =
     (if c = CHR 0x22 \<or> c = CHR 0x5C then [CHR 0x5C, c]
      else if c = CHR 0x0A then [CHR 0x5C, CHR ''n'']
      else if c = CHR 0x0D then [CHR 0x5C, CHR ''r'']
      else if c = CHR 0x09 then [CHR 0x5C, CHR ''t'']
      else if code c < 32 \<or> c = CHR ''<'' \<or> c = CHR ''>'' \<or> c = CHR ''&''
        then [CHR 0x5C, CHR ''u'', CHR ''0'', CHR ''0'', json_hex_digit (code c div 16), json_hex_digit (code c mod 16)]
      else [c])"

function quote :: "string \<Rightarrow> string" where
  "quote s =
     (if s = [] then []
      else if rune_size s = 0 then [CHR 0x5C] @ ''ufffd'' @ quote (tl s)
      else if rune_size s = 1 then escape (hd s) @ quote (tl s)
      else if take 3 s = [CHR 0xE2, CHR 0x80, CHR 0xA8] then [CHR 0x5C] @ ''u2028'' @ quote (drop 3 s)
      else if take 3 s = [CHR 0xE2, CHR 0x80, CHR 0xA9] then [CHR 0x5C] @ ''u2029'' @ quote (drop 3 s)
      else take (rune_size s) s @ quote (drop (rune_size s) s))"
  by pat_completeness auto
termination by (relation "measure length") (auto simp: length_tl)

declare quote.simps [simp del]

fun hex4 :: "string \<Rightarrow> (nat \<times> string) option" where
  "hex4 (a # b # c # d # r) =
     (case (hex_value a, hex_value b, hex_value c, hex_value d) of
        (Some w, Some x, Some y, Some z) \<Rightarrow> Some (4096 * w + 256 * x + 16 * y + z, r)
      | _ \<Rightarrow> None)"
| "hex4 _ = None"

text \<open>After a high surrogate: the second half, when one follows as an escape.\<close>

definition low_half :: "string \<Rightarrow> (nat \<times> string) option" where
  "low_half r =
     (case r of
        a # b # t \<Rightarrow>
          if a = CHR 0x5C \<and> b = CHR ''u'' then
            (case hex4 t of
               Some (n, t') \<Rightarrow> if 56320 \<le> n \<and> n < 57344 then Some (n, t') else None
             | None \<Rightarrow> None)
          else None
      | _ \<Rightarrow> None)"

definition unescape :: "string \<Rightarrow> (string \<times> string) option" where
  "unescape s =
     (case s of
        [] \<Rightarrow> None
      | c # r \<Rightarrow>
          if c = CHR 0x22 \<or> c = CHR 0x5C \<or> c = CHR ''/'' then Some ([c], r)
          else if c = CHR ''b'' then Some ([CHR 0x08], r)
          else if c = CHR ''f'' then Some ([CHR 0x0C], r)
          else if c = CHR ''n'' then Some ([CHR 0x0A], r)
          else if c = CHR ''r'' then Some ([CHR 0x0D], r)
          else if c = CHR ''t'' then Some ([CHR 0x09], r)
          else if c = CHR ''u'' then
            (case hex4 r of
               None \<Rightarrow> None
             | Some (n, t) \<Rightarrow>
                 if 55296 \<le> n \<and> n < 56320 then
                   (case low_half t of
                      Some (m, t') \<Rightarrow> Some (encode_rune (65536 + (n - 55296) * 1024 + (m - 56320)), t')
                    | None \<Rightarrow> Some (rune_error, t))
                 else Some (encode_rune n, t))
          else None)"

lemma hex4_length: "hex4 s = Some (n, t) \<Longrightarrow> length t < length s"
  by (cases s rule: hex4.cases) (auto split: option.splits)

lemma low_half_length: "low_half s = Some (n, t) \<Longrightarrow> length t < length s"
  by (auto simp: low_half_def split: list.splits if_splits option.splits dest!: hex4_length)

lemma unescape_length: "unescape s = Some (x, t) \<Longrightarrow> length t < length s"
  by (auto simp: unescape_def split: list.splits if_splits option.splits
      dest!: hex4_length low_half_length)

definition glue :: "string \<Rightarrow> (string \<times> string) option \<Rightarrow> (string \<times> string) option" where
  "glue x r = (case r of None \<Rightarrow> None | Some (y, t) \<Rightarrow> Some (x @ y, t))"

lemma glue_Some [simp]: "glue x (Some (y, t)) = Some (x @ y, t)"
  by (simp add: glue_def)

text \<open>\<open>unquote\<close> reads after the opening quote and returns what follows the closing one.\<close>

function unquote :: "string \<Rightarrow> (string \<times> string) option" where
  "unquote s =
     (case s of
        [] \<Rightarrow> None
      | c # r \<Rightarrow>
          if c = CHR 0x22 then Some ([], r)
          else if c = CHR 0x5C then
            (case unescape r of None \<Rightarrow> None | Some (x, t) \<Rightarrow> glue x (unquote t))
          else if code c < 32 then None
          else if rune_size s = 0 then glue rune_error (unquote r)
          else glue (take (rune_size s) s) (unquote (drop (rune_size s) s)))"
  by pat_completeness auto
termination
  by (relation "measure length") (auto dest: unescape_length)

declare unquote.simps [simp del]

lemma unquote_escaped:
  "unescape r = Some (x, t) \<Longrightarrow> unquote (CHR 0x5C # r) = glue x (unquote t)"
  by (subst unquote.simps) simp

lemma hex_value_digit: "d < 16 \<Longrightarrow> hex_value (json_hex_digit d) = Some d"
proof -
  have "\<forall>d \<in> set [0..<16]. hex_value (json_hex_digit d) = Some d"
    by code_simp
  then show "d < 16 \<Longrightarrow> hex_value (json_hex_digit d) = Some d"
    by simp
qed

lemma code_less: "code c < 256"
  by (metis of_char_mod_256 mod_less_divisor zero_less_numeral)

lemma rune_size_one: "rune_size s = 1 \<Longrightarrow> s \<noteq> [] \<and> code (hd s) < 128"
  by (auto simp: rune_size_def Let_def code_at_def hd_conv_nth split: if_splits)

lemma rune_size_ascii: "code c < 128 \<Longrightarrow> rune_size (c # r) = 1"
  by (simp add: rune_size_def code_at_def)

lemma utf8_ascii: "list_all (\<lambda>c. code c < 128) s \<Longrightarrow> utf8 s"
proof (induction s)
  case (Cons c s)
  then show ?case
    by (subst utf8.simps) (simp add: rune_size_ascii)
qed (simp add: utf8.simps)

lemma utf8_rune: "rune_size s \<noteq> 0 \<Longrightarrow> utf8 r \<Longrightarrow> utf8 (take (rune_size s) s @ r)"
proof -
  assume n: "rune_size s \<noteq> 0" and r: "utf8 r"
  then have "rune_size (take (rune_size s) s @ r) = rune_size s"
    using rune_size_take by blast
  then show ?thesis
    using n r rune_size_le [of s] by (subst utf8.simps) simp
qed

lemma utf8_append: "utf8 s \<Longrightarrow> utf8 t \<Longrightarrow> utf8 (s @ t)"
proof (induction s rule: utf8.induct)
  case (1 s)
  show ?case
  proof (cases "s = []")
    case False
    then have n: "rune_size s \<noteq> 0" "utf8 (drop (rune_size s) s)"
      using "1.prems"(1) by (simp_all add: utf8.simps [of s] split: if_splits)
    then have "utf8 (take (rune_size s) s @ (drop (rune_size s) s @ t))"
      using "1.IH" False "1.prems"(2) by (intro utf8_rune) auto
    then show ?thesis
      by (metis append.assoc append_take_drop_id)
  qed (use "1.prems" in simp)
qed

lemma utf8_error: "utf8 rune_error"
  by code_simp

lemma unescape_hex:
  assumes "code c < 128"
  shows "unescape ([CHR ''u'', CHR ''0'', CHR ''0'', json_hex_digit (code c div 16), json_hex_digit (code c mod 16)] @ r)
    = Some ([c], r)"
proof -
  have "hex_value (CHR ''0'') = Some 0"
    by code_simp
  moreover have "16 * (code c div 16) + code c mod 16 = code c"
    by simp
  ultimately have "hex4 ([CHR ''0'', CHR ''0'', json_hex_digit (code c div 16), json_hex_digit (code c mod 16)] @ r)
      = Some (code c, r)"
    using assms by (simp add: hex_value_digit)
  then show ?thesis
    using assms by (simp add: unescape_def encode_rune_def)
qed

lemma unquote_escape:
  assumes "code c < 128"
  shows "unquote (escape c @ r) = glue [c] (unquote r)"
proof -
  have plain: "unquote (c # r) = glue [c] (unquote r)"
    if "c \<noteq> CHR 0x22" "c \<noteq> CHR 0x5C" "\<not> code c < 32"
    using that rune_size_ascii [OF assms] by (subst unquote.simps) simp
  show ?thesis
    using unquote_escaped [OF unescape_hex [OF assms]]
    by (auto simp: escape_def plain unquote_escaped unescape_def)
qed

lemma unquote_line_separators:
  "unquote ([CHR 0x5C] @ ''u2028'' @ r) = glue [CHR 0xE2, CHR 0x80, CHR 0xA8] (unquote r)"
  "unquote ([CHR 0x5C] @ ''u2029'' @ r) = glue [CHR 0xE2, CHR 0x80, CHR 0xA9] (unquote r)"
proof -
  have h: "hex_value (CHR ''2'') = Some 2" "hex_value (CHR ''0'') = Some 0"
    "hex_value (CHR ''8'') = Some 8" "hex_value (CHR ''9'') = Some 9"
    by code_simp+
  have e: "encode_rune 8232 = [CHR 0xE2, CHR 0x80, CHR 0xA8]"
    "encode_rune 8233 = [CHR 0xE2, CHR 0x80, CHR 0xA9]"
    by (simp_all add: encode_rune_def char_of_eq_iff take_bit_eq_mod)
  have "unescape (''u2028'' @ r) = Some ([CHR 0xE2, CHR 0x80, CHR 0xA8], r)"
    "unescape (''u2029'' @ r) = Some ([CHR 0xE2, CHR 0x80, CHR 0xA9], r)"
    by (simp_all add: unescape_def h e)
  then show "unquote ([CHR 0x5C] @ ''u2028'' @ r) = glue [CHR 0xE2, CHR 0x80, CHR 0xA8] (unquote r)"
    "unquote ([CHR 0x5C] @ ''u2029'' @ r) = glue [CHR 0xE2, CHR 0x80, CHR 0xA9] (unquote r)"
    using unquote_escaped by simp_all
qed

lemma unquote_rune:
  assumes "rune_size s = n" "1 < n"
  shows "unquote (take n s @ r) = glue (take n s) (unquote r)"
proof -
  have n: "n \<le> length s" "rune_size (take n s @ r) = n"
    using assms rune_size_le [of s] rune_size_take [of s n] by auto
  moreover have "128 \<le> code (hd s)"
    using assms by (cases s) (auto simp: rune_size_def Let_def code_at_def split: if_splits)
  moreover have "hd s \<noteq> CHR 0x22" "hd s \<noteq> CHR 0x5C"
    using calculation(3) by auto
  moreover obtain x t where "take n s = x # t" "hd s = x"
    using assms n by (cases s; cases n) auto
  ultimately show ?thesis
    using assms by (subst unquote.simps) (simp, metis append_Cons append_eq_conv_conj length_take min.absorb2)
qed

theorem unquote_quote:
  "utf8 s \<Longrightarrow> unquote (quote s @ CHR 0x22 # r) = Some (s, r)"
proof (induction s rule: quote.induct)
  case (1 s)
  show ?case
  proof (cases "s = []")
    case True
    then show ?thesis
      by (simp add: quote.simps unquote.simps)
  next
    case False
    then have rest: "rune_size s \<noteq> 0" "utf8 (drop (rune_size s) s)"
      using "1.prems" by (simp_all add: utf8.simps [of s] split: if_splits)
    have three: "rune_size s = 3" if "take 3 s = [CHR 0xE2, CHR 0x80, z]" "z = CHR 0xA8 \<or> z = CHR 0xA9" for z
    proof -
      have "s = [CHR 0xE2, CHR 0x80, z] @ drop 3 s"
        using append_take_drop_id [of 3 s, unfolded that(1)] by (rule sym)
      then obtain t where "s = [CHR 0xE2, CHR 0x80, z] @ t"
        by blast
      then have "code_at s 0 = 226" "code_at s 1 = 128" "code_at s 2 = code z"
        by (simp_all add: code_at_def numeral_2_eq_2)
      then show ?thesis
        using that(2) by (auto simp: rune_size_3 tail_byte_def)
    qed
    consider (one) "rune_size s = 1"
      | (ls) "rune_size s \<noteq> 1" "take 3 s = [CHR 0xE2, CHR 0x80, CHR 0xA8]"
      | (ps) "rune_size s \<noteq> 1" "take 3 s = [CHR 0xE2, CHR 0x80, CHR 0xA9]"
      | (rune) "rune_size s \<noteq> 1" "take 3 s \<noteq> [CHR 0xE2, CHR 0x80, CHR 0xA8]"
          "take 3 s \<noteq> [CHR 0xE2, CHR 0x80, CHR 0xA9]"
      by blast
    then show ?thesis
    proof cases
      case one
      then have "unquote (quote (tl s) @ CHR 0x22 # r) = Some (tl s, r)"
        using "1.IH"(2) False rest by (simp add: drop_Suc)
      then show ?thesis
        using one rune_size_one [OF one] False by (simp add: quote.simps [of s] unquote_escape)
    next
      case ls
      then show ?thesis
        using "1.IH"(3) False rest three [OF ls(2)] unquote_line_separators(1)
          append_take_drop_id [of 3 s, unfolded ls(2)]
        by (simp add: quote.simps [of s])
    next
      case ps
      then show ?thesis
        using "1.IH"(4) False rest three [OF ps(2)] unquote_line_separators(2)
          append_take_drop_id [of 3 s, unfolded ps(2)]
        by (simp add: quote.simps [of s])
    next
      case rune
      then show ?thesis
        using "1.IH"(5) False rest unquote_rune [of s "rune_size s"]
        by (simp add: quote.simps [of s])
    qed
  qed
qed

section \<open>Numbers\<close>

definition is_digit :: "char \<Rightarrow> bool" where
  "is_digit c \<longleftrightarrow> 48 \<le> code c \<and> code c \<le> 57"

fun show_nat :: "nat \<Rightarrow> string" where
  "show_nat n = (if n < 10 then [char_of (48 + n)] else show_nat (n div 10) @ [char_of (48 + n mod 10)])"

declare show_nat.simps [simp del]

definition show_int :: "int \<Rightarrow> string" where
  "show_int n = (if n < 0 then CHR ''-'' # show_nat (nat (- n)) else show_nat (nat n))"

definition dec_value :: "string \<Rightarrow> nat" where
  "dec_value s = foldl (\<lambda>acc c. 10 * acc + (code c - 48)) 0 s"

definition signed :: "string \<Rightarrow> bool \<times> string" where
  "signed s = (case s of c # r \<Rightarrow> if c = CHR ''-'' then (True, r) else (False, s) | [] \<Rightarrow> (False, s))"

definition int_of :: "bool \<Rightarrow> nat \<Rightarrow> int" where
  "int_of neg n = (if neg then - int n else int n)"

text \<open>The digits after the point: \<open>None\<close> for a point without digits.\<close>

definition p_fraction :: "string \<Rightarrow> (string \<times> string) option" where
  "p_fraction s =
     (case s of
        c # r \<Rightarrow>
          if c = CHR ''.'' then
            (if takeWhile is_digit r = [] then None else Some (takeWhile is_digit r, dropWhile is_digit r))
          else Some ([], s)
      | [] \<Rightarrow> Some ([], s))"

definition p_exponent :: "string \<Rightarrow> (int option \<times> string) option" where
  "p_exponent s =
     (case s of
        c # r \<Rightarrow>
          if c = CHR ''e'' \<or> c = CHR ''E'' then
            (let (neg, t) = (case r of d # t' \<Rightarrow> if d = CHR ''+'' then (False, t') else signed r | [] \<Rightarrow> (False, r));
                 ds = takeWhile is_digit t in
             if ds = [] then None else Some (Some (int_of neg (dec_value ds)), dropWhile is_digit t))
          else Some (None, s)
      | [] \<Rightarrow> Some (None, s))"

definition p_number :: "string \<Rightarrow> (json \<times> string) option" where
  "p_number s =
     (let (neg, s1) = signed s;
          ds = takeWhile is_digit s1 in
      if ds = [] \<or> (hd ds = CHR ''0'' \<and> length ds > 1) then None
      else
        (case p_fraction (dropWhile is_digit s1) of
           None \<Rightarrow> None
         | Some (fs, s2) \<Rightarrow>
             (case p_exponent s2 of
                None \<Rightarrow> None
              | Some (ex, s3) \<Rightarrow>
                  Some (if fs = [] \<and> ex = None then JInt (int_of neg (dec_value ds))
                        else JFloat (int_of neg (dec_value (ds @ fs)))
                               ((case ex of None \<Rightarrow> 0 | Some e \<Rightarrow> e) - int (length fs)), s3))))"

lemma code_digit: "d < 10 \<Longrightarrow> code (char_of (48 + d)) = 48 + d"
  by simp

lemma show_nat_digits: "list_all is_digit (show_nat n) \<and> show_nat n \<noteq> []"
proof (induction n rule: show_nat.induct)
  case (1 n)
  then show ?case
    by (subst (1 2) show_nat.simps) (auto simp: is_digit_def list_all_iff)
qed

lemma show_nat_value: "dec_value (show_nat n) = n"
proof (induction n rule: show_nat.induct)
  case (1 n)
  then show ?case
    by (subst show_nat.simps) (auto simp: dec_value_def)
qed

lemma show_nat_head: "hd (show_nat n) = CHR ''0'' \<Longrightarrow> length (show_nat n) = 1"
proof (induction n rule: show_nat.induct)
  case (1 n)
  show ?case
  proof (cases "n < 10")
    case False
    then have "hd (show_nat (n div 10)) = CHR ''0''"
      using "1.prems" show_nat_digits by (simp add: show_nat.simps [of n])
    then have one: "length (show_nat (n div 10)) = 1"
      using "1.IH" False by simp
    then have "n div 10 < 10"
      using show_nat_digits [of "n div 10 div 10"] by (auto simp: show_nat.simps [of "n div 10"] split: if_splits)
    then have "code (hd (show_nat (n div 10))) = 48 + n div 10"
      by (simp add: show_nat.simps [of "n div 10"])
    then show ?thesis
      using False \<open>hd (show_nat (n div 10)) = CHR ''0''\<close> by auto
  qed (simp add: show_nat.simps)
qed

definition ends :: "string \<Rightarrow> bool" where
  "ends r \<longleftrightarrow> r = [] \<or> hd r \<in> {CHR '','', CHR '']'', CHR ''}''}"

lemma span_digits:
  assumes "r = [] \<or> \<not> is_digit (hd r)"
  shows "takeWhile is_digit (show_nat n @ r) = show_nat n" "dropWhile is_digit (show_nat n @ r) = r"
proof -
  have all: "\<forall>c \<in> set (show_nat n). is_digit c"
    using show_nat_digits [of n] by (simp add: list_all_iff)
  moreover have "takeWhile is_digit r = []" "dropWhile is_digit r = r"
    using assms by (cases r; simp)+
  ultimately show "takeWhile is_digit (show_nat n @ r) = show_nat n" "dropWhile is_digit (show_nat n @ r) = r"
    by simp_all
qed

lemma signed_show_nat: "signed (show_nat n @ r) = (False, show_nat n @ r)"
proof -
  have "is_digit (hd (show_nat n))" "show_nat n \<noteq> []"
    using show_nat_digits [of n] by (cases "show_nat n"; auto)+
  then show ?thesis
    by (cases "show_nat n") (auto simp: signed_def is_digit_def)
qed

lemma signed_show_int: "signed (show_int n @ r) = (n < 0, show_nat (nat \<bar>n\<bar>) @ r)"
  using signed_show_nat by (auto simp: show_int_def signed_def abs_if)

lemma int_of_abs: "int_of (n < 0) (nat \<bar>n\<bar>) = n"
  by (auto simp: int_of_def)

lemma ends_not_digit: "ends r \<Longrightarrow> r = [] \<or> \<not> is_digit (hd r)"
  by (auto simp: ends_def is_digit_def)

lemma p_number_head: "\<not> (hd (show_nat n) = CHR ''0'' \<and> length (show_nat n) > 1)"
  using show_nat_head by force

lemma p_number_int:
  assumes "ends r"
  shows "p_number (show_int n @ r) = Some (JInt n, r)"
proof -
  have "p_fraction r = Some ([], r)" "p_exponent r = Some (None, r)"
    using assms by (auto simp: p_fraction_def p_exponent_def ends_def split: list.splits)
  then show ?thesis
    using span_digits [OF ends_not_digit [OF assms]] show_nat_digits [of "nat \<bar>n\<bar>"]
      p_number_head [of "nat \<bar>n\<bar>"]
    by (simp add: p_number_def signed_show_int show_nat_value int_of_abs Let_def)
qed

lemma p_exponent_int:
  assumes "ends r"
  shows "p_exponent (CHR ''e'' # show_int e @ r) = Some (Some e, r)"
proof -
  obtain d t where dt: "show_int e @ r = d # t" "d \<noteq> CHR ''+''"
    using show_nat_digits [of "nat \<bar>e\<bar>"]
    by (cases "show_nat (nat \<bar>e\<bar>)"; cases "e < 0") (force simp: show_int_def is_digit_def)+
  moreover have "signed (d # t) = (e < 0, show_nat (nat \<bar>e\<bar>) @ r)"
    using signed_show_int [of e r] dt by simp
  ultimately show ?thesis
    using span_digits [OF ends_not_digit [OF assms]] show_nat_digits [of "nat \<bar>e\<bar>"]
    by (simp add: p_exponent_def Let_def show_nat_value int_of_abs)
qed

lemma p_number_float:
  assumes "ends r"
  shows "p_number (show_int m @ [CHR ''e''] @ show_int e @ r) = Some (JFloat m e, r)"
proof -
  have "p_fraction (CHR ''e'' # x) = Some ([], CHR ''e'' # x)" for x
    by (simp add: p_fraction_def)
  moreover have "\<not> is_digit (CHR ''e'')"
    by (simp add: is_digit_def)
  ultimately show ?thesis
    using show_nat_digits [of "nat \<bar>m\<bar>"] p_number_head [of "nat \<bar>m\<bar>"]
      span_digits [of "CHR ''e'' # show_int e @ r"]
    by (simp add: p_number_def signed_show_int show_nat_value int_of_abs Let_def p_exponent_int [OF assms])
qed

section \<open>Values\<close>

fun commas :: "string list \<Rightarrow> string" where
  "commas [] = []"
| "commas [x] = x"
| "commas (x # xs) = x @ [CHR '',''] @ commas xs"

definition quoted :: "string \<Rightarrow> string" where
  "quoted s = [CHR 0x22] @ quote s @ [CHR 0x22]"

fun mar :: "json \<Rightarrow> string" where
  "mar JNull = ''null''"
| "mar (JBool b) = (if b then ''true'' else ''false'')"
| "mar (JInt n) = show_int n"
| "mar (JFloat m e) = show_int m @ [CHR ''e''] @ show_int e"
| "mar (JStr s) = quoted s"
| "mar (JArr vs) = [CHR ''[''] @ commas (map mar vs) @ [CHR '']'']"
| "mar (JObj kvs) = [CHR ''{''] @ commas (map (\<lambda>(k, v). quoted k @ [CHR '':''] @ mar v) kvs) @ [CHR ''}'']"

definition is_space :: "char \<Rightarrow> bool" where
  "is_space c \<longleftrightarrow> c = CHR '' '' \<or> c = CHR 0x09 \<or> c = CHR 0x0A \<or> c = CHR 0x0D"

abbreviation skip :: "string \<Rightarrow> string" where
  "skip \<equiv> dropWhile is_space"

definition expect :: "char \<Rightarrow> string \<Rightarrow> string option" where
  "expect c s = (case skip s of [] \<Rightarrow> None | d # r \<Rightarrow> if d = c then Some r else None)"

definition p_literal :: "string \<Rightarrow> (json \<times> string) option" where
  "p_literal s =
     (if take 4 s = ''null'' then Some (JNull, drop 4 s)
      else if take 4 s = ''true'' then Some (JBool True, drop 4 s)
      else if take 5 s = ''false'' then Some (JBool False, drop 5 s)
      else p_number s)"

text \<open>\<open>p_elems\<close> and \<open>p_members\<close> read from the first element on, up to the closing bracket.\<close>

fun p_value :: "nat \<Rightarrow> string \<Rightarrow> (json \<times> string) option"
  and p_elems :: "nat \<Rightarrow> string \<Rightarrow> (json list \<times> string) option"
  and p_members :: "nat \<Rightarrow> string \<Rightarrow> ((string \<times> json) list \<times> string) option" where
  "p_value 0 s = None"
| "p_value (Suc f) s =
     (case skip s of
        [] \<Rightarrow> None
      | c # r \<Rightarrow>
          if c = CHR 0x22 then map_option (\<lambda>(x, t). (JStr x, t)) (unquote r)
          else if c = CHR ''['' then
            (case expect (CHR '']'') r of
               Some t \<Rightarrow> Some (JArr [], t)
             | None \<Rightarrow> map_option (\<lambda>(vs, t). (JArr vs, t)) (p_elems f r))
          else if c = CHR ''{'' then
            (case expect (CHR ''}'') r of
               Some t \<Rightarrow> Some (JObj [], t)
             | None \<Rightarrow> map_option (\<lambda>(kvs, t). (JObj kvs, t)) (p_members f r))
          else p_literal (c # r))"
| "p_elems 0 s = None"
| "p_elems (Suc f) s =
     (case p_value f s of
        None \<Rightarrow> None
      | Some (v, t) \<Rightarrow>
          (case expect (CHR '']'') t of
             Some t' \<Rightarrow> Some ([v], t')
           | None \<Rightarrow>
               (case expect (CHR '','') t of
                  None \<Rightarrow> None
                | Some t' \<Rightarrow> map_option (\<lambda>(vs, t''). (v # vs, t'')) (p_elems f t'))))"
| "p_members 0 s = None"
| "p_members (Suc f) s =
     (case expect (CHR 0x22) s of
        None \<Rightarrow> None
      | Some r \<Rightarrow>
          (case unquote r of
             None \<Rightarrow> None
           | Some (k, t) \<Rightarrow>
               (case expect (CHR '':'') t of
                  None \<Rightarrow> None
                | Some t1 \<Rightarrow>
                    (case p_value f t1 of
                       None \<Rightarrow> None
                     | Some (v, t2) \<Rightarrow>
                         (case expect (CHR ''}'') t2 of
                            Some t3 \<Rightarrow> Some ([(k, v)], t3)
                          | None \<Rightarrow>
                              (case expect (CHR '','') t2 of
                                 None \<Rightarrow> None
                               | Some t3 \<Rightarrow> map_option (\<lambda>(kvs, t'). ((k, v) # kvs, t')) (p_members f t3)))))))"

definition parse :: "string \<Rightarrow> json option" where
  "parse s =
     (case p_value (length s + 1) s of
        None \<Rightarrow> None
      | Some (v, t) \<Rightarrow> if skip t = [] then Some v else None)"

definition Marshal :: "json \<Rightarrow> bytes" where
  "Marshal v = str_bytes (mar v)"

definition unm :: "bytes \<Rightarrow> json option" where
  "unm bs = parse (bytes_str bs)"

text \<open>The values whose strings are valid UTF-8: those that survive the way out and back.\<close>

fun clean :: "json \<Rightarrow> bool" where
  "clean (JStr s) = utf8 s"
| "clean (JArr vs) = list_all clean vs"
| "clean (JObj kvs) = list_all (\<lambda>(k, v). utf8 k \<and> clean v) kvs"
| "clean _ = True"

lemma expect_hit [simp]: "\<not> is_space c \<Longrightarrow> expect c (c # r) = Some r"
  by (simp add: expect_def)

lemma expect_miss [simp]: "\<not> is_space d \<Longrightarrow> d \<noteq> c \<Longrightarrow> expect c (d # r) = None"
  by (simp add: expect_def)

definition starts :: "string \<Rightarrow> bool" where
  "starts s \<longleftrightarrow> s \<noteq> [] \<and> \<not> is_space (hd s) \<and> hd s \<notin> {CHR '']'', CHR ''}'', CHR '',''}"

lemma starts_show_int: "starts (show_int n @ r) \<and> hd (show_int n @ r) \<notin> {CHR 0x22, CHR ''['', CHR ''{'', CHR ''n'', CHR ''t'', CHR ''f''}"
  using show_nat_digits [of "nat n"] show_nat_digits [of "nat (- n)"]
  by (cases "show_nat (nat n)"; cases "n < 0") (auto simp: starts_def is_space_def show_int_def is_digit_def)

lemma starts_mar: "starts (mar v @ r)"
proof (cases v)
  case (JFloat m e)
  then show ?thesis
    using starts_show_int [of m "[CHR ''e''] @ show_int e @ r"] by simp
qed (use starts_show_int in \<open>auto simp: starts_def is_space_def quoted_def\<close>)

lemma starts_expect: "starts s \<Longrightarrow> c \<in> {CHR '']'', CHR ''}'', CHR '',''} \<Longrightarrow> expect c s = None"
  by (cases s) (auto simp: starts_def expect_def)

lemma starts_skip: "starts s \<Longrightarrow> skip s = s"
  by (cases s) (auto simp: starts_def)

lemma mar_nonempty: "0 < length (mar v)"
  using starts_mar [of v "[]"] by (auto simp: starts_def)

lemma p_literal_number:
  assumes "hd s \<notin> {CHR 0x22, CHR ''['', CHR ''{'', CHR ''n'', CHR ''t'', CHR ''f''}" "starts s"
  shows "p_value (Suc f) s = p_number s"
proof -
  obtain c r where "s = c # r"
    using assms(2) by (cases s) (auto simp: starts_def)
  moreover have "\<not> is_space c"
    using assms(2) calculation by (simp add: starts_def)
  moreover have "take 4 s \<noteq> ''null''" "take 4 s \<noteq> ''true''" "take 5 s \<noteq> ''false''"
    using assms(1) calculation(1) by auto
  ultimately show ?thesis
    using assms(1) by (simp add: p_literal_def)
qed

lemma p_value_string:
  "utf8 s \<Longrightarrow> p_value (Suc f) (quoted s @ r) = Some (JStr s, r)"
  by (simp add: quoted_def is_space_def unquote_quote)

lemma ends_close [simp]: "ends (CHR '']'' # r)" "ends (CHR ''}'' # r)" "ends (CHR '','' # r)"
  by (simp_all add: ends_def)

lemma not_space [simp]: "\<not> is_space (CHR '']'')" "\<not> is_space (CHR ''}'')" "\<not> is_space (CHR '','')"
    "\<not> is_space (CHR ''['')" "\<not> is_space (CHR ''{'')" "\<not> is_space (CHR '':'')" "\<not> is_space (CHR 0x22)"
  by (simp_all add: is_space_def)

text \<open>A value reads back, given fuel for its text; so do the lists of elements and members.\<close>

definition reads :: "json \<Rightarrow> bool" where
  "reads v \<longleftrightarrow> (\<forall>f r. length (mar v) < f \<longrightarrow> ends r \<longrightarrow> p_value f (mar v @ r) = Some (v, r))"

lemma reads_elems:
  "\<lbrakk>\<forall>v \<in> set vs. reads v; vs \<noteq> []; length (commas (map mar vs)) + 1 < f\<rbrakk>
   \<Longrightarrow> p_elems f (commas (map mar vs) @ CHR '']'' # r) = Some (vs, r)"
proof (induction vs arbitrary: f)
  case (Cons v vs)
  obtain g where f: "f = Suc g"
    using Cons.prems by (cases f) auto
  show ?case
  proof (cases "vs = []")
    case True
    then show ?thesis
      using Cons.prems f by (simp add: reads_def)
  next
    case False
    then have c: "commas (map mar (v # vs)) = mar v @ [CHR '',''] @ commas (map mar vs)"
      by (cases vs) auto
    then have "p_value g (mar v @ CHR '','' # commas (map mar vs) @ CHR '']'' # r)
        = Some (v, CHR '','' # commas (map mar vs) @ CHR '']'' # r)"
      using Cons.prems f by (simp add: reads_def)
    then show ?thesis
      using Cons.IH [of g] Cons.prems False f c by simp
  qed
qed simp

abbreviation member :: "string \<times> json \<Rightarrow> string" where
  "member kv \<equiv> (case kv of (k, v) \<Rightarrow> quoted k @ [CHR '':''] @ mar v)"

lemma reads_members:
  "\<lbrakk>\<forall>(k, v) \<in> set kvs. utf8 k \<and> reads v; kvs \<noteq> []; length (commas (map member kvs)) + 1 < f\<rbrakk>
   \<Longrightarrow> p_members f (commas (map member kvs) @ CHR ''}'' # r) = Some (kvs, r)"
proof (induction kvs arbitrary: f)
  case (Cons kv kvs)
  obtain k v where kv: "kv = (k, v)"
    by (cases kv)
  obtain g where f: "f = Suc g"
    using Cons.prems by (cases f) auto
  have uq: "unquote (quote k @ CHR 0x22 # x) = Some (k, x)" for x
    using Cons.prems kv by (simp add: unquote_quote)
  show ?case
  proof (cases "kvs = []")
    case True
    then show ?thesis
      using Cons.prems f kv by (simp add: reads_def uq quoted_def)
  next
    case False
    then have c: "commas (map member (kv # kvs)) = quoted k @ [CHR '':''] @ mar v @ [CHR '',''] @ commas (map member kvs)"
      using kv by (cases kvs) auto
    then have "p_value g (mar v @ CHR '','' # commas (map member kvs) @ CHR ''}'' # r)
        = Some (v, CHR '','' # commas (map member kvs) @ CHR ''}'' # r)"
      using Cons.prems f kv by (simp add: reads_def)
    then show ?thesis
      using Cons.IH [of g] Cons.prems False f c kv by (simp add: uq quoted_def)
  qed
qed simp

lemma starts_commas:
  assumes "xs \<noteq> []" "\<forall>x \<in> set xs. \<forall>r. starts (x @ r)"
  shows "starts (commas xs @ r)"
  using assms by (cases xs rule: commas.cases) auto

lemma starts_member: "starts (member kv @ r)"
  by (cases kv) (simp add: starts_def quoted_def)

lemma clean_reads: "clean v \<Longrightarrow> reads v"
proof (induction v)
  case (JInt n)
  show ?case
    unfolding reads_def
  proof (intro allI impI)
    fix f r
    assume "length (mar (JInt n)) < f" "ends r"
    then show "p_value f (mar (JInt n) @ r) = Some (JInt n, r)"
      using starts_show_int [of n r] by (cases f) (auto simp: p_literal_number p_number_int simp del: p_value.simps)
  qed
next
  case (JFloat m e)
  show ?case
    unfolding reads_def
  proof (intro allI impI)
    fix f r
    assume "length (mar (JFloat m e)) < f" "ends r"
    then show "p_value f (mar (JFloat m e) @ r) = Some (JFloat m e, r)"
      using starts_show_int [of m "[CHR ''e''] @ show_int e @ r"] p_number_float [of r m e]
      by (cases f) (auto simp: p_literal_number simp del: p_value.simps)
  qed
next
  case (JStr s)
  then show ?case
    by (auto simp: reads_def p_value_string gr0_conv_Suc dest!: less_imp_Suc_add simp del: p_value.simps)
next
  case (JArr vs)
  then have all: "\<forall>v \<in> set vs. reads v"
    by (simp add: list_all_iff)
  show ?case
    unfolding reads_def
  proof (intro allI impI)
    fix f r
    assume "length (mar (JArr vs)) < f" "ends r"
    then obtain g where "f = Suc g" "length (commas (map mar vs)) + 1 < g"
      by (cases f) auto
    moreover have "vs \<noteq> [] \<Longrightarrow> expect (CHR '']'') (commas (map mar vs) @ CHR '']'' # r) = None"
      using starts_mar by (intro starts_expect starts_commas) auto
    ultimately show "p_value f (mar (JArr vs) @ r) = Some (JArr vs, r)"
      using reads_elems [OF all, of g r] by (cases "vs = []") auto
  qed
next
  case (JObj kvs)
  then have all: "\<forall>(k, v) \<in> set kvs. utf8 k \<and> reads v"
    by (fastforce simp: list_all_iff)
  show ?case
    unfolding reads_def
  proof (intro allI impI)
    fix f r
    assume "length (mar (JObj kvs)) < f" "ends r"
    then obtain g where "f = Suc g" "length (commas (map member kvs)) + 1 < g"
      by (cases f) auto
    moreover have "kvs \<noteq> [] \<Longrightarrow> expect (CHR ''}'') (commas (map member kvs) @ CHR ''}'' # r) = None"
      using starts_member by (intro starts_expect starts_commas) auto
    ultimately show "p_value f (mar (JObj kvs) @ r) = Some (JObj kvs, r)"
      using reads_members [OF all, of g r] by (cases "kvs = []") auto
  qed
qed (auto simp: reads_def is_space_def p_literal_def gr0_conv_Suc dest!: less_imp_Suc_add)

theorem parse_mar:
  assumes "clean v"
  shows "parse (mar v) = Some v"
proof -
  have "p_value (length (mar v) + 1) (mar v @ []) = Some (v, [])"
    using clean_reads [OF assms] unfolding reads_def
    by (elim allE [where x = "length (mar v) + 1"] allE [where x = "[]"]) (simp add: ends_def del: p_value.simps)
  then show ?thesis
    by (simp add: parse_def del: p_value.simps)
qed

theorem unm_Marshal: "clean v \<Longrightarrow> unm (Marshal v) = Some v"
  by (simp add: unm_def Marshal_def parse_mar)

section \<open>Decoded strings are valid UTF-8\<close>

lemma utf8_single: "rune_size s = length s \<Longrightarrow> utf8 s"
  by (subst utf8.simps) (simp add: utf8.simps)

lemma code_small: "a < 256 \<Longrightarrow> code (char_of a) = a"
  by simp

lemma utf8_encode_rune: "utf8 (encode_rune n)"
proof -
  consider (one) "n < 128" | (two) "128 \<le> n" "n < 2048" | (surrogate) "55296 \<le> n" "n < 57344"
    | (three) "2048 \<le> n" "n < 65536" "n < 55296 \<or> 57344 \<le> n"
    | (four) "65536 \<le> n" "n < 1114112" | (large) "1114112 \<le> n"
    by linarith
  then show ?thesis
  proof cases
    case one
    then show ?thesis
      by (simp add: encode_rune_def utf8_ascii)
  next
    case two
    let ?a = "192 + n div 64" and ?b = "128 + n mod 64"
    have "194 \<le> ?a" "?a \<le> 223" "tail_byte ?b"
      using two by (auto simp: tail_byte_def)
    then have "rune_size [char_of ?a, char_of ?b] = 2"
      by (simp add: rune_size_2 code_at_def code_small tail_byte_def del: of_char_of)
    then show ?thesis
      using two by (simp add: encode_rune_def utf8_single)
  next
    case three
    let ?a = "224 + n div 4096" and ?b = "128 + n div 64 mod 64" and ?c = "128 + n mod 64"
    have "224 \<le> ?a" "?a \<le> 239" "tail_byte ?b" "tail_byte ?c"
      using three by (auto simp: tail_byte_def)
    moreover have "?a = 224 \<longrightarrow> 160 \<le> ?b" "?a = 237 \<longrightarrow> ?b \<le> 159"
      using three minus_mult_div_eq_mod [of "n div 64" 64] by (simp_all add: div_mult2_eq [symmetric]) linarith+
    ultimately have "rune_size [char_of ?a, char_of ?b, char_of ?c] = 3"
      by (simp add: rune_size_3 code_at_def code_small tail_byte_def numeral_2_eq_2 del: of_char_of)
    then show ?thesis
      using three by (auto simp add: encode_rune_def utf8_single utf8_error)
  next
    case four
    let ?a = "240 + n div 262144" and ?b = "128 + n div 4096 mod 64"
      and ?c = "128 + n div 64 mod 64" and ?d = "128 + n mod 64"
    have "240 \<le> ?a" "?a \<le> 244" "tail_byte ?b" "tail_byte ?c" "tail_byte ?d"
      using four by (auto simp: tail_byte_def)
    moreover have "?a = 240 \<longrightarrow> 144 \<le> ?b" "?a = 244 \<longrightarrow> ?b \<le> 143"
      using four minus_mult_div_eq_mod [of "n div 4096" 64] by (simp_all add: div_mult2_eq [symmetric]) linarith+
    ultimately have "rune_size [char_of ?a, char_of ?b, char_of ?c, char_of ?d] = 4"
      by (simp add: rune_size_4 code_at_def code_small tail_byte_def numeral_2_eq_2 numeral_3_eq_3 del: of_char_of)
    then show ?thesis
      using four by (simp add: encode_rune_def utf8_single)
  qed (auto simp: encode_rune_def utf8_error)
qed

lemma unescape_utf8: "unescape s = Some (x, t) \<Longrightarrow> utf8 x"
  by (auto simp: unescape_def utf8_encode_rune utf8_error utf8_ascii
      split: list.splits if_splits option.splits)

lemma unquote_utf8: "unquote s = Some (x, t) \<Longrightarrow> utf8 x"
proof (induction s arbitrary: x t rule: unquote.induct)
  case (1 s)
  show ?case
  proof (cases s)
    case Nil
    then show ?thesis
      using "1.prems" by (simp add: unquote.simps)
  next
    case (Cons c r)
    consider (close) "c = CHR 0x22" | (esc) "c = CHR 0x5C"
      | (other) "c \<noteq> CHR 0x22" "c \<noteq> CHR 0x5C"
      by blast
    then show ?thesis
    proof cases
      case close
      then show ?thesis
        using "1.prems" Cons by (simp add: unquote.simps utf8.simps [of "[]"])
    next
      case esc
      then obtain y u z where "unescape r = Some (y, u)" "unquote u = Some (z, t)" "x = y @ z"
        using "1.prems" Cons by (subst (asm) unquote.simps) (auto simp: glue_def split: option.splits)
      then show ?thesis
        using "1.IH"(1) Cons esc by (auto intro!: utf8_append dest: unescape_utf8)
    next
      case other
      then have c: "\<not> code c < 32"
        using "1.prems" Cons by (subst (asm) unquote.simps) (auto split: if_splits)
      show ?thesis
      proof (cases "rune_size s = 0")
        case True
        then obtain z where "unquote r = Some (z, t)" "x = rune_error @ z"
          using "1.prems" Cons other c by (subst (asm) unquote.simps) (auto simp: glue_def split: option.splits)
        then show ?thesis
          using "1.IH"(2) Cons other c True by (auto intro!: utf8_append utf8_error)
      next
        case False
        then obtain z where "unquote (drop (rune_size s) s) = Some (z, t)" "x = take (rune_size s) s @ z"
          using "1.prems" Cons other c by (subst (asm) unquote.simps) (auto simp: glue_def split: option.splits)
        then show ?thesis
          using "1.IH"(3) Cons other c False by (auto intro!: utf8_rune)
      qed
    qed
  qed
qed

lemma p_number_clean: "p_number s = Some (v, t) \<Longrightarrow> clean v"
  by (auto simp: p_number_def Let_def split: prod.splits if_splits option.splits)

lemma p_literal_clean: "p_literal s = Some (v, t) \<Longrightarrow> clean v"
  by (auto simp: p_literal_def p_number_clean split: if_splits)

text \<open>Whatever the parser returns has valid strings only.\<close>

lemma p_clean:
  "(\<forall>s v t. p_value f s = Some (v, t) \<longrightarrow> clean v) \<and>
   (\<forall>s vs t. p_elems f s = Some (vs, t) \<longrightarrow> list_all clean vs) \<and>
   (\<forall>s kvs t. p_members f s = Some (kvs, t) \<longrightarrow> list_all (\<lambda>(k, v). utf8 k \<and> clean v) kvs)"
proof (induction f)
  case (Suc f)
  then show ?case
    by (auto split: list.splits if_splits option.splits dest!: unquote_utf8 p_literal_clean)
      (blast dest: unquote_utf8)+
qed simp

lemma unm_clean: "unm data = Some v \<Longrightarrow> clean v"
  using p_clean [THEN conjunct1] unfolding unm_def parse_def
  by (auto split: option.splits if_splits simp del: p_value.simps) blast
end
