(* ===== verification/RoomMessages.thy ===== *)
theory RoomMessages
  imports JsonText
begin

text \<open>
  The messages of a room (\<open>Requests.go\<close>, \<open>Responses.go\<close>, \<open>Actions.go\<close> and \<open>RoomRuntimeInfo\<close> of
  \<open>Utils.go\<close> under \<open>src/src/server/pkg/Room\<close>): one record per request with the fields a decoder
  fills, one function per response and action that gives the object \<open>json.Marshal\<close> writes.
  The tags written \<open>json: "name"\<close> (with a space) are not tags for Go: those fields go by their Go
  names, which decoding matches without regard to case and encoding writes as they are.
\<close>

section \<open>Decoding a request\<close>

text \<open>
  \<open>json.Unmarshal(data, &req)\<close> with a pointer \<open>req\<close>: the filled struct, \<open>None\<close> when \<open>null\<close> made the
  pointer nil, and the error.
\<close>

definition Unmarshal :: "(string \<times> 'r setter) list \<Rightarrow> 'r \<Rightarrow> bytes \<Rightarrow> 'r option \<times> string option" where
  "Unmarshal fields zero data =
     (case unm data of
        None \<Rightarrow> (Some zero, Some ''invalid JSON'')
      | Some JNull \<Rightarrow> (None, None)
      | Some v \<Rightarrow>
          (case decode_struct fields v zero of
             (r, e) \<Rightarrow> (Some r, if e then Some ''cannot unmarshal value'' else None)))"

definition nil_dereference :: panic where
  "nil_dereference = PanicError ''invalid memory address or nil pointer dereference''"

text \<open>The handlers ignore the error and then read fields of \<open>req\<close>.\<close>

definition with_request :: "(string \<times> 'r setter) list \<Rightarrow> 'r \<Rightarrow> bytes \<Rightarrow> ('r \<Rightarrow> 'w \<Rightarrow> 'w exec) \<Rightarrow> 'w \<Rightarrow> 'w exec" where
  "with_request fields zero data k w =
     (case fst (Unmarshal fields zero data) of
        None \<Rightarrow> Panics nil_dereference w
      | Some req \<Rightarrow> k req w)"

section \<open>Requests\<close>

record JoinRoomRequest =
  join_request :: string
  join_password :: string
  join_name :: string

definition JoinRoomRequest_zero :: JoinRoomRequest where
  "JoinRoomRequest_zero = \<lparr>join_request = '''', join_password = '''', join_name = ''''\<rparr>"

definition JoinRoomRequest_fields :: "(string \<times> JoinRoomRequest setter) list" where
  "JoinRoomRequest_fields =
     [(''Request'', set_string (\<lambda>s r. r\<lparr>join_request := s\<rparr>)),
      (''Password'', set_string (\<lambda>s r. r\<lparr>join_password := s\<rparr>)),
      (''Name'', set_string (\<lambda>s r. r\<lparr>join_name := s\<rparr>))]"

record HeartbeatRequest =
  heartbeat_request :: string
  heartbeat_timestamp :: int

definition HeartbeatRequest_zero :: HeartbeatRequest where
  "HeartbeatRequest_zero = \<lparr>heartbeat_request = '''', heartbeat_timestamp = 0\<rparr>"

definition HeartbeatRequest_fields :: "(string \<times> HeartbeatRequest setter) list" where
  "HeartbeatRequest_fields =
     [(''Request'', set_string (\<lambda>s r. r\<lparr>heartbeat_request := s\<rparr>)),
      (''Timestamp'', set_int64 (\<lambda>n r. r\<lparr>heartbeat_timestamp := n\<rparr>))]"

record ArchiveSignRequest =
  archivesign_request :: string

definition ArchiveSignRequest_zero :: ArchiveSignRequest where
  "ArchiveSignRequest_zero = \<lparr>archivesign_request = ''''\<rparr>"

definition ArchiveSignRequest_fields :: "(string \<times> ArchiveSignRequest setter) list" where
  "ArchiveSignRequest_fields = [(''Request'', set_string (\<lambda>s r. r\<lparr>archivesign_request := s\<rparr>))]"

record ArchiveRequest =
  archive_request :: string
  archive_start :: int
  archive_datalength :: int

definition ArchiveRequest_zero :: ArchiveRequest where
  "ArchiveRequest_zero = \<lparr>archive_request = '''', archive_start = 0, archive_datalength = 0\<rparr>"

definition ArchiveRequest_fields :: "(string \<times> ArchiveRequest setter) list" where
  "ArchiveRequest_fields =
     [(''Request'', set_string (\<lambda>s r. r\<lparr>archive_request := s\<rparr>)),
      (''start'', set_int64 (\<lambda>n r. r\<lparr>archive_start := n\<rparr>)),
      (''datalength'', set_int64 (\<lambda>n r. r\<lparr>archive_datalength := n\<rparr>))]"

text \<open>\<open>ClearAllRequest\<close>, \<open>CloseRequest\<close> and \<open>CheckoutRequest\<close> have the same two fields.\<close>

record KeyRequest =
  key_request :: string
  key_key :: string

definition KeyRequest_zero :: KeyRequest where
  "KeyRequest_zero = \<lparr>key_request = '''', key_key = ''''\<rparr>"

definition ClearAllRequest_fields :: "(string \<times> KeyRequest setter) list" where
  "ClearAllRequest_fields =
     [(''Request'', set_string (\<lambda>s r. r\<lparr>key_request := s\<rparr>)),
      (''key'', set_string (\<lambda>s r. r\<lparr>key_key := s\<rparr>))]"

definition CloseRequest_fields :: "(string \<times> KeyRequest setter) list" where
  "CloseRequest_fields =
     [(''Request'', set_string (\<lambda>s r. r\<lparr>key_request := s\<rparr>)),
      (''Key'', set_string (\<lambda>s r. r\<lparr>key_key := s\<rparr>))]"

definition CheckoutRequest_fields :: "(string \<times> KeyRequest setter) list" where
  "CheckoutRequest_fields =
     [(''Request'', set_string (\<lambda>s r. r\<lparr>key_request := s\<rparr>)),
      (''Key'', set_string (\<lambda>s r. r\<lparr>key_key := s\<rparr>))]"

record KickRequest =
  kick_request :: string
  kick_key :: string
  kick_clientId :: string

definition KickRequest_zero :: KickRequest where
  "KickRequest_zero = \<lparr>kick_request = '''', kick_key = '''', kick_clientId = ''''\<rparr>"

definition KickRequest_fields :: "(string \<times> KickRequest setter) list" where
  "KickRequest_fields =
     [(''Request'', set_string (\<lambda>s r. r\<lparr>kick_request := s\<rparr>)),
      (''Key'', set_string (\<lambda>s r. r\<lparr>kick_key := s\<rparr>)),
      (''ClientId'', set_string (\<lambda>s r. r\<lparr>kick_clientId := s\<rparr>))]"

record OnlineListRequest =
  onlinelist_request :: string
  onlinelist_clientId :: string

definition OnlineListRequest_zero :: OnlineListRequest where
  "OnlineListRequest_zero = \<lparr>onlinelist_request = '''', onlinelist_clientId = ''''\<rparr>"

definition OnlineListRequest_fields :: "(string \<times> OnlineListRequest setter) list" where
  "OnlineListRequest_fields =
     [(''Request'', set_string (\<lambda>s r. r\<lparr>onlinelist_request := s\<rparr>)),
      (''ClientId'', set_string (\<lambda>s r. r\<lparr>onlinelist_clientId := s\<rparr>))]"

section \<open>Responses\<close>

definition SizeInfo :: "int \<Rightarrow> int \<Rightarrow> json" where
  "SizeInfo width height = JObj [(''width'', JInt width), (''height'', JInt height)]"

definition JoinRoomInfo :: "string \<Rightarrow> int \<Rightarrow> json \<Rightarrow> string \<Rightarrow> json" where
  "JoinRoomInfo name historysize sz clientid =
     JObj [(''name'', JStr name), (''historysize'', JInt historysize), (''size'', sz),
           (''clientid'', JStr clientid)]"

definition JoinRoomResponse :: "bool \<Rightarrow> json \<Rightarrow> int \<Rightarrow> json" where
  "JoinRoomResponse result info errcode =
     JObj [(''response'', JStr ''login''), (''result'', JBool result), (''info'', info),
           (''errcode'', JInt errcode)]"

definition HeartbeatResponse :: "int \<Rightarrow> json" where
  "HeartbeatResponse timestamp =
     JObj [(''response'', JStr ''heartbeat''), (''timestamp'', JInt timestamp)]"

definition ArchiveSignResponse :: "bool \<Rightarrow> string \<Rightarrow> int \<Rightarrow> json" where
  "ArchiveSignResponse result sign errcode =
     JObj [(''response'', JStr ''archivesign''), (''result'', JBool result), (''signature'', JStr sign),
           (''errcode'', JInt errcode)]"

definition ArchiveResponse :: "bool \<Rightarrow> string \<Rightarrow> int \<Rightarrow> int \<Rightarrow> json" where
  "ArchiveResponse result sign datalength errcode =
     JObj [(''response'', JStr ''archive''), (''result'', JBool result), (''signature'', JStr sign),
           (''datalength'', JInt datalength), (''errcode'', JInt errcode)]"

definition ClearAllResponse :: "bool \<Rightarrow> json" where
  "ClearAllResponse result = JObj [(''response'', JStr ''clearall''), (''result'', JBool result)]"

definition KickResponse :: "bool \<Rightarrow> json" where
  "KickResponse result = JObj [(''response'', JStr ''kick''), (''result'', JBool result)]"

definition CloseResponse :: "bool \<Rightarrow> json" where
  "CloseResponse result = JObj [(''response'', JStr ''close''), (''result'', JBool result)]"

definition CheckoutResponse :: "bool \<Rightarrow> int \<Rightarrow> int \<Rightarrow> json" where
  "CheckoutResponse result cycle errcode =
     JObj [(''response'', JStr ''checkout''), (''result'', JBool result), (''cycle'', JInt cycle),
           (''errcode'', JInt errcode)]"

text \<open>An \<open>OnlineListItem\<close> is the pair of name and client id; a nil slice is written as \<open>null\<close>.\<close>

definition OnlineListItem :: "string \<times> string \<Rightarrow> json" where
  "OnlineListItem item = JObj [(''name'', JStr (fst item)), (''clientid'', JStr (snd item))]"

definition OnlineListResponse :: "bool \<Rightarrow> (string \<times> string) list \<Rightarrow> json" where
  "OnlineListResponse result items =
     JObj [(''response'', JStr ''onlinelist''), (''result'', JBool result),
           (''onlinelist'', if items = [] then JNull else JArr (map OnlineListItem items))]"

section \<open>Actions\<close>

definition ClearAllAction :: "string \<Rightarrow> json" where
  "ClearAllAction sign = JObj [(''action'', JStr ''clearall''), (''signature'', JStr sign)]"

definition CloseAction :: "int \<Rightarrow> json" where
  "CloseAction reason = JObj [(''action'', JStr ''close''), (''info'', JObj [(''reason'', JInt reason)])]"

definition KickAction :: json where
  "KickAction = JObj [(''action'', JStr ''kick'')]"

definition NotifyAction :: "string \<Rightarrow> json" where
  "NotifyAction content = JObj [(''action'', JStr ''notify''), (''content'', JStr content)]"

definition WelcomeMsgType :: "string \<Rightarrow> json" where
  "WelcomeMsgType content = JObj [(''content'', JStr content)]"

section \<open>The room record of the database\<close>

record RoomOption =
  MaxLoad :: int
  Width :: int
  Height :: int
  Password :: string
  WelcomeMsg :: string
  Name :: string
  EmptyClose :: bool

definition RoomOption_zero :: RoomOption where
  "RoomOption_zero = \<lparr>MaxLoad = 0, Width = 0, Height = 0, Password = '''', WelcomeMsg = '''',
     Name = '''', EmptyClose = False\<rparr>"

definition RoomOption_fields :: "(string \<times> RoomOption setter) list" where
  "RoomOption_fields =
     [(''MaxLoad'', set_int64 (\<lambda>n r. r\<lparr>MaxLoad := n\<rparr>)),
      (''Width'', set_int64 (\<lambda>n r. r\<lparr>Width := n\<rparr>)),
      (''Height'', set_int64 (\<lambda>n r. r\<lparr>Height := n\<rparr>)),
      (''Password'', set_string (\<lambda>s r. r\<lparr>Password := s\<rparr>)),
      (''WelcomeMsg'', set_string (\<lambda>s r. r\<lparr>WelcomeMsg := s\<rparr>)),
      (''Name'', set_string (\<lambda>s r. r\<lparr>Name := s\<rparr>)),
      (''EmptyClose'', set_bool (\<lambda>b r. r\<lparr>EmptyClose := b\<rparr>))]"

definition RoomOption_json :: "RoomOption \<Rightarrow> json" where
  "RoomOption_json opt =
     JObj [(''MaxLoad'', JInt (MaxLoad opt)), (''Width'', JInt (Width opt)), (''Height'', JInt (Height opt)),
           (''Password'', JStr (Password opt)), (''WelcomeMsg'', JStr (WelcomeMsg opt)),
           (''Name'', JStr (Name opt)), (''EmptyClose'', JBool (EmptyClose opt))]"

record RoomRuntimeInfo =
  info_Key :: string
  info_ArchiveSign :: string
  info_Port :: int
  info_Expiration :: int
  info_Options :: RoomOption

definition RoomRuntimeInfo_zero :: RoomRuntimeInfo where
  "RoomRuntimeInfo_zero = \<lparr>info_Key = '''', info_ArchiveSign = '''', info_Port = 0, info_Expiration = 0,
     info_Options = RoomOption_zero\<rparr>"

definition RoomRuntimeInfo_fields :: "(string \<times> RoomRuntimeInfo setter) list" where
  "RoomRuntimeInfo_fields =
     [(''Key'', set_string (\<lambda>s r. r\<lparr>info_Key := s\<rparr>)),
      (''ArchiveSign'', set_string (\<lambda>s r. r\<lparr>info_ArchiveSign := s\<rparr>)),
      (''Port'', set_uint16 (\<lambda>n r. r\<lparr>info_Port := n\<rparr>)),
      (''Expiration'', set_int64 (\<lambda>n r. r\<lparr>info_Expiration := n\<rparr>)),
      (''Options'', set_struct RoomOption_fields info_Options (\<lambda>x r. r\<lparr>info_Options := x\<rparr>))]"

definition RoomRuntimeInfo_json :: "RoomRuntimeInfo \<Rightarrow> json" where
  "RoomRuntimeInfo_json i =
     JObj [(''Key'', JStr (info_Key i)), (''ArchiveSign'', JStr (info_ArchiveSign i)),
           (''Port'', JInt (info_Port i)), (''Expiration'', JInt (info_Expiration i)),
           (''Options'', RoomOption_json (info_Options i))]"

definition ToJson :: "RoomRuntimeInfo \<Rightarrow> bytes" where
  "ToJson i = Marshal (RoomRuntimeInfo_json i)"

text \<open>\<open>parseRoomRuntimeInfo\<close> of the room manager: the target is the struct itself, so \<open>null\<close> and
  broken text leave the zero record, and a field of the wrong type keeps its zero value.\<close>

definition parseRoomRuntimeInfo :: "bytes \<Rightarrow> RoomRuntimeInfo" where
  "parseRoomRuntimeInfo data =
     (case unm data of
        None \<Rightarrow> RoomRuntimeInfo_zero
      | Some v \<Rightarrow> fst (decode_struct RoomRuntimeInfo_fields v RoomRuntimeInfo_zero))"

text \<open>The values the fields of the Go structs can hold.\<close>

definition int64 :: "int \<Rightarrow> bool" where
  "int64 n \<longleftrightarrow> - (2 ^ 63) \<le> n \<and> n \<le> 2 ^ 63 - 1"

definition option_ok :: "RoomOption \<Rightarrow> bool" where
  "option_ok opt \<longleftrightarrow> int64 (MaxLoad opt) \<and> int64 (Width opt) \<and> int64 (Height opt) \<and>
     utf8 (Password opt) \<and> utf8 (WelcomeMsg opt) \<and> utf8 (Name opt)"

definition info_ok :: "RoomRuntimeInfo \<Rightarrow> bool" where
  "info_ok i \<longleftrightarrow> utf8 (info_Key i) \<and> utf8 (info_ArchiveSign i) \<and> 0 \<le> info_Port i \<and> info_Port i \<le> 65535 \<and>
     int64 (info_Expiration i) \<and> option_ok (info_Options i)"

text \<open>Field lookup evaluated once for all field names of a record.\<close>

lemma fold_key_names:
  "map fold_key [''MaxLoad'', ''Width'', ''Height'', ''Password'', ''WelcomeMsg'', ''Name'', ''EmptyClose'',
     ''Key'', ''ArchiveSign'', ''Port'', ''Expiration'', ''Options''] =
   [''maxload'', ''width'', ''height'', ''password'', ''welcomemsg'', ''name'', ''emptyclose'',
     ''key'', ''archivesign'', ''port'', ''expiration'', ''options'']"
  by code_simp

lemma RoomOption_decode:
  assumes "option_ok opt"
  shows "decode_struct RoomOption_fields (RoomOption_json opt) r = (opt, False)"
  using assms
  by (simp add: RoomOption_json_def decode_struct_obj RoomOption_fields_def decode_key_def
      field_matches_def fold_key_names [simplified] setters option_ok_def int64_def)

lemma RoomRuntimeInfo_decode:
  assumes "info_ok i"
  shows "decode_struct RoomRuntimeInfo_fields (RoomRuntimeInfo_json i) r = (i, False)"
  using assms
  by (simp add: RoomRuntimeInfo_json_def decode_struct_obj RoomRuntimeInfo_fields_def decode_key_def
      field_matches_def fold_key_names [simplified] setters info_ok_def int64_def
      RoomOption_decode [simplified RoomOption_json_def])
    (simp add: RoomOption_decode)

lemma utf8_names:
  "list_all utf8 [''MaxLoad'', ''Width'', ''Height'', ''Password'', ''WelcomeMsg'', ''Name'', ''EmptyClose'',
     ''Key'', ''ArchiveSign'', ''Port'', ''Expiration'', ''Options'']"
  by (simp add: utf8_ascii)

lemma clean_info: "info_ok i \<Longrightarrow> clean (RoomRuntimeInfo_json i)"
  using utf8_names by (simp add: RoomRuntimeInfo_json_def RoomOption_json_def info_ok_def option_ok_def)

theorem parse_ToJson:
  assumes "info_ok i"
  shows "parseRoomRuntimeInfo (ToJson i) = i"
  using assms by (simp add: parseRoomRuntimeInfo_def ToJson_def unm_Marshal clean_info RoomRuntimeInfo_decode)

end
