(* ===== verification/Router.thy ===== *)
theory Router
  imports JsonText
begin

text \<open>
  \<open>src/src/server/pkg/Router/Router.go\<close>: requests are dispatched on one string member of a JSON
  object.  \<open>readers\<close> counts the read locks on \<open>locker\<close> that are held; a handler that panics leaves
  its lock behind because \<open>RUnlock\<close> is not deferred.  The deferred function of \<open>OnMessage\<close> turns an
  error panic into the returned error, ends quietly on a nil panic, and panics itself on any other
  value (\<open>e.(error)\<close>), which nothing recovers.
\<close>

record 'w Router =
  rkey :: string
  table :: "(string \<times> (bytes \<Rightarrow> nat \<Rightarrow> 'w \<Rightarrow> 'w exec)) list"
  readers :: nat

definition MakeRouter :: "string \<Rightarrow> 'w Router" where
  "MakeRouter key = \<lparr>rkey = key, table = [], readers = 0\<rparr>"

definition Register :: "string \<Rightarrow> (bytes \<Rightarrow> nat \<Rightarrow> 'w \<Rightarrow> 'w exec) \<Rightarrow> 'w Router \<Rightarrow> 'w Router exec" where
  "Register request handler r =
     (if readers r > 0 then Blocks else Done (r\<lparr>table := (request, handler) # table r\<rparr>))"

text \<open>
  \<open>json.Unmarshal(data, &result)\<close> into a map: the object's members in order, or the error; \<open>null\<close>
  leaves the map nil.
\<close>

definition unmarshal_map :: "bytes \<Rightarrow> string + (string \<times> json) list" where
  "unmarshal_map data =
     (case unm data of
        None \<Rightarrow> Inl ''invalid JSON''
      | Some v \<Rightarrow>
          (case v of
             JObj kvs \<Rightarrow> if float_overflow v then Inl ''cannot unmarshal number'' else Inr kvs
           | JNull \<Rightarrow> Inr []
           | _ \<Rightarrow> Inl ''cannot unmarshal value into map''))"

text \<open>\<open>result[r.key].(string)\<close>: of a repeated member the last one is in the map.\<close>

definition request_of :: "string \<Rightarrow> (string \<times> json) list \<Rightarrow> string go" where
  "request_of key kvs =
     (case map_of (rev kvs) key of
        Some (JStr s) \<Rightarrow> Inr s
      | _ \<Rightarrow> Inl (PanicError ''interface conversion: interface {} is not string''))"

text \<open>
  The body of \<open>OnMessage\<close> without its deferred function, on the router and the state \<open>w\<close> the
  handlers work on.
\<close>

definition dispatch :: "'w Router \<Rightarrow> bytes \<Rightarrow> nat \<Rightarrow> 'w \<Rightarrow> ('w Router \<times> 'w \<times> string option) exec" where
  "dispatch r data client w =
     (case unmarshal_map data of
        Inl err \<Rightarrow> Done (r, w, Some err)
      | Inr kvs \<Rightarrow>
          (case request_of (rkey r) kvs of
             Inl p \<Rightarrow> Panics p (r, w, None)
           | Inr request \<Rightarrow>
               (case map_of (table r) request of
                  None \<Rightarrow> Done (r, w, None)
                | Some handler \<Rightarrow>
                    (case handler data client w of
                       Done w' \<Rightarrow> Done (r, w', None)
                     | Panics p w' \<Rightarrow> Panics p (r\<lparr>readers := readers r + 1\<rparr>, w', None)
                     | Blocks \<Rightarrow> Blocks))))"

definition OnMessage :: "'w Router \<Rightarrow> bytes \<Rightarrow> nat \<Rightarrow> 'w \<Rightarrow> ('w Router \<times> 'w \<times> string option) exec" where
  "OnMessage r data client w =
     (case dispatch r data client w of
        Panics (PanicError e) (r', w', _) \<Rightarrow> Done (r', w', Some e)
      | Panics PanicNil (r', w', _) \<Rightarrow> Done (r', w', None)
      | Panics (PanicString s) x \<Rightarrow>
          Panics (PanicError ''interface conversion: interface {} is string, not error'') x
      | Done x \<Rightarrow> Done x
      | Blocks \<Rightarrow> Blocks)"

section \<open>Lemmas\<close>

text \<open>A well-formed request: a JSON object without oversized numbers whose \<open>key\<close> is the string \<open>req\<close>.\<close>

definition carries :: "string \<Rightarrow> bytes \<Rightarrow> string \<Rightarrow> bool" where
  "carries key data req \<longleftrightarrow>
     (case unmarshal_map data of Inl _ \<Rightarrow> False | Inr kvs \<Rightarrow> request_of key kvs = Inr req)"

lemma carries_unique: "carries key data req \<Longrightarrow> carries key data req' \<Longrightarrow> req = req'"
  by (auto simp: carries_def split: sum.splits)

lemma carries_object:
  "carries key data req \<Longrightarrow> \<exists>kvs. unm data = Some (JObj kvs) \<and> \<not> float_overflow (JObj kvs) \<and>
     map_of (rev kvs) key = Some (JStr req)"
  by (auto simp: carries_def unmarshal_map_def request_of_def
      split: sum.splits option.splits json.splits if_splits)

lemma dispatch_carries:
  "carries (rkey r) data req \<Longrightarrow>
   dispatch r data client w =
     (case map_of (table r) req of
        None \<Rightarrow> Done (r, w, None)
      | Some handler \<Rightarrow>
          (case handler data client w of
             Done w' \<Rightarrow> Done (r, w', None)
           | Panics p w' \<Rightarrow> Panics p (r\<lparr>readers := readers r + 1\<rparr>, w', None)
           | Blocks \<Rightarrow> Blocks))"
  by (auto simp: carries_def dispatch_def split: sum.splits)

lemma OnMessage_runs:
  assumes "carries (rkey r) data req" and "map_of (table r) req = Some handler"
    and "handler data client w = Done w'"
  shows "OnMessage r data client w = Done (r, w', None)"
  using assms by (simp add: OnMessage_def dispatch_carries)

text \<open>A message that carries no request never reaches a handler: it is an error or has no effect.\<close>

lemma OnMessage_malformed:
  assumes "\<forall>req. \<not> carries (rkey r) data req"
  shows "\<exists>e. OnMessage r data client w = Done (r, w, Some e)"
  using assms
  by (auto simp: carries_def OnMessage_def dispatch_def request_of_def
      split: sum.splits option.splits json.splits)

lemma OnMessage_unknown:
  assumes "carries (rkey r) data req" and "map_of (table r) req = None"
  shows "OnMessage r data client w = Done (r, w, None)"
  using assms by (simp add: OnMessage_def dispatch_carries)

text \<open>The panic of a handler: the three ways it ends, each with one more read lock held.\<close>

lemma OnMessage_panic:
  assumes "carries (rkey r) data req" and "map_of (table r) req = Some handler"
    and "handler data client w = Panics p w'"
  shows "OnMessage r data client w =
    (let r' = r\<lparr>readers := readers r + 1\<rparr> in
     case p of
       PanicError e \<Rightarrow> Done (r', w', Some e)
     | PanicNil \<Rightarrow> Done (r', w', None)
     | PanicString s \<Rightarrow>
         Panics (PanicError ''interface conversion: interface {} is string, not error'') (r', w', None))"
  using assms by (simp add: OnMessage_def dispatch_carries Let_def split: panic.splits)

text \<open>The table and the key never change after registration.\<close>

lemma OnMessage_keeps:
  "OnMessage r data client w = Done (r', w', err) \<Longrightarrow> table r' = table r \<and> rkey r' = rkey r"
  by (auto simp: OnMessage_def dispatch_def split: exec.splits panic.splits sum.splits option.splits)

lemma Register_lookup:
  "readers r = 0 \<Longrightarrow> \<exists>r'. Register name h r = Done r' \<and> readers r' = 0 \<and> rkey r' = rkey r \<and>
     map_of (table r') = (map_of (table r))(name \<mapsto> h)"
  by (simp add: Register_def)

end
