(* ===== verification/Hashing.thy ===== *)
theory Hashing
  imports Prelude
begin

text \<open>
  The keys and signatures of the server: \<open>vendor/github.com/cespare/xxhash\<close> (XXH64, streaming and
  one-shot), \<open>vendor/github.com/dustin/randbo\<close> (bytes from a random source), hexadecimal text and
  \<open>strconv.FormatUint(_, 32)\<close>, and the generators of \<open>Room/Utils.go\<close> and \<open>Radio/Utils.go\<close> built from
  them.  The clock and the random source are arguments.
\<close>

section \<open>XXH64\<close>

type_synonym u64 = "64 word"

definition prime1 :: u64 where "prime1 = 11400714785074694791"
definition prime2 :: u64 where "prime2 = 14029467366897019727"
definition prime3 :: u64 where "prime3 = 1609587929392839161"
definition prime4 :: u64 where "prime4 = 9650029242287828579"
definition prime5 :: u64 where "prime5 = 2870177450012600261"

lemmas primes = prime1_def prime2_def prime3_def prime4_def prime5_def

text \<open>\<open>rol1\<close> to \<open>rol31\<close> of \<open>rotate19.go\<close>; \<open>rotate.go\<close> writes the same with two shifts.\<close>

definition rol :: "nat \<Rightarrow> u64 \<Rightarrow> u64" where
  "rol k x = word_rotl k x"

definition rol_shifts :: "nat \<Rightarrow> u64 \<Rightarrow> u64" where
  "rol_shifts k x = push_bit k x OR drop_bit (64 - k) x"

definition le_word :: "bytes \<Rightarrow> u64" where
  "le_word bs = foldr (\<lambda>b acc. ucast b OR push_bit 8 acc) bs 0"

definition round :: "u64 \<Rightarrow> u64 \<Rightarrow> u64" where
  "round acc input = rol 31 (acc + input * prime2) * prime1"

definition mergeRound :: "u64 \<Rightarrow> u64 \<Rightarrow> u64" where
  "mergeRound acc val = (acc XOR round 0 val) * prime1 + prime4"

type_synonym lanes = "u64 \<times> u64 \<times> u64 \<times> u64"

definition lanes_init :: lanes where
  "lanes_init = (prime1 + prime2, prime2, 0, - prime1)"

definition block_round :: "lanes \<Rightarrow> bytes \<Rightarrow> lanes" where
  "block_round v b =
     (case v of (v1, v2, v3, v4) \<Rightarrow>
        (round v1 (le_word (slice 0 8 b)), round v2 (le_word (slice 8 8 b)),
         round v3 (le_word (slice 16 8 b)), round v4 (le_word (slice 24 8 b))))"

text \<open>The loop of \<open>writeBlocks\<close> and of \<open>Sum64\<close>: the lanes after all full blocks, and the rest.\<close>

function writeBlocks :: "lanes \<Rightarrow> bytes \<Rightarrow> lanes \<times> bytes" where
  "writeBlocks v b =
     (if length b \<ge> 32 then writeBlocks (block_round v b) (drop 32 b) else (v, b))"
  by pat_completeness auto
termination
  by (relation "measure (\<lambda>(v, b). length b)") auto

declare writeBlocks.simps [simp del]

definition merge_lanes :: "lanes \<Rightarrow> u64" where
  "merge_lanes v =
     (case v of (v1, v2, v3, v4) \<Rightarrow>
        mergeRound (mergeRound (mergeRound (mergeRound
          (rol 1 v1 + rol 7 v2 + rol 12 v3 + rol 18 v4) v1) v2) v3) v4)"

text \<open>The tail of at most 31 bytes: words of eight, at most one of four, then single bytes.\<close>

function tail8 :: "u64 \<Rightarrow> bytes \<Rightarrow> u64 \<times> bytes" where
  "tail8 h b =
     (if 8 \<le> length b
      then tail8 (rol 27 (h XOR round 0 (le_word (take 8 b))) * prime1 + prime4) (drop 8 b)
      else (h, b))"
  by pat_completeness auto
termination
  by (relation "measure (\<lambda>(h, b). length b)") auto

declare tail8.simps [simp del]

definition tail4 :: "u64 \<Rightarrow> bytes \<Rightarrow> u64 \<times> bytes" where
  "tail4 h b =
     (if 4 \<le> length b
      then (rol 23 (h XOR (le_word (take 4 b) * prime1)) * prime2 + prime3, drop 4 b)
      else (h, b))"

fun tail1 :: "u64 \<Rightarrow> bytes \<Rightarrow> u64" where
  "tail1 h [] = h"
| "tail1 h (x # xs) = tail1 (rol 11 (h XOR (ucast x * prime5)) * prime1) xs"

definition avalanche :: "u64 \<Rightarrow> u64" where
  "avalanche h0 =
     (let h1 = (h0 XOR drop_bit 33 h0) * prime2;
          h2 = (h1 XOR drop_bit 29 h1) * prime3
      in h2 XOR drop_bit 32 h2)"

definition finish :: "u64 \<Rightarrow> bytes \<Rightarrow> u64" where
  "finish h tail =
     (case tail8 h tail of (h8, b8) \<Rightarrow> case tail4 h8 b8 of (h4, b4) \<Rightarrow> avalanche (tail1 h4 b4))"

definition Sum64 :: "bytes \<Rightarrow> u64" where
  "Sum64 b =
     (let n = length b;
          (v, rest) = writeBlocks lanes_init b;
          h = (if n \<ge> 32 then merge_lanes v else prime5)
      in finish (h + of_nat n) rest)"

definition Sum64String :: "string \<Rightarrow> u64" where
  "Sum64String s = Sum64 (str_bytes s)"

text \<open>The streaming digest.\<close>

record xxh =
  lanes :: lanes
  total :: nat
  mem :: bytes
  used :: nat

definition xxh_New :: xxh where
  "xxh_New = \<lparr>lanes = lanes_init, total = 0, mem = replicate 32 0, used = 0\<rparr>"

definition xxh_Write :: "xxh \<Rightarrow> bytes \<Rightarrow> xxh" where
  "xxh_Write x b =
     (if used x + length b < 32
      then x\<lparr>total := total x + length b, mem := patch (used x) b (mem x),
             used := used x + length b\<rparr>
      else let (v, b1) =
             (if used x > 0
              then (block_round (lanes x) (patch (used x) (take (32 - used x) b) (mem x)),
                    drop (32 - used x) b)
              else (lanes x, b));
             mem1 = (if used x > 0 then patch (used x) (take (32 - used x) b) (mem x) else mem x);
             (v', b2) = (if length b1 \<ge> 32 then writeBlocks v b1 else (v, b1))
        in x\<lparr>total := total x + length b, lanes := v', mem := patch 0 b2 mem1, used := length b2\<rparr>)"

definition xxh_Sum64 :: "xxh \<Rightarrow> u64" where
  "xxh_Sum64 x =
     (let h = (if total x \<ge> 32 then merge_lanes (lanes x) else fst (snd (snd (lanes x))) + prime5)
      in finish (h + of_nat (total x)) (take (used x) (mem x)))"

section \<open>Streaming computes the one-shot hash\<close>

lemma writeBlocks_short: "length b < 32 \<Longrightarrow> writeBlocks v b = (v, b)"
  by (subst writeBlocks.simps) simp

lemma writeBlocks_rest: "length (snd (writeBlocks v b)) < 32"
proof (induction v b rule: writeBlocks.induct)
  case (1 v b)
  then show ?case by (subst writeBlocks.simps) simp
qed

lemma block_round_prefix: "32 \<le> length b \<Longrightarrow> block_round v (b @ c) = block_round v b"
  by (cases v) (simp add: block_round_def slice_prefix)

lemma writeBlocks_append:
  "writeBlocks v (b @ c) = writeBlocks (fst (writeBlocks v b)) (snd (writeBlocks v b) @ c)"
proof (induction v b rule: writeBlocks.induct)
  case (1 v b)
  show ?case
  proof (cases "32 \<le> length b")
    case True
    then have "writeBlocks v (b @ c) = writeBlocks (block_round v b) (drop 32 b @ c)"
      by (subst writeBlocks.simps) (simp add: block_round_prefix)
    with 1 True show ?thesis by (simp add: writeBlocks.simps [of v b])
  next
    case False
    then show ?thesis by (simp add: writeBlocks_short)
  qed
qed

lemma writeBlocks_block:
  "length b = 32 \<Longrightarrow> writeBlocks v (b @ c) = writeBlocks (block_round v b) c"
  by (simp add: writeBlocks.simps [of v "b @ c"] block_round_prefix)

text \<open>What the digest has absorbed: the lanes over all full blocks, the rest in \<open>mem\<close>.\<close>

definition absorbed :: "xxh \<Rightarrow> bytes \<Rightarrow> bool" where
  "absorbed x d \<longleftrightarrow> total x = length d \<and> length (mem x) = 32 \<and> used x < 32 \<and>
     writeBlocks lanes_init d = (lanes x, take (used x) (mem x))"

lemma absorbed_New: "absorbed xxh_New []"
  by (simp add: absorbed_def xxh_New_def writeBlocks_short)

lemma absorbed_Write_fits:
  assumes "absorbed x d" and "used x + length b < 32"
  shows "absorbed (xxh_Write x b) (d @ b)"
proof -
  have "writeBlocks lanes_init (d @ b) = (lanes x, take (used x) (mem x) @ b)"
    using assms by (simp add: absorbed_def writeBlocks_append [of lanes_init d b] writeBlocks_short)
  with assms show ?thesis
    by (simp add: xxh_Write_def absorbed_def take_patch)
qed

lemma absorbed_Write_full:
  assumes "absorbed x d" and "\<not> used x + length b < 32"
  shows "absorbed (xxh_Write x b) (d @ b)"
proof -
  let ?u = "used x" and ?head = "take (used x) (mem x)"
  have A: "total x = length d" "length (mem x) = 32" "?u < 32"
    and d: "writeBlocks lanes_init d = (lanes x, ?head)"
    using assms(1) by (simp_all add: absorbed_def)
  define v b1 m where "v = (if ?u > 0 then block_round (lanes x) (patch ?u (take (32 - ?u) b) (mem x)) else lanes x)"
    and "b1 = (if ?u > 0 then drop (32 - ?u) b else b)"
    and "m = (if ?u > 0 then patch ?u (take (32 - ?u) b) (mem x) else mem x)"
  have m: "length m = 32"
    using A assms(2) by (simp add: m_def)
  have full: "patch ?u (take (32 - ?u) b) (mem x) = ?head @ take (32 - ?u) b"
    using A assms(2) by (simp add: patch_def)
  have "writeBlocks (lanes x) (?head @ b) = writeBlocks v b1"
  proof (cases "?u > 0")
    case True
    have "length (?head @ take (32 - ?u) b) = 32"
      using A assms(2) by simp
    then show ?thesis
      using True writeBlocks_block [of "?head @ take (32 - ?u) b" "lanes x" "drop (32 - ?u) b"]
      by (simp add: v_def b1_def full)
  qed (simp add: v_def b1_def)
  then have all: "writeBlocks lanes_init (d @ b) = writeBlocks v b1"
    by (simp add: writeBlocks_append [of lanes_init d b] d)
  obtain v' b2 where r: "writeBlocks v b1 = (v', b2)"
    by (cases "writeBlocks v b1") blast
  have "length b2 < 32"
    using writeBlocks_rest [of v b1] r by simp
  moreover have "(if length b1 \<ge> 32 then writeBlocks v b1 else (v, b1)) = (v', b2)"
    using r writeBlocks_short [of b1 v] by (auto simp: not_le)
  moreover have "xxh_Write x b =
    (case (if length b1 \<ge> 32 then writeBlocks v b1 else (v, b1)) of
       (v', b2) \<Rightarrow> x\<lparr>total := total x + length b, lanes := v', mem := patch 0 b2 m, used := length b2\<rparr>)"
    using assms(2) unfolding v_def b1_def m_def
    by (cases "used x > 0") (simp_all only: xxh_Write_def Let_def if_True if_False prod.case)
  ultimately show ?thesis
    using all r m A by (simp add: absorbed_def patch_def)
qed

lemma absorbed_Write: "absorbed x d \<Longrightarrow> absorbed (xxh_Write x b) (d @ b)"
  using absorbed_Write_fits absorbed_Write_full by blast

lemma absorbed_Writes: "absorbed x d \<Longrightarrow> absorbed (foldl xxh_Write x bs) (d @ concat bs)"
  using absorbed_Write by (induction bs arbitrary: x d) fastforce+

lemma xxh_Sum64_absorbed: "absorbed x d \<Longrightarrow> xxh_Sum64 x = Sum64 d"
  by (cases "32 \<le> length d")
     (auto simp: absorbed_def xxh_Sum64_def Sum64_def writeBlocks_short lanes_init_def Let_def
       dest: sym)

section \<open>The two ways to rotate\<close>

lemma rol_shifts_eq: "0 < k \<Longrightarrow> k < 64 \<Longrightarrow> rol_shifts k x = rol k x"
proof (rule bit_word_eqI)
  fix n assume k: "0 < k" "k < 64" and "n < LENGTH(64)"
  then have n: "n < 64" by simp
  show "bit (rol_shifts k x) n \<longleftrightarrow> bit (rol k x) n"
  proof (cases "n < k")
    case True
    with k n have "(n + (64 - k)) mod 64 = 64 - k + n" by simp
    with True k n show ?thesis
      by (simp add: rol_shifts_def rol_def bit_word_rotl_iff bit_simps)
  next
    case False
    with k n have "(n + (64 - k)) mod 64 = n - k"
      by (simp add: mod_if)
    moreover have "\<not> bit x (64 - k + n)"
      using False k by (auto dest: bit_imp_le_length)
    ultimately show ?thesis
      using False k n by (simp add: rol_shifts_def rol_def bit_word_rotl_iff bit_simps)
  qed
qed

section \<open>Text forms\<close>

definition base32_alphabet :: string where
  "base32_alphabet = ''0123456789abcdefghijklmnopqrstuv''"

definition digit32 :: "nat \<Rightarrow> char" where
  "digit32 d = base32_alphabet ! d"

fun FormatUint32 :: "nat \<Rightarrow> string" where
  "FormatUint32 n = (if n < 32 then [digit32 n] else FormatUint32 (n div 32) @ [digit32 (n mod 32)])"

declare FormatUint32.simps [simp del]

definition digit32_value :: "char \<Rightarrow> nat" where
  "digit32_value c = length (takeWhile (\<lambda>x. x \<noteq> c) base32_alphabet)"

definition ParseUint32 :: "string \<Rightarrow> nat" where
  "ParseUint32 s = foldl (\<lambda>acc c. 32 * acc + digit32_value c) 0 s"

lemma digit32_value_digit32: "d < 32 \<Longrightarrow> digit32_value (digit32 d) = d"
proof -
  have "\<forall>d \<in> set [0..<32]. digit32_value (digit32 d) = d"
    by code_simp
  then show "d < 32 \<Longrightarrow> ?thesis" by simp
qed

lemma ParseUint32_FormatUint32: "ParseUint32 (FormatUint32 n) = n"
proof (induction n rule: FormatUint32.induct)
  case (1 n)
  show ?case
  proof (cases "n < 32")
    case True
    then show ?thesis
      by (simp add: FormatUint32.simps [of n] ParseUint32_def digit32_value_digit32)
  next
    case False
    with 1 show ?thesis
      by (simp add: FormatUint32.simps [of n] ParseUint32_def digit32_value_digit32)
  qed
qed

lemma length_FormatUint32: "n < 32 ^ Suc k \<Longrightarrow> length (FormatUint32 n) \<le> Suc k"
proof (induction k arbitrary: n)
  case 0
  then show ?case by (simp add: FormatUint32.simps [of n])
next
  case (Suc k)
  then have "n div 32 < 32 ^ Suc k" by (simp add: div_less_iff_less_mult)
  then show ?case
    using Suc.IH by (auto simp: FormatUint32.simps [of n])
qed

lemma FormatUint32_nonempty: "FormatUint32 n \<noteq> []"
  by (subst FormatUint32.simps) simp

definition hex_digit :: "nat \<Rightarrow> char" where
  "hex_digit d = ''0123456789abcdef'' ! d"

definition EncodeToString :: "bytes \<Rightarrow> string" where
  "EncodeToString bs = concat (map (\<lambda>b. [hex_digit (unat b div 16), hex_digit (unat b mod 16)]) bs)"

section \<open>Random bytes (randbo.go)\<close>

text \<open>The low eight bytes of each \<open>Int63\<close>, least significant first, until the slice is full.\<close>

fun low_bytes :: "nat \<Rightarrow> int \<Rightarrow> bytes" where
  "low_bytes 0 val = []"
| "low_bytes (Suc n) val = word_of_int val # low_bytes n (drop_bit 8 val)"

fun randbo_Read :: "(nat \<Rightarrow> int) \<Rightarrow> nat \<Rightarrow> nat \<Rightarrow> bytes" where
  "randbo_Read Int63 i todo =
     (if todo \<le> 8 then low_bytes todo (Int63 i)
      else low_bytes 8 (Int63 i) @ randbo_Read Int63 (Suc i) (todo - 8))"

declare randbo_Read.simps [simp del]

lemma length_low_bytes [simp]: "length (low_bytes n v) = n"
  by (induction n arbitrary: v) simp_all

lemma length_randbo_Read: "length (randbo_Read Int63 i todo) = todo"
proof (induction Int63 i todo rule: randbo_Read.induct)
  case (1 Int63 i todo)
  then show ?case by (simp add: randbo_Read.simps [of Int63 i todo])
qed

section \<open>Keys, client ids and archive signatures\<close>

definition genSignedKey :: "bytes \<Rightarrow> bytes \<Rightarrow> string" where
  "genSignedKey salt source = FormatUint32 (unat (xxh_Sum64 (xxh_Write xxh_New (source @ salt))))"

text \<open>\<open>timeData\<close> is \<open>time.Now().MarshalBinary()\<close>, \<open>None\<close> when that fails.\<close>

definition genClientId :: "bytes \<Rightarrow> bytes option \<Rightarrow> string \<Rightarrow> string" where
  "genClientId salt timeData name =
     (let source = (case timeData of None \<Rightarrow> str_bytes ''asdasdasdfuweyfiaiuehmoixzwe'' | Some t \<Rightarrow> t)
                   @ str_bytes name @ salt
      in FormatUint32 (unat (xxh_Sum64 (xxh_Write xxh_New source))))"

definition genArchiveSign :: "(nat \<Rightarrow> int) \<Rightarrow> string \<Rightarrow> string" where
  "genArchiveSign Int63 name =
     (let buf = randbo_Read Int63 0 16
      in FormatUint32 (unat (Sum64String (name @ EncodeToString buf))))"

lemma token_length: "length (FormatUint32 (unat (h :: u64))) \<le> 13"
proof -
  have "unat h < 2 ^ 64" using unsigned_less [of h, where ?'a = nat] by simp
  then have "unat h < 32 ^ Suc 12" by simp
  then show ?thesis using length_FormatUint32 [of "unat h" 12] by simp
qed

end
