(* ===== verification/ConfigReader.thy ===== *)
theory ConfigReader
  imports Prelude Hashing
begin

text \<open>
  \<open>src/src/server/pkg/Config/ConfigReader.go\<close>: the configuration map, loaded from
  \<open>config.yml\<close> at start and again every ten minutes, and the salt file whose hash seeds every key.
  The YAML parser (\<open>gopkg.in/yaml.v1\<close>) is the parameter \<open>yaml\<close>, SHA-512 the parameter \<open>sha512\<close>;
  the operating system decides which calls fail (record \<open>os_env\<close>) and supplies the random numbers.
\<close>

section \<open>State\<close>

datatype conf_key = KeyString string | KeyOther nat

datatype conf_value = CString string | CInt int | CBytes bytes | COther nat

type_synonym confs = "conf_key \<rightharpoonup> conf_value"

text \<open>What \<open>yaml.Unmarshal\<close> into \<open>interface{}\<close> yields: a mapping, or some other document.\<close>

datatype yaml_doc = YMap "(conf_key \<times> conf_value) list" | YOther

record Config =
  confMap :: confs
  fs :: "string \<rightharpoonup> bytes"

record os_env =
  getwd :: "string option"
  open_fails :: "string \<Rightarrow> bool"
  create_fails :: "string \<Rightarrow> bool"
  stat_fails :: "string \<Rightarrow> bool"
  read_fails :: "string \<Rightarrow> bool"
  write_takes :: "string \<Rightarrow> nat option"
  entropy :: "nat \<Rightarrow> int"

text \<open>
  \<open>filepath.Join\<close> of a directory and a plain name, and the file a name refers to: relative names
  start at the working directory, leading \<open>./\<close> elements disappear.
\<close>

definition Join :: "string \<Rightarrow> string \<Rightarrow> string" where
  "Join dir name = (if dir = '''' then name else if last dir = CHR ''/'' then dir @ name else dir @ ''/'' @ name)"

fun resolve :: "string \<Rightarrow> string \<Rightarrow> string" where
  "resolve wd (c # d # cs) =
     (if c = CHR ''/'' then c # d # cs
      else if c = CHR ''.'' \<and> d = CHR ''/'' then resolve wd cs
      else Join wd (c # d # cs))"
| "resolve wd [c] = (if c = CHR ''/'' then [c] else Join wd [c])"
| "resolve wd [] = Join wd []"

definition working_dir :: "os_env \<Rightarrow> string" where
  "working_dir env = (case getwd env of None \<Rightarrow> '''' | Some wd \<Rightarrow> wd)"

section \<open>Reading values\<close>

definition Load :: "confs \<Rightarrow> string \<Rightarrow> conf_value option" where
  "Load confs k = confs (KeyString k)"

definition Store :: "string \<Rightarrow> conf_value \<Rightarrow> confs \<Rightarrow> confs" where
  "Store k v confs = confs(KeyString k \<mapsto> v)"

definition ReadConfString :: "confs \<Rightarrow> string \<Rightarrow> string \<Rightarrow> string" where
  "ReadConfString confs k defaultValue =
     (case Load confs k of Some (CString s) \<Rightarrow> s | _ \<Rightarrow> defaultValue)"

definition ReadConfInt :: "confs \<Rightarrow> string \<Rightarrow> int \<Rightarrow> int" where
  "ReadConfInt confs k defaultValue = (case Load confs k of Some (CInt n) \<Rightarrow> n | _ \<Rightarrow> defaultValue)"

definition ReadConfBytes :: "confs \<Rightarrow> string \<Rightarrow> bytes" where
  "ReadConfBytes confs k = (case Load confs k of Some (CBytes b) \<Rightarrow> b | _ \<Rightarrow> [])"

section \<open>Defaults\<close>

definition is_CString :: "conf_value \<Rightarrow> bool" where
  "is_CString v = (case v of CString _ \<Rightarrow> True | _ \<Rightarrow> False)"

definition is_CInt :: "conf_value \<Rightarrow> bool" where
  "is_CInt v = (case v of CInt _ \<Rightarrow> True | _ \<Rightarrow> False)"

definition applyDefaultString :: "string \<Rightarrow> string \<Rightarrow> confs \<Rightarrow> confs" where
  "applyDefaultString k defaultValue confs =
     (case Load confs k of
        None \<Rightarrow> Store k (CString defaultValue) confs
      | Some stub \<Rightarrow> if is_CString stub then confs else Store k (CString defaultValue) confs)"

definition applyDefaultInt :: "string \<Rightarrow> int \<Rightarrow> confs \<Rightarrow> confs" where
  "applyDefaultInt k defaultValue confs =
     (case Load confs k of
        None \<Rightarrow> Store k (CInt defaultValue) confs
      | Some stub \<Rightarrow> if is_CInt stub then confs else Store k (CInt defaultValue) confs)"

definition applyDefaultSimpleConfigValues :: "confs \<Rightarrow> confs" where
  "applyDefaultSimpleConfigValues confs =
     applyDefaultInt ''max_room_count'' 1000
       (applyDefaultInt ''max_load'' 8
         (applyDefaultInt ''expiration'' 48
           (applyDefaultString ''announcement'' '''' confs)))"

section \<open>The salt file\<close>

text \<open>\<open>createSaltFile\<close> writes to \<open>salt.key\<close> in the working directory; \<open>file.Write\<close> is not checked.\<close>

definition createSaltFile :: "os_env \<Rightarrow> Config \<Rightarrow> (Config \<times> bytes) exec" where
  "createSaltFile env c =
     (case getwd env of
        None \<Rightarrow> Panics (PanicError ''getwd failed'') (c, [])
      | Some wd \<Rightarrow>
          (let path = Join wd ''salt.key'' in
           if create_fails env path then Panics (PanicError ''create failed'') (c, [])
           else
             (let buf = randbo_Read (entropy env) 0 4096;
                  stored = (case write_takes env path of None \<Rightarrow> buf | Some k \<Rightarrow> take k buf)
              in Done (c\<lparr>fs := (fs c)(path \<mapsto> stored)\<rparr>, buf))))"

definition readSaltFromFile :: "os_env \<Rightarrow> Config \<Rightarrow> string \<Rightarrow> string + bytes" where
  "readSaltFromFile env c saltFileName =
     (let path = resolve (working_dir env) saltFileName in
      case fs c path of
        None \<Rightarrow> Inl ''no such file''
      | Some content \<Rightarrow>
          if open_fails env path then Inl ''open failed''
          else if stat_fails env path then Inl ''stat failed''
          else if read_fails env path then Inl ''read failed''
          else Inr content)"

section \<open>Loading\<close>

text \<open>
  Every error of \<open>os.Open\<close> is an \<open>*os.PathError\<close>, so a file that cannot be opened is created (and
  an existing one truncated).  The new file is empty, and an empty file panics.  The result of
  \<open>file.Read\<close> is not checked: after a failed read the buffer holds zeros.
\<close>

definition loadConfFile :: "(bytes \<Rightarrow> string + yaml_doc) \<Rightarrow> os_env \<Rightarrow> string \<Rightarrow> Config \<Rightarrow> Config exec" where
  "loadConfFile yaml env path c =
     (let missing = (fs c path = None \<or> open_fails env path) in
      if missing \<and> create_fails env path then Panics (PanicError ''create failed'') c
      else
        (let c1 = (if missing then c\<lparr>fs := (fs c)(path \<mapsto> [])\<rparr> else c);
             content = the (fs c1 path) in
         if stat_fails env path then Panics (PanicString ''Cannot read config file info.'') c1
         else if content = [] then Panics (PanicString ''Config file is empty'') c1
         else
           (let buf = (if read_fails env path then replicate (length content) 0 else content) in
            case yaml buf of
              Inl err \<Rightarrow> Panics (PanicError err) c1
            | Inr YOther \<Rightarrow> Panics (PanicError ''interface conversion'') c1
            | Inr (YMap kvs) \<Rightarrow>
                Done (c1\<lparr>confMap := fold (\<lambda>(k, v) m. m(k \<mapsto> v)) kvs (confMap c1)\<rparr>))))"

definition InitConf :: "(bytes \<Rightarrow> string + yaml_doc) \<Rightarrow> (bytes \<Rightarrow> bytes) \<Rightarrow> os_env \<Rightarrow> Config \<Rightarrow> Config exec" where
  "InitConf yaml sha512 env c0 =
     andThen (loadConfFile yaml env (resolve (working_dir env) (Join (working_dir env) ''config.yml'')) c0) (\<lambda>c1.
       let c2 = c1\<lparr>confMap := applyDefaultString ''salt'' ''./data/salt.key'' (confMap c1)\<rparr>;
           saltFileName = ReadConfString (confMap c2) ''salt'' '''';
           finish = (\<lambda>c salt. c\<lparr>confMap := applyDefaultSimpleConfigValues
                              (Store ''globalSaltHash'' (CBytes (sha512 salt)) (confMap c))\<rparr>)
       in case readSaltFromFile env c2 saltFileName of
            Inr salt \<Rightarrow> Done (finish c2 salt)
          | Inl err \<Rightarrow>
              (case createSaltFile env c2 of
                 Done (c3, salt) \<Rightarrow> Done (finish c3 salt)
               | Panics p (c3, salt) \<Rightarrow> Panics p c3
               | Blocks \<Rightarrow> Blocks))"

definition ReloadConf :: "(bytes \<Rightarrow> string + yaml_doc) \<Rightarrow> os_env \<Rightarrow> Config \<Rightarrow> Config exec" where
  "ReloadConf yaml env c0 =
     (case getwd env of
        None \<Rightarrow> Done c0
      | Some wd \<Rightarrow>
          andThen (loadConfFile yaml env (resolve wd (Join wd ''config.yml'')) c0) (\<lambda>c1.
            Done (c1\<lparr>confMap := applyDefaultSimpleConfigValues (confMap c1)\<rparr>)))"

section \<open>Lemmas\<close>

lemmas confs_simps = Load_def Store_def applyDefaultString_def applyDefaultInt_def
  is_CString_def is_CInt_def

text \<open>The configuration the rest of the program reads: every key it asks for, with its type.\<close>

definition typed :: "confs \<Rightarrow> bool" where
  "typed m \<longleftrightarrow>
     (\<exists>s. Load m ''announcement'' = Some (CString s)) \<and>
     (\<exists>n. Load m ''expiration'' = Some (CInt n)) \<and>
     (\<exists>n. Load m ''max_load'' = Some (CInt n)) \<and>
     (\<exists>n. Load m ''max_room_count'' = Some (CInt n))"

lemma applyDefaultString_result:
  "\<exists>s. Load (applyDefaultString k d m) k = Some (CString s)"
  by (auto simp: confs_simps split: option.splits conf_value.splits)

lemma applyDefaultInt_result:
  "\<exists>n. Load (applyDefaultInt k d m) k = Some (CInt n)"
  by (auto simp: confs_simps split: option.splits conf_value.splits)

lemma applyDefaultString_other: "k' \<noteq> k \<Longrightarrow> Load (applyDefaultString k d m) k' = Load m k'"
  by (auto simp: confs_simps split: option.splits conf_value.splits)

lemma applyDefaultInt_other: "k' \<noteq> k \<Longrightarrow> Load (applyDefaultInt k d m) k' = Load m k'"
  by (auto simp: confs_simps split: option.splits conf_value.splits)

lemma applyDefaults_keep:
  "k \<notin> {''announcement'', ''expiration'', ''max_load'', ''max_room_count''} \<Longrightarrow>
   Load (applyDefaultSimpleConfigValues m) k = Load m k"
  by (simp add: applyDefaultSimpleConfigValues_def applyDefaultString_other applyDefaultInt_other)

lemma applyDefaults_typed: "typed (applyDefaultSimpleConfigValues m)"
  unfolding typed_def applyDefaultSimpleConfigValues_def
  using applyDefaultString_result applyDefaultInt_result
  by (simp add: applyDefaultString_other applyDefaultInt_other)

text \<open>Values of the right type survive the defaults.\<close>

lemma applyDefaultString_same: "Load m k = Some (CString s) \<Longrightarrow> applyDefaultString k d m = m"
  by (simp add: applyDefaultString_def is_CString_def)

lemma applyDefaultInt_same: "Load m k = Some (CInt n) \<Longrightarrow> applyDefaultInt k d m = m"
  by (simp add: applyDefaultInt_def is_CInt_def)

lemma applyDefaults_respect_string:
  "Load m ''announcement'' = Some (CString s) \<Longrightarrow>
     Load (applyDefaultSimpleConfigValues m) ''announcement'' = Some (CString s)"
  by (simp add: applyDefaultSimpleConfigValues_def applyDefaultString_same applyDefaultInt_other)

lemma applyDefaults_respect_int:
  "k \<in> {''expiration'', ''max_load'', ''max_room_count''} \<Longrightarrow> Load m k = Some (CInt n) \<Longrightarrow>
     Load (applyDefaultSimpleConfigValues m) k = Some (CInt n)"
  unfolding applyDefaultSimpleConfigValues_def
  by (elim insertE emptyE)
    (simp_all add: applyDefaultInt_same applyDefaultString_other applyDefaultInt_other)

lemma fold_store:
  "fold (\<lambda>(k, v) m. m(k \<mapsto> v)) kvs m = m ++ map_of (rev kvs)"
  by (induction kvs arbitrary: m) (auto simp: map_add_upd_left map_add_assoc [symmetric] split: prod.splits)

lemma loadConfFile_Done:
  "loadConfFile yaml env path c = Done c' \<Longrightarrow>
   \<exists>content kvs. fs c path = Some content \<and> content \<noteq> [] \<and> \<not> open_fails env path \<and> fs c' = fs c \<and>
     yaml (if read_fails env path then replicate (length content) 0 else content) = Inr (YMap kvs) \<and>
     confMap c' = confMap c ++ map_of (rev kvs)"
  by (auto simp: loadConfFile_def Let_def fold_store
      split: if_splits sum.splits yaml_doc.splits option.splits)

lemma Load_Store [simp]: "Load (Store k v m) k' = (if k' = k then Some v else Load m k')"
  by (simp add: Load_def Store_def)

lemma createSaltFile_keeps: "createSaltFile env c = Done (c', salt) \<Longrightarrow> confMap c' = confMap c"
  by (auto simp: createSaltFile_def Let_def split: option.splits if_splits)

text \<open>A start that succeeds: the map, and where the salt came from.\<close>

lemma InitConf_Done:
  assumes "InitConf yaml sha512 env c = Done c'"
  obtains c1 m salt where
    "loadConfFile yaml env (resolve (working_dir env) (Join (working_dir env) ''config.yml'')) c = Done c1"
    "m = applyDefaultString ''salt'' ''./data/salt.key'' (confMap c1)"
    "confMap c' = applyDefaultSimpleConfigValues (Store ''globalSaltHash'' (CBytes (sha512 salt)) m)"
    "readSaltFromFile env (c1\<lparr>confMap := m\<rparr>) (ReadConfString m ''salt'' '''') = Inr salt \<and> fs c' = fs c1 \<or>
     (\<exists>err c3. readSaltFromFile env (c1\<lparr>confMap := m\<rparr>) (ReadConfString m ''salt'' '''') = Inl err \<and>
       createSaltFile env (c1\<lparr>confMap := m\<rparr>) = Done (c3, salt) \<and> fs c' = fs c3)"
proof -
  obtain c1 where load: "loadConfFile yaml env (resolve (working_dir env) (Join (working_dir env) ''config.yml'')) c = Done c1"
    using assms by (auto simp: InitConf_def andThen_eq_Done)
  let ?m = "applyDefaultString ''salt'' ''./data/salt.key'' (confMap c1)"
  show thesis
  proof (cases "readSaltFromFile env (c1\<lparr>confMap := ?m\<rparr>) (ReadConfString ?m ''salt'' '''')")
    case (Inl err)
    then obtain c3 salt where "createSaltFile env (c1\<lparr>confMap := ?m\<rparr>) = Done (c3, salt)"
      "c' = c3\<lparr>confMap := applyDefaultSimpleConfigValues (Store ''globalSaltHash'' (CBytes (sha512 salt)) (confMap c3))\<rparr>"
      using assms load by (auto simp: InitConf_def Let_def split: exec.splits)
    then show thesis
      using that [OF load refl, of salt] Inl createSaltFile_keeps by fastforce
  next
    case (Inr salt)
    then show thesis
      using that [OF load refl, of salt] assms load by (simp add: InitConf_def Let_def) force
  qed
qed

text \<open>When a start succeeds: the file is there and well-formed, and a salt can be read or made.\<close>

definition startable :: "(bytes \<Rightarrow> string + yaml_doc) \<Rightarrow> os_env \<Rightarrow> Config \<Rightarrow> string \<Rightarrow> (conf_key \<times> conf_value) list \<Rightarrow> bool" where
  "startable yaml env c wd kvs \<longleftrightarrow>
     (let path = resolve wd (Join wd ''config.yml'') in
      getwd env = Some wd \<and> \<not> open_fails env path \<and> \<not> stat_fails env path \<and> \<not> read_fails env path \<and>
      \<not> create_fails env (Join wd ''salt.key'') \<and>
      (case fs c path of None \<Rightarrow> False | Some content \<Rightarrow> content \<noteq> [] \<and> yaml content = Inr (YMap kvs)))"

lemma InitConf_returns:
  assumes "startable yaml env c wd kvs"
  shows "\<exists>c'. InitConf yaml sha512 env c = Done c'"
proof -
  let ?path = "resolve wd (Join wd ''config.yml'')"
  have wd: "working_dir env = wd" and env: "getwd env = Some wd" "\<not> create_fails env (Join wd ''salt.key'')"
    using assms by (simp_all add: startable_def working_dir_def Let_def)
  have "\<exists>c1. loadConfFile yaml env ?path c = Done c1"
    using assms by (simp add: startable_def loadConfFile_def Let_def split: option.splits)
  then obtain c1 where "loadConfFile yaml env ?path c = Done c1"
    by blast
  then show ?thesis
    using wd env by (simp add: InitConf_def Let_def createSaltFile_def split: sum.splits)
qed

lemma InitConf_loads:
  assumes "startable yaml env c wd kvs" and "InitConf yaml sha512 env c = Done c'"
    and "map_of (rev kvs) (KeyString k) = Some (CString s)"
    and "k \<notin> {''announcement'', ''expiration'', ''max_load'', ''max_room_count'', ''globalSaltHash''}"
  shows "Load (confMap c') k = Some (CString s)"
  using assms(2)
proof (rule InitConf_Done)
  fix c1 m salt
  assume load: "loadConfFile yaml env (resolve (working_dir env) (Join (working_dir env) ''config.yml'')) c = Done c1"
    and m: "m = applyDefaultString ''salt'' ''./data/salt.key'' (confMap c1)"
    and c': "confMap c' = applyDefaultSimpleConfigValues (Store ''globalSaltHash'' (CBytes (sha512 salt)) m)"
  have "confMap c1 = confMap c ++ map_of (rev kvs)"
    using loadConfFile_Done [OF load] assms(1)
    by (auto simp: startable_def working_dir_def Let_def split: option.splits)
  then have "Load (confMap c1) k = Some (CString s)"
    using assms(3) by (simp add: Load_def)
  then have "Load m k = Some (CString s)"
    using m by (cases "k = ''salt''") (simp_all add: applyDefaultString_same applyDefaultString_other)
  then show ?thesis
    using c' assms(4) by (simp add: applyDefaults_keep)
qed

lemma InitConf_typed:
  assumes "InitConf yaml sha512 env c = Done c'"
  shows "typed (confMap c') \<and> (\<exists>salt. Load (confMap c') ''globalSaltHash'' = Some (CBytes (sha512 salt))) \<and>
   (\<exists>s. Load (confMap c') ''salt'' = Some (CString s))"
  using assms
proof (rule InitConf_Done)
  fix c1 m salt
  assume "m = applyDefaultString ''salt'' ''./data/salt.key'' (confMap c1)"
    "confMap c' = applyDefaultSimpleConfigValues (Store ''globalSaltHash'' (CBytes (sha512 salt)) m)"
  then show ?thesis
    using applyDefaultString_result [of "''salt''" "''./data/salt.key''" "confMap c1"]
    by (auto simp: applyDefaults_typed applyDefaults_keep)
qed

text \<open>
  A salt that is missing at its configured place is created elsewhere: the hash comes from fresh
  random bytes, and the place stays empty, so the next start draws a new salt.
\<close>

lemma InitConf_salt_lost:
  assumes "InitConf yaml sha512 env c = Done c'" and "getwd env = Some wd"
    and "Load (confMap c') ''salt'' = Some (CString name)"
    and "fs c (resolve wd name) = None" and "resolve wd name \<noteq> Join wd ''salt.key''"
  shows "ReadConfBytes (confMap c') ''globalSaltHash'' = sha512 (randbo_Read (entropy env) 0 4096) \<and>
    fs c' (resolve wd name) = None"
  using assms(1)
proof (rule InitConf_Done)
  fix c1 m salt
  assume load: "loadConfFile yaml env (resolve (working_dir env) (Join (working_dir env) ''config.yml'')) c = Done c1"
    and m: "m = applyDefaultString ''salt'' ''./data/salt.key'' (confMap c1)"
    and c': "confMap c' = applyDefaultSimpleConfigValues (Store ''globalSaltHash'' (CBytes (sha512 salt)) m)"
    and salt: "readSaltFromFile env (c1\<lparr>confMap := m\<rparr>) (ReadConfString m ''salt'' '''') = Inr salt \<and> fs c' = fs c1 \<or>
     (\<exists>err c3. readSaltFromFile env (c1\<lparr>confMap := m\<rparr>) (ReadConfString m ''salt'' '''') = Inl err \<and>
       createSaltFile env (c1\<lparr>confMap := m\<rparr>) = Done (c3, salt) \<and> fs c' = fs c3)"
  have "Load m ''salt'' = Some (CString name)"
    using assms(3) c' by (simp add: applyDefaults_keep)
  then have name: "ReadConfString m ''salt'' '''' = name"
    by (simp add: ReadConfString_def)
  have none: "fs c1 (resolve wd name) = None"
    using loadConfFile_Done [OF load] assms(4) by auto
  then have "\<exists>err. readSaltFromFile env (c1\<lparr>confMap := m\<rparr>) name = Inl err"
    using assms(2) by (simp add: readSaltFromFile_def working_dir_def)
  then obtain c3 where "createSaltFile env (c1\<lparr>confMap := m\<rparr>) = Done (c3, salt)" "fs c' = fs c3"
    using salt name by auto
  then have "salt = randbo_Read (entropy env) 0 4096" "fs c' (resolve wd name) = None"
    using assms(2,5) none by (auto simp: createSaltFile_def Let_def split: if_splits)
  then show ?thesis
    using c' by (simp add: ReadConfBytes_def applyDefaults_keep)
qed

text \<open>Without a configuration file the program leaves an empty one behind and panics, every time.\<close>

lemma loadConfFile_missing:
  assumes "fs c path = None" and "\<not> create_fails env path" and "\<not> stat_fails env path"
  shows "loadConfFile yaml env path c =
    Panics (PanicString ''Config file is empty'') (c\<lparr>fs := (fs c)(path \<mapsto> [])\<rparr>)"
  using assms by (simp add: loadConfFile_def Let_def)

lemma loadConfFile_empty:
  assumes "fs c path = Some []" and "\<not> open_fails env path" and "\<not> stat_fails env path"
  shows "loadConfFile yaml env path c = Panics (PanicString ''Config file is empty'') c"
  using assms by (simp add: loadConfFile_def Let_def)

lemma ReloadConf_typed:
  "typed (confMap c) \<Longrightarrow> ReloadConf yaml env c = Done c' \<Longrightarrow> typed (confMap c')"
  by (auto simp: ReloadConf_def andThen_eq_Done applyDefaults_typed split: option.splits)

lemma ReloadConf_keeps:
  assumes "ReloadConf yaml env c = Done c'" and "getwd env = Some wd"
    and "fs c (resolve wd (Join wd ''config.yml'')) = Some content"
    and "\<not> read_fails env (resolve wd (Join wd ''config.yml''))"
    and "yaml content = Inr (YMap kvs)" and "KeyString k \<notin> fst ` set kvs"
    and "k \<notin> {''announcement'', ''expiration'', ''max_load'', ''max_room_count''}"
  shows "Load (confMap c') k = Load (confMap c) k"
proof -
  have none: "map_of (rev kvs) (KeyString k) = None"
    using assms(6) by (simp add: map_of_eq_None_iff)
  obtain c1 where c1: "loadConfFile yaml env (resolve wd (Join wd ''config.yml'')) c = Done c1"
    "confMap c' = applyDefaultSimpleConfigValues (confMap c1)"
    using assms(1,2) by (auto simp: ReloadConf_def andThen_eq_Done)
  have "confMap c1 = confMap c ++ map_of (rev kvs)"
    using loadConfFile_Done [OF c1(1)] assms by auto
  then have "Load (confMap c1) k = Load (confMap c) k"
    using none by (simp add: Load_def map_add_def)
  then show ?thesis
    using c1(2) assms(7) by (simp add: applyDefaults_keep)
qed

end
