(* ===== verification/BufFile.thy ===== *)
theory BufFile
  imports Prelude
begin

text \<open>
  \<open>src/src/server/pkg/BufferedFile/BufferedFile.go\<close>: an append-only file with a write buffer.  The
  record holds the fields of the Go struct and the operating system's view of the open file: its
  bytes, the handle's position, whether the handle is open and whether the path still names it.
  Every exported operation runs under the struct's mutex, so it is one atomic function here; what
  the operating system may do (a short write, a failing open or truncate) is an argument.
  \<open>waterMark\<close>, \<open>fileSize\<close> and \<open>wholeSize\<close> are only ever set to 0 or increased by lengths; they are
  natural numbers (a file stays below \<open>2^63\<close> bytes).  Offsets come from clients and wrap.
\<close>

section \<open>State and the operating system\<close>

record BufferedFileOption =
  FileName :: string
  WriteCycle :: int
  BufferSize :: int

record BufferedFile =
  option :: BufferedFileOption
  fbuffer :: bytes
  waterMark :: nat
  fileSize :: nat
  wholeSize :: nat
  disk :: bytes
  fpos :: nat
  fopen :: bool
  linked :: bool
  goingClose :: bool

record disk_env =
  wfault :: "nat option"
  oerr :: bool

definition healthy :: disk_env where
  "healthy = \<lparr>wfault = None, oerr = False\<rparr>"

definition os_write :: "nat option \<Rightarrow> BufferedFile \<Rightarrow> bytes \<Rightarrow> BufferedFile \<times> nat \<times> string option" where
  "os_write fault f d =
     (if \<not> fopen f then (f, 0, Some ''file already closed'')
      else let n = (case fault of None \<Rightarrow> length d | Some k \<Rightarrow> min k (length d));
               padded = disk f @ replicate (fpos f - length (disk f)) 0
        in (f\<lparr>disk := patch (fpos f) (take n d) padded, fpos := fpos f + n\<rparr>, n,
            if fault = None then None else Some ''write failed''))"

definition os_read_at :: "BufferedFile \<Rightarrow> bytes \<Rightarrow> int \<Rightarrow> bytes \<times> int \<times> string option" where
  "os_read_at f buf off =
     (if off < 0 then (buf, 0, Some ''negative offset'')
      else if buf = [] then (buf, 0, None)
      else if \<not> fopen f then (buf, 0, Some ''file already closed'')
      else let got = slice (nat off) (length buf) (disk f)
        in (got @ drop (length got) buf, int (length got),
            if length got < length buf then Some ''EOF'' else None))"

section \<open>Operations\<close>

definition WholeSize :: "BufferedFile \<Rightarrow> int" where
  "WholeSize f = int (wholeSize f)"

definition openForRead :: "bool \<Rightarrow> BufferedFile \<Rightarrow> BufferedFile \<times> string option" where
  "openForRead err f =
     (if err then (f, Some ''open failed'')
      else let content = (if linked f then disk f else [])
        in (f\<lparr>disk := content, linked := True, fopen := True, fpos := length content\<rparr>, None))"

definition fetchFileSize :: "bool \<Rightarrow> BufferedFile \<Rightarrow> BufferedFile \<times> string option" where
  "fetchFileSize err f =
     (if err then (f, Some ''stat failed'') else (f\<lparr>fileSize := length (disk f)\<rparr>, None))"

text \<open>The deferred part of a sync: close the handle, open the path again at its end.\<close>

definition reopen :: "bool \<Rightarrow> BufferedFile \<Rightarrow> BufferedFile" where
  "reopen err f = fst (openForRead err (f\<lparr>fopen := False\<rparr>))"

definition innerSync :: "disk_env \<Rightarrow> BufferedFile \<Rightarrow> BufferedFile \<times> string option" where
  "innerSync env f =
     (let mark = waterMark f
      in if mark < 1 then (reopen (oerr env) f, None)
         else case os_write (wfault env) f (take mark (fbuffer f)) of
                (f1, n, err) \<Rightarrow>
                  (reopen (oerr env) (f1\<lparr>fileSize := fileSize f1 + mark, waterMark := 0\<rparr>), err))"

definition Sync :: "disk_env \<Rightarrow> BufferedFile \<Rightarrow> BufferedFile \<times> string option" where
  "Sync env f =
     (let mark = waterMark f
      in if mark < 1 then (reopen (oerr env) f, None)
         else case os_write (wfault env) f (take mark (fbuffer f)) of
                (f1, n, err) \<Rightarrow>
                  (reopen (oerr env) (f1\<lparr>fileSize := fileSize f1 + mark, waterMark := 0\<rparr>), err))"

text \<open>One round of the goroutine of \<open>startWriteTimer\<close>: a failing sync panics.\<close>

definition startWriteTimer :: "disk_env \<Rightarrow> BufferedFile \<Rightarrow> BufferedFile go" where
  "startWriteTimer env f =
     (if goingClose f then Inr f
      else case Sync env f of
             (f', None) \<Rightarrow> Inr f'
           | (f', Some err) \<Rightarrow> Inl (PanicError err))"

definition BufferedFile_Close :: "disk_env \<Rightarrow> BufferedFile \<Rightarrow> (BufferedFile \<times> string option) go" where
  "BufferedFile_Close env f =
     (if goingClose f then Inl close_of_closed
      else case Sync env (f\<lparr>goingClose := True\<rparr>) of
             (f', Some err) \<Rightarrow> Inr (f', Some err)
           | (f', None) \<Rightarrow>
               Inr (f'\<lparr>fopen := False\<rparr>, if fopen f' then None else Some ''file already closed''))"

definition Clear :: "bool \<Rightarrow> BufferedFile \<Rightarrow> BufferedFile \<times> string option" where
  "Clear err f =
     (let f1 = f\<lparr>wholeSize := 0, waterMark := 0, fileSize := 0, fpos := (if fopen f then 0 else fpos f)\<rparr>
      in if err \<or> \<not> fopen f then (f1, Some ''truncate failed'') else (f1\<lparr>disk := []\<rparr>, None))"

definition BufferedFile_Remove :: "BufferedFile \<Rightarrow> BufferedFile" where
  "BufferedFile_Remove f = f\<lparr>linked := False\<rparr>"

definition Write :: "disk_env \<Rightarrow> nat option \<Rightarrow> BufferedFile \<Rightarrow> bytes \<Rightarrow>
    BufferedFile \<times> int \<times> string option" where
  "Write env fault f data =
     (let len = int (length data);
          left = int (length (fbuffer f)) - int (waterMark f);
          synced = (if left \<le> len then innerSync env f else (f, None))
      in case synced of
           (f1, Some err) \<Rightarrow> (f1, 0, Some err)
         | (f1, None) \<Rightarrow>
             if len > int (length (fbuffer f1))
             then (case os_write fault (f1\<lparr>wholeSize := wholeSize f1 + length data,
                                           fileSize := fileSize f1 + length data\<rparr>) data of
                     (f2, n, err) \<Rightarrow> (f2, int n, err))
             else (f1\<lparr>fbuffer := patch (waterMark f1)
                                   (take (length (fbuffer f1) - waterMark f1) data) (fbuffer f1),
                     waterMark := waterMark f1 + length data,
                     wholeSize := wholeSize f1 + length data\<rparr>, len, None))"

text \<open>
  \<open>ReadAt\<close> fills the caller's slice \<open>data\<close> and returns it with the count and the error.  The three
  cases are those of the code: all in the file, all in the buffer, and both.
\<close>

definition ReadAt :: "BufferedFile \<Rightarrow> bytes \<Rightarrow> int \<Rightarrow> (bytes \<times> int \<times> string option) go" where
  "ReadAt f data off =
     (let file_size = int (fileSize f); len = int (length data); mark = int (waterMark f);
          upto = wrap64 (off + len)
      in if upto > file_size + mark then Inr (data, 0, Some ''Cannot read so much'')
         else if upto \<le> file_size \<and> file_size \<noteq> 0 then Inr (os_read_at f data off)
         else if off > file_size then
           let start = off - file_size; stop = wrap64 (start + len)
           in if stop < start \<or> stop > int (length (fbuffer f)) then Inl slice_out_of_range
              else Inr (slice (nat start) (length data) (fbuffer f), len, None)
         else
           let in_file = wrap64 (file_size - off); in_buf = wrap64 (upto - file_size)
           in if \<not> make_ok in_file then Inl makeslice_out_of_range
              else case os_read_at f (replicate (nat in_file) 0) off of
                     (file_buf, n, err) \<Rightarrow>
                       if \<not> make_ok in_buf then Inl makeslice_out_of_range
                       else if in_buf > int (length (fbuffer f)) \<or> in_file + in_buf > len
                       then Inl index_out_of_range
                       else Inr (patch 0 (file_buf @ take (nat in_buf) (fbuffer f)) data, len, err))"

definition MakeBufferedFile :: "bool \<Rightarrow> bool \<Rightarrow> bytes option \<Rightarrow> BufferedFileOption \<Rightarrow>
    (BufferedFile \<times> string option) go" where
  "MakeBufferedFile open_err stat_err existing opt =
     (if \<not> make_ok (BufferSize opt) then Inl makeslice_out_of_range
      else let f0 = \<lparr>option = opt, fbuffer = replicate (nat (BufferSize opt)) 0, waterMark = 0,
                     fileSize = 0, wholeSize = 0,
                     disk = (case existing of None \<Rightarrow> [] | Some content \<Rightarrow> content), fpos = 0,
                     fopen = False, linked = True, goingClose = False\<rparr>
        in case openForRead open_err f0 of
             (f1, Some err) \<Rightarrow> Inr (f1, Some err)
           | (f1, None) \<Rightarrow>
               (case fetchFileSize stat_err f1 of
                  (f2, Some err) \<Rightarrow> Inr (f2, Some err)
                | (f2, None) \<Rightarrow> Inr (f2\<lparr>wholeSize := fileSize f2\<rparr>, None)))"

section \<open>Invariant and abstraction\<close>

text \<open>The logical content: what is on disk followed by the used part of the buffer.\<close>

definition contents :: "BufferedFile \<Rightarrow> bytes" where
  "contents f = disk f @ take (waterMark f) (fbuffer f)"

definition bf_inv :: "BufferedFile \<Rightarrow> bool" where
  "bf_inv f \<longleftrightarrow> waterMark f \<le> length (fbuffer f) \<and> fileSize f = length (disk f) \<and>
     wholeSize f = fileSize f + waterMark f \<and> fpos f = length (disk f) \<and> fopen f \<and> linked f"

lemma bf_invI [intro]:
  "waterMark f \<le> length (fbuffer f) \<Longrightarrow> fileSize f = length (disk f) \<Longrightarrow>
   wholeSize f = fileSize f + waterMark f \<Longrightarrow> fpos f = length (disk f) \<Longrightarrow> fopen f \<Longrightarrow> linked f \<Longrightarrow>
   bf_inv f"
  by (simp add: bf_inv_def)

lemma length_contents: "bf_inv f \<Longrightarrow> int (length (contents f)) = WholeSize f"
  by (simp add: bf_inv_def contents_def WholeSize_def)

lemma reopen_simps [simp]:
  "linked f \<Longrightarrow> reopen False f = f\<lparr>linked := True, fopen := True, fpos := length (disk f)\<rparr>"
  by (simp add: reopen_def openForRead_def)

lemma os_write_end:
  "fopen f \<Longrightarrow> fpos f = length (disk f) \<Longrightarrow>
   os_write None f d = (f\<lparr>disk := disk f @ d, fpos := fpos f + length d\<rparr>, length d, None)"
  by (simp add: os_write_def Let_def)

lemma innerSync_eq_Sync: "innerSync = Sync"
  by (intro ext) (simp add: innerSync_def Sync_def)

lemma Sync_healthy:
  assumes "bf_inv f"
  shows "Sync healthy f = (f\<lparr>disk := contents f, fileSize := wholeSize f, waterMark := 0,
    fpos := wholeSize f, fopen := True, linked := True\<rparr>, None)"
  using assms
  by (cases f) (auto simp: Sync_def healthy_def bf_inv_def os_write_end contents_def Let_def)

lemma Sync_keeps: "bf_inv f \<Longrightarrow> bf_inv (fst (Sync healthy f)) \<and> contents (fst (Sync healthy f)) = contents f"
  by (simp add: Sync_healthy) (auto simp: bf_inv_def contents_def)

lemma Clear_spec:
  "bf_inv f \<Longrightarrow> \<exists>f'. Clear False f = (f', None) \<and> bf_inv f' \<and> contents f' = []"
  by (auto simp: Clear_def bf_inv_def contents_def Let_def)

lemma Write_room:
  assumes "bf_inv f" and "length data < length (fbuffer f) - waterMark f"
  shows "\<exists>f'. Write healthy None f data = (f', int (length data), None) \<and> bf_inv f' \<and>
    contents f' = contents f @ data"
  using assms
  by (auto simp: Write_def bf_inv_def contents_def Let_def take_patch)

lemma Write_flushed:
  assumes "bf_inv f" and "\<not> length data < length (fbuffer f) - waterMark f"
  shows "\<exists>f'. Write healthy None f data = (f', int (length data), None) \<and> bf_inv f' \<and>
    contents f' = contents f @ data"
proof -
  obtain f1 where f1: "Sync healthy f = (f1, None)" "waterMark f1 = 0" "fbuffer f1 = fbuffer f"
    and keep: "bf_inv f1" "contents f1 = contents f"
    using assms(1) Sync_healthy [OF assms(1)] Sync_keeps [OF assms(1)] by simp
  have left: "int (length (fbuffer f)) - int (waterMark f) \<le> int (length data)"
    using assms by (simp add: bf_inv_def)
  show ?thesis
  proof (cases "length data > length (fbuffer f)")
    case True
    with keep f1 left show ?thesis
      by (simp add: Write_def innerSync_eq_Sync Let_def os_write_end bf_inv_def contents_def)
  next
    case False
    with keep f1 left show ?thesis
      by (simp add: Write_def innerSync_eq_Sync Let_def bf_inv_def contents_def)
         (simp add: patch_def)
  qed
qed

lemma Write_spec:
  "bf_inv f \<Longrightarrow> \<exists>f'. Write healthy None f data = (f', int (length data), None) \<and> bf_inv f' \<and>
     contents f' = contents f @ data"
  using Write_room Write_flushed by blast

lemma os_read_at_inside:
  "bf_inv f \<Longrightarrow> 0 \<le> off \<Longrightarrow> nat off + length buf \<le> length (disk f) \<Longrightarrow>
   os_read_at f buf off = (slice (nat off) (length buf) (disk f), int (length buf), None)"
  by (auto simp: os_read_at_def bf_inv_def Let_def)

lemma ReadAt_refused:
  "bf_inv f \<Longrightarrow> WholeSize f < off + int (length buf) \<Longrightarrow> off + int (length buf) < 2 ^ 63 \<Longrightarrow>
   ReadAt f buf off = Inr (buf, 0, Some ''Cannot read so much'')"
  by (simp add: ReadAt_def Let_def WholeSize_def bf_inv_def)

lemma ReadAt_inside:
  assumes inv: "bf_inv f" and upto: "k + length buf \<le> length (contents f)"
    and bound: "length (contents f) \<le> 2 ^ 48"
  shows "ReadAt f buf (int k) = Inr (slice k (length buf) (contents f), int (length buf), None)"
proof -
  let ?n = "length buf" and ?fs = "length (disk f)" and ?m = "waterMark f"
  note I = inv [unfolded bf_inv_def]
  have len: "length (contents f) = ?fs + ?m"
    using I by (simp add: contents_def)
  have w [simp]: "wrap64 (int k + int ?n) = int k + int ?n"
    using upto bound by simp
  consider (in_file) "k + ?n \<le> ?fs" "?fs \<noteq> 0" | (empty) "k = 0" "buf = []" "?fs = 0"
    | (buf) "?fs < k" | (both) "?fs < k + ?n" "k \<le> ?fs"
    by fastforce
  then show ?thesis
  proof cases
    case in_file
    then have "slice k ?n (contents f) = slice k ?n (disk f)"
      unfolding contents_def by (intro slice_prefix)
    then show ?thesis
      using in_file I len upto by (simp add: ReadAt_def os_read_at_inside inv)
  next
    case empty
    then show ?thesis
      using I by (simp add: ReadAt_def os_read_at_def make_ok_def patch_def Let_def)
  next
    case buf
    then have "slice k ?n (contents f) = slice (k - ?fs) ?n (fbuffer f)"
      using upto len unfolding contents_def by (simp add: slice_append2 slice_take)
    moreover have "nat (int k - int ?fs) = k - ?fs"
      by linarith
    ultimately show ?thesis
      using I buf len upto bound by (simp add: ReadAt_def Let_def)
  next
    case both
    then have "slice k ?n (contents f) = drop k (disk f) @ take (k + ?n - ?fs) (fbuffer f)"
      using upto len unfolding contents_def by (simp add: slice_straddle min_absorb1)
    moreover have "slice k (?fs - k) (disk f) = drop k (disk f)"
      by (simp add: slice_to_end)
    moreover have "min (length (fbuffer f)) (k + ?n - ?fs) = k + ?n - ?fs"
      using I len upto by (intro min_absorb2) linarith
    moreover have "nat (int ?fs - int k) = ?fs - k" "nat (int k + int ?n - int ?fs) = k + ?n - ?fs"
      by linarith+
    ultimately show ?thesis
      using I both len upto bound
      by (simp add: ReadAt_def Let_def make_ok_def os_read_at_inside [OF inv] patch_def)
  qed
qed

section \<open>Operations that may fail\<close>

text \<open>
  Whatever the operating system does, the mark stays inside the buffer (so \<open>f.buffer[0:mark]\<close> and
  the copy loop never leave it) and the three sizes agree with each other.
\<close>

definition marks_ok :: "BufferedFile \<Rightarrow> bool" where
  "marks_ok f \<longleftrightarrow> waterMark f \<le> length (fbuffer f) \<and> wholeSize f = fileSize f + waterMark f"

lemma reopen_fields [simp]:
  "fbuffer (reopen e f) = fbuffer f" "waterMark (reopen e f) = waterMark f"
  "fileSize (reopen e f) = fileSize f" "wholeSize (reopen e f) = wholeSize f"
  "goingClose (reopen e f) = goingClose f" "option (reopen e f) = option f"
  by (simp_all add: reopen_def openForRead_def Let_def)

lemma os_write_fields:
  "os_write fault f d = (f', n, err) \<Longrightarrow>
   fbuffer f' = fbuffer f \<and> waterMark f' = waterMark f \<and> fileSize f' = fileSize f \<and>
   wholeSize f' = wholeSize f"
  by (auto simp: os_write_def Let_def split: if_splits)

lemma marks_ok_Sync: "marks_ok f \<Longrightarrow> marks_ok (fst (Sync env f))"
  by (auto simp: Sync_def marks_ok_def Let_def split: prod.splits dest: os_write_fields)

lemma Sync_unmarks: "Sync env f = (f', err) \<Longrightarrow> waterMark f' = 0 \<and> fbuffer f' = fbuffer f"
  by (auto simp: Sync_def Let_def split: if_splits prod.splits dest: os_write_fields)

lemma marks_ok_Clear: "marks_ok (fst (Clear err f))"
  by (auto simp: Clear_def marks_ok_def Let_def)

lemma marks_ok_Write:
  assumes "marks_ok f"
  shows "marks_ok (fst (Write env fault f data))"
proof (cases "int (length (fbuffer f)) - int (waterMark f) \<le> int (length data)")
  case True
  obtain f1 err where s: "Sync env f = (f1, err)" by force
  then have "marks_ok f1" "waterMark f1 = 0"
    using marks_ok_Sync [OF assms, of env] Sync_unmarks [OF s] by simp_all
  then show ?thesis
    using True s
    by (auto simp: Write_def innerSync_eq_Sync Let_def not_less marks_ok_def
        dest: os_write_fields split: option.splits prod.splits)
next
  case False
  then show ?thesis
    using assms
    by (auto simp: Write_def Let_def marks_ok_def dest: os_write_fields split: prod.splits)
qed

section \<open>The file as a log\<close>

text \<open>
  The interfaces the radio relies on, and their instance: a log that is appended to, which is all that
  writing and broadcasting need, and a log that can also be read and emptied.  Reads are limited to logs
  the run-time can hold in one slice.
\<close>

locale append_log =
  fixes log_inv :: "'f \<Rightarrow> bool"
    and log_bytes :: "'f \<Rightarrow> bytes"
    and log_append :: "'f \<Rightarrow> bytes \<Rightarrow> 'f \<times> int \<times> string option"
    and log_size :: "'f \<Rightarrow> int"
  assumes append_law: "log_inv f \<Longrightarrow> \<exists>f'. log_append f d = (f', int (length d), None) \<and> log_inv f' \<and>
      log_bytes f' = log_bytes f @ d"
    and size_law: "log_inv f \<Longrightarrow> log_size f = int (length (log_bytes f))"
begin

lemma append_size: "log_inv f \<Longrightarrow> log_append f d = (f', n, e) \<Longrightarrow> log_size f' = log_size f + int (length d)"
  using append_law [of f d] by (auto simp: size_law)

lemma append_grows:
  assumes "log_inv f" and "log_append f d = (f', n, e)"
  shows "log_inv f'" and "log_bytes f' = log_bytes f @ d" and "n = int (length d)" and "e = None"
  using append_law [OF assms(1), of d] assms(2) by auto

end

locale byte_log = append_log log_inv log_bytes log_append log_size
  for log_inv :: "'f \<Rightarrow> bool" and log_bytes :: "'f \<Rightarrow> bytes"
    and log_append :: "'f \<Rightarrow> bytes \<Rightarrow> 'f \<times> int \<times> string option" and log_size :: "'f \<Rightarrow> int" +
  fixes log_clear :: "'f \<Rightarrow> 'f \<times> string option"
    and log_read :: "'f \<Rightarrow> bytes \<Rightarrow> int \<Rightarrow> (bytes \<times> int \<times> string option) go"
  assumes clear_law: "log_inv f \<Longrightarrow> \<exists>f'. log_clear f = (f', None) \<and> log_inv f' \<and> log_bytes f' = []"
    and read_law: "log_inv f \<Longrightarrow> k + length buf \<le> length (log_bytes f) \<Longrightarrow>
      length (log_bytes f) \<le> 2 ^ 48 \<Longrightarrow>
      log_read f buf (int k) = Inr (slice k (length buf) (log_bytes f), int (length buf), None)"
    and beyond_law: "log_inv f \<Longrightarrow> int (length (log_bytes f)) < off + int (length buf) \<Longrightarrow>
      off + int (length buf) < 2 ^ 63 \<Longrightarrow>
      log_read f buf off = Inr (buf, 0, Some ''Cannot read so much'')"
begin

lemma read_back:
  assumes "log_inv f" and "log_append f d = (f', n, e)" and "length (log_bytes f') \<le> 2 ^ 48"
    and "length buf = length d"
  shows "log_read f' buf (log_size f) = Inr (d, int (length d), None)"
  using append_grows(1,2) [OF assms(1,2)] assms(3,4) read_law [of f' "length (log_bytes f)" buf] size_law [OF assms(1)]
  by (simp add: slice_def)

end

interpretation bfile: byte_log bf_inv contents "Write healthy None" WholeSize "Clear False" ReadAt
proof unfold_locales
  show "bf_inv f \<Longrightarrow> \<exists>f'. Write healthy None f d = (f', int (length d), None) \<and> bf_inv f' \<and>
      contents f' = contents f @ d" for f d
    by (rule Write_spec)
  show "bf_inv f \<Longrightarrow> \<exists>f'. Clear False f = (f', None) \<and> bf_inv f' \<and> contents f' = []" for f
    by (rule Clear_spec)
qed (auto simp: length_contents intro: ReadAt_inside ReadAt_refused)

section \<open>Opening and closing\<close>

lemma MakeBufferedFile_spec:
  "0 \<le> BufferSize opt \<Longrightarrow> BufferSize opt \<le> 2 ^ 48 \<Longrightarrow>
   \<exists>f. MakeBufferedFile False False existing opt = Inr (f, None) \<and> bf_inv f \<and>
     contents f = (case existing of None \<Rightarrow> [] | Some b \<Rightarrow> b) \<and> option f = opt \<and> \<not> goingClose f"
  by (auto simp: MakeBufferedFile_def make_ok_def openForRead_def fetchFileSize_def bf_inv_def
      contents_def Let_def split: option.splits)

lemma Close_flushes:
  "bf_inv f \<Longrightarrow> \<not> goingClose f \<Longrightarrow>
   \<exists>f'. BufferedFile_Close healthy f = Inr (f', None) \<and> disk f' = contents f \<and> \<not> fopen f'"
  using Sync_healthy [of "f\<lparr>goingClose := True\<rparr>"]
  by (simp add: BufferedFile_Close_def contents_def bf_inv_def)

section \<open>Refinement of a byte log\<close>

text \<open>A file between two runs of the program is what is on the disk: closing and opening it again.\<close>

datatype bf_op = OpWrite bytes | OpSync | OpClear | OpReopen

definition restarted :: "disk_env \<Rightarrow> BufferedFile \<Rightarrow> BufferedFile" where
  "restarted env f =
     (case BufferedFile_Close env f of
        Inl p \<Rightarrow> f
      | Inr (f', err) \<Rightarrow>
          (case MakeBufferedFile (oerr env) (oerr env) (Some (disk f')) (option f') of
             Inl p \<Rightarrow> f'
           | Inr (g, err) \<Rightarrow> g))"

fun bf_step :: "BufferedFile \<Rightarrow> bf_op \<Rightarrow> BufferedFile" where
  "bf_step f (OpWrite d) = fst (Write healthy None f d)"
| "bf_step f OpSync = fst (Sync healthy f)"
| "bf_step f OpClear = fst (Clear False f)"
| "bf_step f OpReopen = restarted healthy f"

fun log_step :: "bytes \<Rightarrow> bf_op \<Rightarrow> bytes" where
  "log_step log (OpWrite d) = log @ d"
| "log_step log OpSync = log"
| "log_step log OpClear = []"
| "log_step log OpReopen = log"

text \<open>A file in use: not being closed, with a buffer the run-time can make.\<close>

definition bf_live :: "BufferedFile \<Rightarrow> bool" where
  "bf_live f \<longleftrightarrow> bf_inv f \<and> \<not> goingClose f \<and> 0 \<le> BufferSize (option f) \<and> BufferSize (option f) \<le> 2 ^ 48"

lemma os_write_same: "os_write fault f d = (f', n, err) \<Longrightarrow> goingClose f' = goingClose f \<and> option f' = option f"
  by (auto simp: os_write_def Let_def split: if_splits)

lemma Sync_same: "Sync env f = (f', err) \<Longrightarrow> goingClose f' = goingClose f \<and> option f' = option f"
  by (auto simp: Sync_def Let_def split: if_splits prod.splits dest: os_write_same)

lemma Write_same:
  "goingClose (fst (Write env fault f d)) = goingClose f \<and> option (fst (Write env fault f d)) = option f"
  by (auto simp: Write_def innerSync_eq_Sync Let_def split: prod.splits option.splits if_splits
      dest!: Sync_same os_write_same)

lemma Clear_same: "goingClose (fst (Clear e f)) = goingClose f \<and> option (fst (Clear e f)) = option f"
  by (auto simp: Clear_def Let_def)

lemma restarted_live:
  assumes "bf_live f"
  shows "bf_live (restarted healthy f) \<and> contents (restarted healthy f) = contents f"
proof -
  obtain f' where f': "BufferedFile_Close healthy f = Inr (f', None)" "disk f' = contents f"
    using Close_flushes [of f] assms by (auto simp: bf_live_def)
  have opt: "option f' = option f"
    using f'(1) Sync_same [of healthy "f\<lparr>goingClose := True\<rparr>"]
    by (auto simp: BufferedFile_Close_def Let_def split: if_splits prod.splits option.splits)
  obtain g where "MakeBufferedFile False False (Some (disk f')) (option f') = Inr (g, None)"
    "bf_inv g" "contents g = disk f'" "option g = option f'" "\<not> goingClose g"
    using MakeBufferedFile_spec [of "option f'" "Some (disk f')"] assms opt
    by (auto simp: bf_live_def)
  then show ?thesis
    using f' opt assms by (simp add: restarted_def bf_live_def healthy_def)
qed

lemma bf_step_refines:
  assumes "bf_live f"
  shows "bf_live (bf_step f op) \<and> contents (bf_step f op) = log_step (contents f) op"
proof (cases op)
  case (OpWrite d)
  then show ?thesis
    using assms Write_spec [of f d] Write_same [of healthy None f d] by (auto simp: bf_live_def)
next
  case OpSync
  obtain f' err where "Sync healthy f = (f', err)" by force
  then show ?thesis
    using OpSync assms Sync_keeps [of f] Sync_same [of healthy f f' err] by (simp add: bf_live_def)
next
  case OpClear
  then show ?thesis
    using assms Clear_spec [of f] Clear_same [of False f] by (auto simp: bf_live_def)
next
  case OpReopen
  then show ?thesis
    using restarted_live [OF assms] by simp
qed

lemma bf_run_refines:
  "bf_live f \<Longrightarrow> bf_live (foldl bf_step f ops) \<and>
   contents (foldl bf_step f ops) = foldl log_step (contents f) ops"
  by (induction ops arbitrary: f) (simp_all add: bf_step_refines)

text \<open>The operations on a disk that may fail in each of them.\<close>

fun faulty_step :: "BufferedFile \<Rightarrow> bf_op \<times> disk_env \<times> nat option \<Rightarrow> BufferedFile" where
  "faulty_step f (OpWrite d, env, fault) = fst (Write env fault f d)"
| "faulty_step f (OpSync, env, fault) = fst (Sync env f)"
| "faulty_step f (OpClear, env, fault) = fst (Clear (oerr env) f)"
| "faulty_step f (OpReopen, env, fault) = restarted env f"

lemma marks_ok_restarted:
  assumes "marks_ok f"
  shows "marks_ok (restarted env f)"
proof -
  have opened: "marks_ok g" if "MakeBufferedFile e1 e2 old opt = Inr (g, err)" for e1 e2 old opt g err
    using that by (cases e1; cases e2)
      (simp_all add: MakeBufferedFile_def openForRead_def fetchFileSize_def Let_def split: if_splits, auto simp: marks_ok_def)
  have "marks_ok f'" if "BufferedFile_Close env f = Inr (f', err)" for f' err
    using that marks_ok_Sync [of "f\<lparr>goingClose := True\<rparr>" env] assms
    by (auto simp: BufferedFile_Close_def marks_ok_def Let_def split: if_splits prod.splits option.splits)
  then show ?thesis
    using assms opened by (auto simp: restarted_def split: sum.splits prod.splits)
qed

lemma marks_ok_faulty_step: "marks_ok f \<Longrightarrow> marks_ok (faulty_step f op)"
  by (cases "(f, op)" rule: faulty_step.cases) (simp_all add: marks_ok_Write marks_ok_Sync marks_ok_Clear marks_ok_restarted)

end
