(* ===== verification/Compression.thy ===== *)
theory Compression
  imports Prelude
begin

text \<open>
  \<open>src/src/server/pkg/Common/Common.go\<close>: \<open>QCompress\<close> and \<open>QUncompress\<close>, the Qt-compatible
  compression of packet bodies.  The deflate algorithm is the standard library's
  \<open>compress/zlib\<close>: \<open>zw\<close> stands for writing a buffer through a closed \<open>zlib.Writer\<close>, and \<open>zr\<close> for
  copying a \<open>zlib.Reader\<close> to its end, \<open>None\<close> when \<open>zlib.NewReader\<close> refuses the stream.  The copy's
  own error is dropped by the code, so \<open>zr\<close> yields the bytes that were produced before it.
  The locale \<open>zlib_codec\<close> states the one law of the library the program relies on; it is
  interpreted on a zlib container with stored blocks (RFC 1950/1951, compression level 0).
\<close>

section \<open>The two operations\<close>

definition QCompress :: "(bytes \<Rightarrow> bytes) \<Rightarrow> bytes \<Rightarrow> string + bytes" where
  "QCompress zw data =
     (let len = int (length data);
          tmp = [word_of_int (drop_bit 24 len),
                 word_of_int (drop_bit 16 (len AND 0x00FF0000)),
                 word_of_int (drop_bit 8 (len AND 0x0000FF00)),
                 word_of_int (len AND 0xFF)]
      in Inr (tmp @ zw data))"

text \<open>
  \<open>data[4:]\<close> panics on fewer than four bytes; the deferred function recovers the run-time error
  and returns it with an empty result.
\<close>

definition QUncompress :: "(bytes \<Rightarrow> bytes option) \<Rightarrow> bytes \<Rightarrow> string + bytes" where
  "QUncompress zr data =
     (if length data < 4 then Inl ''slice bounds out of range''
      else case zr (drop 4 data) of
             None \<Rightarrow> Inl ''zlib: invalid header''
           | Some out \<Rightarrow> Inr out)"

lemma and_shift_byte:
  "word_of_int (drop_bit k (n AND push_bit k (mask 8))) = (word_of_int (drop_bit k n) :: byte)"
  by (rule bit_word_eqI) (auto simp: bit_simps)

lemma QCompress_header: "QCompress zw data = Inr (be32 (int (length data)) @ zw data)"
  using and_shift_byte [of 16 "int (length data)"] and_shift_byte [of 8 "int (length data)"]
    and_shift_byte [of 0 "int (length data)"]
  by (simp add: QCompress_def be32_def Let_def push_bit_eq_mult mask_eq_exp_minus_1)

section \<open>The law of the library\<close>

locale zlib_codec =
  fixes zw :: "bytes \<Rightarrow> bytes"
    and zr :: "bytes \<Rightarrow> bytes option"
  assumes reader_writer: "zr (zw d) = Some d"
begin

lemma uncompress_compress: "QCompress zw d = Inr c \<Longrightarrow> QUncompress zr c = Inr d"
  by (auto simp: QCompress_header QUncompress_def reader_writer)

lemma compress_total: "\<exists>c. QCompress zw d = Inr c \<and> 4 \<le> length c"
  by (simp add: QCompress_header)

end

section \<open>A zlib stream of stored blocks\<close>

definition le16 :: "nat \<Rightarrow> bytes" where
  "le16 n = [of_nat n, of_nat (n div 256)]"

definition un_le16 :: "bytes \<Rightarrow> nat" where
  "un_le16 bs = unat (bs ! 0) + 256 * unat (bs ! 1)"

definition stored_block :: "bool \<Rightarrow> bytes \<Rightarrow> bytes" where
  "stored_block final d =
     (if final then 1 else 0) # le16 (length d) @ le16 (65535 - length d) @ d"

function stored_blocks :: "bytes \<Rightarrow> bytes" where
  "stored_blocks d =
     (if length d \<le> 65535 then stored_block True d
      else stored_block False (take 65535 d) @ stored_blocks (drop 65535 d))"
  by pat_completeness auto
termination
  by (relation "measure length") auto

declare stored_blocks.simps [simp del]

definition adler32 :: "bytes \<Rightarrow> int" where
  "adler32 d =
     (case fold (\<lambda>x (a, b). ((a + uint x) mod 65521, (b + a + uint x) mod 65521)) d (1, 0) of
        (a, b) \<Rightarrow> b * 65536 + a)"

definition zlib_store :: "bytes \<Rightarrow> bytes" where
  "zlib_store d = [0x78, 0x01] @ stored_blocks d @ be32 (adler32 d)"

text \<open>
  The reader gives up (and yields what it has) at the end of the input, at a block type other
  than stored and at a length whose complement does not match.
\<close>

function inflate_stored :: "bytes \<Rightarrow> bytes" where
  "inflate_stored bs =
     (if length bs < 5 then []
      else let n = un_le16 (slice 1 2 bs) in
        if drop_bit 1 (hd bs) AND 3 \<noteq> 0 \<or> un_le16 (slice 3 2 bs) \<noteq> 65535 - n then []
        else slice 5 n bs @ (if hd bs AND 1 = 1 then [] else inflate_stored (drop (5 + n) bs)))"
  by pat_completeness auto
termination
  by (relation "measure length") auto

declare inflate_stored.simps [simp del]

definition zlib_unstore :: "bytes \<Rightarrow> bytes option" where
  "zlib_unstore bs =
     (case bs of
        h0 # h1 # rest \<Rightarrow>
          (if h0 AND 0x0F = 8 \<and> (256 * uint h0 + uint h1) mod 31 = 0 \<and> h1 AND 0x20 = 0
           then Some (inflate_stored rest) else None)
      | _ \<Rightarrow> None)"

lemma length_le16 [simp]: "length (le16 n) = 2"
  by (simp add: le16_def)

lemma un_le16_le16: "n < 65536 \<Longrightarrow> un_le16 (le16 n) = n"
  by (simp add: le16_def un_le16_def unat_of_nat div_less_iff_less_mult)

lemma drop_5: "drop (5 + n) (a # b # c # d # e # xs) = drop n xs"
proof -
  have "5 + n = Suc (Suc (Suc (Suc (Suc n))))" by simp
  then show ?thesis by (simp only: drop_Suc_Cons)
qed

lemma stored_block_fields:
  "slice 1 2 (stored_block final d @ xs) = le16 (length d)"
  "slice 3 2 (stored_block final d @ xs) = le16 (65535 - length d)"
  "slice 5 (length d) (stored_block final d @ xs) = d"
  "drop (5 + length d) (stored_block final d @ xs) = xs"
  "hd (stored_block final d @ xs) = (if final then 1 else 0)"
  "\<not> length (stored_block final d @ xs) < 5"
  by (simp_all add: slice_def stored_block_def le16_def drop_5 del: of_nat_diff)

lemma inflate_block:
  "length d \<le> 65535 \<Longrightarrow>
   inflate_stored (stored_block final d @ xs) = d @ (if final then [] else inflate_stored xs)"
  by (subst inflate_stored.simps)
     (simp add: stored_block_fields un_le16_le16 not_less Let_def
       del: One_nat_def length_append drop_append)

lemma inflate_blocks: "inflate_stored (stored_blocks d @ xs) = d"
proof (induction d rule: stored_blocks.induct)
  case (1 d)
  show ?case
  proof (cases "length d \<le> 65535")
    case True
    then show ?thesis by (subst stored_blocks.simps) (simp add: inflate_block)
  next
    case False
    with 1 show ?thesis by (subst stored_blocks.simps) (simp add: inflate_block)
  qed
qed

interpretation stored: zlib_codec zlib_store zlib_unstore
  by unfold_locales (simp add: zlib_store_def zlib_unstore_def inflate_blocks)

end
