(* ===== verification/Wire.thy ===== *)
theory Wire
  imports Compression "HOL-Library.Multiset"
begin

text \<open>
  \<open>src/src/server/pkg/Socket\<close>: the packet format (\<open>Utils.go\<close>), the incremental decoder of one TCP
  stream (\<open>SocketReader.go\<close>) and the connection object (\<open>Socket.go\<close>).  A frame is a big-endian
  32-bit length followed by that many bytes, of which the first is the pack header.
  Go's \<open>int\<close> is 64 bits wide, so the length of a frame is an exact natural number below \<open>2^32\<close>.
\<close>

section \<open>Packing (Utils.go)\<close>

definition MANAGER :: int where "MANAGER = 0"
definition COMMAND :: int where "COMMAND = 1"
definition DATA :: int where "DATA = 2"
definition MESSAGE :: int where "MESSAGE = 3"
definition MASK :: int where "MASK = MESSAGE"

lemmas pack_types = MANAGER_def COMMAND_def DATA_def MESSAGE_def MASK_def

record PackHeader =
  Compress :: bool
  PackType :: int

definition protocolPack :: "bytes \<Rightarrow> bytes" where
  "protocolPack data =
     (let length0 = int (length data);
          c1 = word_of_int (length0 AND 0xFF); length1 = drop_bit 8 length0;
          c2 = word_of_int (length1 AND 0xFF); length2 = drop_bit 8 length1;
          c3 = word_of_int (length2 AND 0xFF); length3 = drop_bit 8 length2;
          c4 = word_of_int (length3 AND 0xFF)
      in [c4, c3, c2, c1] @ data)"

definition header_bits :: "PackHeader \<Rightarrow> byte" where
  "header_bits header =
     (let compress_bit = (if Compress header then 1 else 0);
          pack_type_bits = word_of_int (push_bit 1 (PackType header AND MASK))
      in compress_bit OR pack_type_bits)"

definition bufferToPack :: "(bytes \<Rightarrow> bytes) \<Rightarrow> bytes \<Rightarrow> PackHeader \<Rightarrow> string + bytes" where
  "bufferToPack zw data header =
     (case (if Compress header then QCompress zw data else Inr data) of
        Inl err \<Rightarrow> Inl err
      | Inr converted \<Rightarrow> Inr (header_bits header # converted))"

definition AssamblePack :: "(bytes \<Rightarrow> bytes) \<Rightarrow> PackHeader \<Rightarrow> bytes \<Rightarrow> bytes" where
  "AssamblePack zw header data =
     (case bufferToPack zw data header of Inl err \<Rightarrow> [] | Inr result \<Rightarrow> protocolPack result)"

lemma low_byte: "word_of_int (n AND 0xFF) = (word_of_int n :: byte)"
  using and_shift_byte [of 0 n] by (simp add: mask_eq_exp_minus_1)

lemma protocolPack_be32: "protocolPack data = be32 (int (length data)) @ data"
  by (simp add: protocolPack_def be32_def Let_def low_byte)

lemma length_protocolPack [simp]: "length (protocolPack data) = 4 + length data"
  by (simp add: protocolPack_be32)

section \<open>Decoding (SocketReader.go)\<close>

record Package =
  PackageType :: int
  Unpacked :: bytes
  Repacked :: bytes

datatype read_status = ReadOk | ReadErr string | ReadPanic panic

text \<open>
  \<open>handler\<close> is \<open>True\<close> while a handler is registered and \<open>False\<close> while the empty function is.
\<close>

record SocketReader =
  buffer :: bytes
  dataSize :: nat
  reader_closed :: bool
  handler :: bool

definition NewSocketReader :: SocketReader where
  "NewSocketReader = \<lparr>buffer = [], dataSize = 0, reader_closed = False, handler = False\<rparr>"

definition SocketReader_Close :: "SocketReader \<Rightarrow> SocketReader" where
  "SocketReader_Close r =
     (if reader_closed r then r else r\<lparr>reader_closed := True, buffer := [], handler := False\<rparr>)"

definition RegisterHandler :: "SocketReader \<Rightarrow> SocketReader" where
  "RegisterHandler r = r\<lparr>handler := True\<rparr>"

definition UnregisterHandler :: "SocketReader \<Rightarrow> SocketReader" where
  "UnregisterHandler r = r\<lparr>handler := False\<rparr>"

definition GET_PACKAGE_SIZE :: "bytes \<Rightarrow> nat" where
  "GET_PACKAGE_SIZE buf = nat (un_be32 (take 4 buf))"

definition GET_FLAG :: "byte \<Rightarrow> PackHeader" where
  "GET_FLAG b = \<lparr>Compress = (b AND 1 = 1), PackType = uint (drop_bit 1 b AND word_of_int MASK)\<rparr>"

text \<open>
  One round of the decoder's loop: either the buffer is short (the loop breaks, remembering a size
  it has read), or the round fails, or it yields a packet.  A frame of length zero has no header
  byte, so \<open>pkgData[0]\<close> panics.
\<close>

datatype frame_result =
    NeedMore nat bytes
  | FrameFail nat bytes read_status
  | Frame Package bytes

definition read_size :: "nat \<Rightarrow> bytes \<Rightarrow> (nat \<times> bytes) option" where
  "read_size ds buf =
     (if ds = 0
      then (if length buf < 4 then None else Some (GET_PACKAGE_SIZE buf, drop 4 buf))
      else Some (ds, buf))"

definition unpack :: "(bytes \<Rightarrow> bytes option) \<Rightarrow> bytes \<Rightarrow> read_status + Package" where
  "unpack zr packageData =
     (case packageData of
        [] \<Rightarrow> Inl (ReadPanic index_out_of_range)
      | flag # dataBlock \<Rightarrow>
          let p_header = GET_FLAG flag; repacked = protocolPack packageData
          in case (if Compress p_header then QUncompress zr dataBlock else Inr dataBlock) of
               Inl err \<Rightarrow> Inl (ReadErr err)
             | Inr unpacked \<Rightarrow>
                 Inr \<lparr>PackageType = PackType p_header, Unpacked = unpacked, Repacked = repacked\<rparr>)"

definition read_frame :: "(bytes \<Rightarrow> bytes option) \<Rightarrow> nat \<Rightarrow> bytes \<Rightarrow> frame_result" where
  "read_frame zr ds buf =
     (case read_size ds buf of
        None \<Rightarrow> NeedMore 0 buf
      | Some (n, buf1) \<Rightarrow>
          (if length buf1 < n then NeedMore n buf1
           else case unpack zr (take n buf1) of
                  Inl st \<Rightarrow> FrameFail n (drop n buf1) st
                | Inr p \<Rightarrow> Frame p (drop n buf1)))"

lemma unpack_nonempty: "unpack zr raw = Inr p \<Longrightarrow> raw \<noteq> []"
  by (auto simp: unpack_def)

lemma unpack_status: "unpack zr raw = Inl st \<Longrightarrow> st \<noteq> ReadOk"
  by (auto simp: unpack_def Let_def split: list.splits sum.splits if_splits)

lemma read_size_length: "read_size ds buf = Some (n, b) \<Longrightarrow> length b \<le> length buf"
  by (auto simp: read_size_def split: if_splits)

lemma read_frame_shrinks: "read_frame zr ds buf = Frame p rest \<Longrightarrow> length rest < length buf"
  by (force simp: read_frame_def split: option.splits if_splits sum.splits
      dest: unpack_nonempty read_size_length)

function read_loop :: "(bytes \<Rightarrow> bytes option) \<Rightarrow> nat \<Rightarrow> bytes \<Rightarrow>
    nat \<times> bytes \<times> Package list \<times> read_status" where
  "read_loop zr ds buf =
     (case read_frame zr ds buf of
        NeedMore d b \<Rightarrow> (d, b, [], ReadOk)
      | FrameFail d b st \<Rightarrow> (d, b, [], st)
      | Frame p b \<Rightarrow>
          (case read_loop zr 0 b of (d, b', ps, st) \<Rightarrow> (d, b', p # ps, st)))"
  by pat_completeness auto
termination
  by (relation "measure (\<lambda>(zr, ds, buf). length buf)") (auto dest: read_frame_shrinks)

declare read_loop.simps [simp del]

definition OnData :: "(bytes \<Rightarrow> bytes option) \<Rightarrow> SocketReader \<Rightarrow> bytes \<Rightarrow>
    SocketReader \<times> Package list \<times> read_status" where
  "OnData zr r chunk =
     (case read_loop zr (dataSize r) (buffer r @ chunk) of
        (d, b, ps, st) \<Rightarrow>
          (r\<lparr>buffer := b, dataSize := d\<rparr>, (if handler r then ps else []), st))"

section \<open>Laws of one round and of the loop\<close>

lemma read_size_append:
  "read_size ds buf = Some (n, b) \<Longrightarrow> read_size ds (buf @ ys) = Some (n, b @ ys)"
  by (auto simp: read_size_def GET_PACKAGE_SIZE_def split: if_splits)

lemma read_size_again: "0 < n \<Longrightarrow> read_size n b = Some (n, b)"
  by (simp add: read_size_def)

lemma read_size_None: "read_size ds buf = None \<Longrightarrow> ds = 0"
  by (simp add: read_size_def split: if_splits)

lemma read_frame_more:
  "read_frame zr ds buf = NeedMore d b \<Longrightarrow> read_frame zr ds (buf @ ys) = read_frame zr d (b @ ys)"
proof (cases "read_size ds buf")
  case None
  then show "read_frame zr ds buf = NeedMore d b \<Longrightarrow> ?thesis"
    by (auto simp: read_frame_def dest: read_size_None)
next
  case (Some nb)
  then show "read_frame zr ds buf = NeedMore d b \<Longrightarrow> ?thesis"
    by (cases nb) (auto simp: read_frame_def read_size_append read_size_again
        split: if_splits sum.splits)
qed

lemma read_frame_done:
  "read_frame zr ds buf = Frame p b \<Longrightarrow> read_frame zr ds (buf @ ys) = Frame p (b @ ys)"
  by (cases "read_size ds buf")
     (auto simp: read_frame_def not_less read_size_append split: if_splits sum.splits)

lemma read_frame_fail:
  "read_frame zr ds buf = FrameFail d b st \<Longrightarrow> read_frame zr ds (buf @ ys) = FrameFail d (b @ ys) st"
  by (cases "read_size ds buf")
     (auto simp: read_frame_def not_less read_size_append split: if_splits sum.splits)

lemma read_frame_fail_status: "read_frame zr ds buf = FrameFail d b st \<Longrightarrow> st \<noteq> ReadOk"
  by (auto simp: read_frame_def unpack_status split: if_splits option.splits sum.splits)

lemma read_frame_needmore_stable:
  "read_frame zr ds buf = NeedMore d b \<Longrightarrow> read_frame zr d b = NeedMore d b"
  using read_frame_more [of zr ds buf d b "[]"] by simp

lemma read_loop_append:
  "read_loop zr ds (buf @ ys) =
     (case read_loop zr ds buf of
        (d, b, ps, ReadOk) \<Rightarrow>
          (case read_loop zr d (b @ ys) of (d', b', qs, st) \<Rightarrow> (d', b', ps @ qs, st))
      | (d, b, ps, st) \<Rightarrow> (d, b @ ys, ps, st))"
proof (induction zr ds buf rule: read_loop.induct)
  case (1 zr ds buf)
  show ?case
  proof (cases "read_frame zr ds buf")
    case (NeedMore d b)
    then show ?thesis
      by (simp add: read_loop.simps [of zr ds buf] read_loop.simps [of zr ds "buf @ ys"]
          read_loop.simps [of zr d "b @ ys"] read_frame_more split: frame_result.splits prod.splits)
  next
    case (FrameFail d b st)
    then show ?thesis
      using read_frame_fail_status [OF FrameFail]
      by (simp add: read_loop.simps [of zr ds buf] read_loop.simps [of zr ds "buf @ ys"]
          read_frame_fail split: read_status.splits)
  next
    case (Frame p b)
    with "1.IH" show ?thesis
      by (simp add: read_loop.simps [of zr ds buf] read_loop.simps [of zr ds "buf @ ys"]
          read_frame_done split: prod.splits read_status.splits)
  qed
qed

text \<open>The reader is waiting when its last round ran out of bytes, as after every successful call.\<close>

definition waiting :: "(bytes \<Rightarrow> bytes option) \<Rightarrow> SocketReader \<Rightarrow> bool" where
  "waiting zr r \<longleftrightarrow> read_frame zr (dataSize r) (buffer r) = NeedMore (dataSize r) (buffer r)"

lemma read_loop_ok_waiting:
  "read_loop zr ds buf = (d, b, ps, ReadOk) \<Longrightarrow> read_frame zr d b = NeedMore d b"
proof (induction zr ds buf arbitrary: ps rule: read_loop.induct)
  case (1 zr ds buf)
  then show ?case
    by (cases "read_frame zr ds buf")
       (auto simp: read_loop.simps [of zr ds buf] dest: read_frame_needmore_stable
         read_frame_fail_status split: prod.splits)
qed

lemma OnData_waiting: "OnData zr r chunk = (r', ps, ReadOk) \<Longrightarrow> waiting zr r'"
  by (auto simp: OnData_def waiting_def split: prod.splits dest: read_loop_ok_waiting)

lemma OnData_handler: "OnData zr r chunk = (r', ps, st) \<Longrightarrow> handler r' = handler r"
  by (auto simp: OnData_def split: prod.splits)

lemma waiting_New [simp]: "waiting zr (RegisterHandler NewSocketReader)"
  by (simp add: waiting_def RegisterHandler_def NewSocketReader_def read_frame_def read_size_def)

lemma OnData_Nil: "waiting zr r \<Longrightarrow> OnData zr r [] = (r, [], ReadOk)"
  by (simp add: OnData_def waiting_def read_loop.simps)

lemma OnData_append:
  "OnData zr r (xs @ ys) =
     (case OnData zr r xs of
        (r1, ps, ReadOk) \<Rightarrow> (case OnData zr r1 ys of (r2, qs, st) \<Rightarrow> (r2, ps @ qs, st))
      | (r1, ps, st) \<Rightarrow> (r1\<lparr>buffer := buffer r1 @ ys\<rparr>, ps, st))"
  using read_loop_append [of zr "dataSize r" "buffer r @ xs" ys]
  by (auto simp: OnData_def split: prod.splits read_status.splits)

text \<open>
  The reads of one connection, one \<open>OnData\<close> per read, stopping at the first failure as
  \<open>RunReadLoop\<close> does.
\<close>

fun OnData_reads :: "(bytes \<Rightarrow> bytes option) \<Rightarrow> SocketReader \<Rightarrow> bytes list \<Rightarrow>
    SocketReader \<times> Package list \<times> read_status" where
  "OnData_reads zr r [] = (r, [], ReadOk)"
| "OnData_reads zr r (c # cs) =
     (case OnData zr r c of
        (r1, ps, ReadOk) \<Rightarrow> (case OnData_reads zr r1 cs of (r2, qs, st) \<Rightarrow> (r2, ps @ qs, st))
      | (r1, ps, st) \<Rightarrow> (r1, ps, st))"

lemma OnData_reads_concat:
  "waiting zr r \<Longrightarrow> OnData zr r (concat cs) = (r', ps, ReadOk) \<Longrightarrow>
   OnData_reads zr r cs = (r', ps, ReadOk)"
proof (induction cs arbitrary: r ps)
  case Nil
  then show ?case by (simp add: OnData_Nil)
next
  case (Cons c cs)
  from Cons.prems(2) obtain r1 ps1 ps2 where 1: "OnData zr r c = (r1, ps1, ReadOk)"
    and 2: "OnData zr r1 (concat cs) = (r', ps2, ReadOk)" and "ps = ps1 @ ps2"
    by (auto simp: OnData_append split: prod.splits read_status.splits)
  moreover have "OnData_reads zr r1 cs = (r', ps2, ReadOk)"
    using OnData_waiting [OF 1] 2 by (rule Cons.IH)
  ultimately show ?case by simp
qed

section \<open>Encoding then decoding\<close>

lemma GET_PACKAGE_SIZE_be32:
  "int n < 2 ^ 32 \<Longrightarrow> GET_PACKAGE_SIZE (be32 (int n) @ xs) = n"
  using un_be32_be32 [of "int n" "[]"] by (simp add: GET_PACKAGE_SIZE_def)

lemma GET_FLAG_header_bits:
  assumes "PackType h \<in> {0..3}"
  shows "GET_FLAG (header_bits h) = h"
proof -
  from assms consider "PackType h = 0" | "PackType h = 1" | "PackType h = 2" | "PackType h = 3"
    by fastforce
  then show ?thesis
    by cases (cases h; cases "Compress h";
        simp add: GET_FLAG_def header_bits_def pack_types)+
qed

lemma read_frame_protocolPack:
  "length raw < 2 ^ 32 \<Longrightarrow>
   read_frame zr 0 (protocolPack raw @ xs) =
     (case unpack zr raw of Inl st \<Rightarrow> FrameFail (length raw) xs st | Inr p \<Rightarrow> Frame p xs)"
  by (simp add: read_frame_def read_size_def protocolPack_be32 GET_PACKAGE_SIZE_be32
      split: sum.splits)

lemma read_loop_protocolPack:
  "length raw < 2 ^ 32 \<Longrightarrow> unpack zr raw = Inr p \<Longrightarrow>
   read_loop zr 0 (protocolPack raw @ xs) =
     (case read_loop zr 0 xs of (d, b, ps, st) \<Rightarrow> (d, b, p # ps, st))"
  by (simp add: read_loop.simps [of zr 0 "protocolPack raw @ xs"] read_frame_protocolPack)

lemma read_loop_Nil: "read_loop zr 0 [] = (0, [], [], ReadOk)"
  by (simp add: read_loop.simps read_frame_def read_size_def)

text \<open>What a peer that sends a header and a body puts on the wire, and what it should arrive as.\<close>

definition sendable :: "(bytes \<Rightarrow> bytes) \<Rightarrow> PackHeader \<times> bytes \<Rightarrow> bool" where
  "sendable zw m \<longleftrightarrow> PackType (fst m) \<in> {0..3} \<and>
     (case bufferToPack zw (snd m) (fst m) of Inl e \<Rightarrow> False | Inr raw \<Rightarrow> length raw < 2 ^ 32)"

definition arrives_as :: "(bytes \<Rightarrow> bytes) \<Rightarrow> PackHeader \<times> bytes \<Rightarrow> Package" where
  "arrives_as zw m =
     \<lparr>PackageType = PackType (fst m), Unpacked = snd m, Repacked = AssamblePack zw (fst m) (snd m)\<rparr>"

definition stream_of :: "(bytes \<Rightarrow> bytes) \<Rightarrow> (PackHeader \<times> bytes) list \<Rightarrow> bytes" where
  "stream_of zw ms = concat (map (\<lambda>m. AssamblePack zw (fst m) (snd m)) ms)"

context zlib_codec
begin

lemma unpack_bufferToPack:
  "PackType h \<in> {0..3} \<Longrightarrow> bufferToPack zw d h = Inr raw \<Longrightarrow>
   unpack zr raw = Inr \<lparr>PackageType = PackType h, Unpacked = d, Repacked = protocolPack raw\<rparr>"
  by (auto simp: bufferToPack_def unpack_def Let_def GET_FLAG_header_bits uncompress_compress
      split: sum.splits if_splits)

lemma read_loop_stream:
  "\<forall>m \<in> set ms. sendable zw m \<Longrightarrow>
   read_loop zr 0 (stream_of zw ms) = (0, [], map (arrives_as zw) ms, ReadOk)"
proof (induction ms)
  case Nil
  then show ?case by (simp add: stream_of_def read_loop_Nil)
next
  case (Cons m ms)
  then obtain raw where raw: "bufferToPack zw (snd m) (fst m) = Inr raw" "length raw < 2 ^ 32"
    and "PackType (fst m) \<in> {0..3}"
    by (auto simp: sendable_def split: sum.splits)
  then have "read_loop zr 0 (protocolPack raw @ stream_of zw ms) =
      (0, [], arrives_as zw m # map (arrives_as zw) ms, ReadOk)"
    using Cons
    by (simp add: read_loop_protocolPack unpack_bufferToPack arrives_as_def AssamblePack_def)
  then show ?case
    by (simp add: stream_of_def AssamblePack_def raw)
qed

lemma OnData_reads_stream:
  assumes "\<forall>m \<in> set ms. sendable zw m" and "concat cs = stream_of zw ms"
  shows "OnData_reads zr (RegisterHandler NewSocketReader) cs =
    (RegisterHandler NewSocketReader, map (arrives_as zw) ms, ReadOk)"
proof (rule OnData_reads_concat)
  show "OnData zr (RegisterHandler NewSocketReader) (concat cs) =
      (RegisterHandler NewSocketReader, map (arrives_as zw) ms, ReadOk)"
    using assms
    by (simp add: OnData_def RegisterHandler_def NewSocketReader_def read_loop_stream)
qed simp

end

section \<open>The relayed bytes\<close>

text \<open>The part of the stream the reader still holds: a size it has consumed, and its buffer.\<close>

definition held :: "nat \<Rightarrow> bytes \<Rightarrow> bytes" where
  "held ds buf = (if ds = 0 then [] else be32 (int ds)) @ buf"

lemma unpack_Repacked: "unpack zr raw = Inr p \<Longrightarrow> Repacked p = protocolPack raw"
  by (auto simp: unpack_def Let_def split: list.splits sum.splits if_splits)

lemma read_size_held:
  "read_size ds buf = Some (n, b) \<Longrightarrow> held ds buf = be32 (int n) @ b"
  by (auto simp: read_size_def held_def GET_PACKAGE_SIZE_def be32_un_be32 not_less split: if_splits)

lemma held_0 [simp]: "held 0 b = b"
  by (simp add: held_def)

lemma read_frame_held:
  "read_frame zr ds buf = NeedMore d b \<Longrightarrow> held ds buf = held d b"
  "read_frame zr ds buf = Frame p b \<Longrightarrow> held ds buf = Repacked p @ b"
proof -
  assume more: "read_frame zr ds buf = NeedMore d b"
  show "held ds buf = held d b"
  proof (cases "read_size ds buf")
    case None
    with more show ?thesis by (auto simp: read_frame_def dest: read_size_None)
  next
    case (Some nb)
    with more show ?thesis
      by (cases nb) (auto simp: read_frame_def read_size_held held_def [of d] split: if_splits sum.splits)
  qed
next
  assume "read_frame zr ds buf = Frame p b"
  then show "held ds buf = Repacked p @ b"
    by (auto simp: read_frame_def protocolPack_be32 read_size_held unpack_Repacked
        split: option.splits if_splits sum.splits)
qed

lemma read_loop_held:
  "read_loop zr ds buf = (d, b, ps, ReadOk) \<Longrightarrow>
   held ds buf = concat (map Repacked ps) @ held d b"
proof (induction zr ds buf arbitrary: ps rule: read_loop.induct)
  case (1 zr ds buf)
  then show ?case
    by (cases "read_frame zr ds buf")
       (auto simp: read_loop.simps [of zr ds buf] read_frame_held
         dest: read_frame_fail_status split: prod.splits)
qed

lemma held_append: "held ds (buf @ c) = held ds buf @ c"
  by (simp add: held_def)

end
