(* ===== verification/Connection.thy ===== *)
theory Connection
  imports Wire
begin

text \<open>
  \<open>src/src/server/pkg/Socket/Socket.go\<close>: one TCP connection.  The state keeps what the code keeps
  (the open connection, the \<open>sync.Once\<close> of \<open>Close\<close>, the packet channel, the close callbacks) and
  the bytes written so far.  The network decides what a \<open>Write\<close> returns, so its outcome is an
  argument.  The packets of one connection are handed over by one goroutine each
  (\<open>go r.handler(p)\<close>); the relation \<open>delivers\<close> describes what the consumer of \<open>packageChan\<close> can see.
\<close>

section \<open>State and writing\<close>

text \<open>
  \<open>closeFlag\<close> is a \<open>sync.Once\<close>: a second caller waits for a running first one.  A close callback
  is the closure \<open>func() { clientCloseChan <- true }\<close> of a client goroutine, named by a number;
  \<open>listening\<close> says whether that goroutine still receives from its channel.
\<close>

datatype once = OnceFresh | OnceRunning | OnceDone

record SocketClient =
  con_open :: bool
  con_out :: bytes
  closeFlag :: once
  packageChan_closed :: bool
  closeCallbackList :: "nat list"

definition MakeSocketClient :: SocketClient where
  "MakeSocketClient = \<lparr>con_open = True, con_out = [], closeFlag = OnceFresh,
     packageChan_closed = False, closeCallbackList = []\<rparr>"

definition RegisterCloseCallback :: "nat \<Rightarrow> SocketClient \<Rightarrow> SocketClient" where
  "RegisterCloseCallback cb c = c\<lparr>closeCallbackList := closeCallbackList c @ [cb]\<rparr>"

text \<open>
  The result of \<open>net.TCPConn.Write\<close>: \<open>None\<close> when everything was taken, \<open>Some k\<close> when the
  connection failed after \<open>k\<close> bytes.  Writing to a closed connection fails at once.
\<close>

definition WriteRaw :: "nat option \<Rightarrow> SocketClient \<Rightarrow> bytes \<Rightarrow> SocketClient \<times> int \<times> string option" where
  "WriteRaw fault c data =
     (if \<not> con_open c then (c, 0, Some ''use of closed network connection'')
      else case fault of
             None \<Rightarrow> (c\<lparr>con_out := con_out c @ data\<rparr>, int (length data), None)
           | Some k \<Rightarrow> (c\<lparr>con_out := con_out c @ take k data\<rparr>, int (min k (length data)),
                        Some ''write failed''))"

definition sendPack :: "nat option \<Rightarrow> SocketClient \<Rightarrow> bytes \<Rightarrow> SocketClient \<times> int \<times> string option" where
  "sendPack fault c data = WriteRaw fault c (protocolPack data)"

definition send_typed :: "(bytes \<Rightarrow> bytes) \<Rightarrow> int \<Rightarrow> nat option \<Rightarrow> SocketClient \<Rightarrow> bytes \<Rightarrow>
    SocketClient \<times> int \<times> string option" where
  "send_typed zw t fault c data =
     (case bufferToPack zw data \<lparr>Compress = True, PackType = t\<rparr> of
        Inl err \<Rightarrow> (c, 0, Some err)
      | Inr result \<Rightarrow> sendPack fault c result)"

definition SendDataPack where "SendDataPack zw = send_typed zw DATA"
definition SendMessagePack where "SendMessagePack zw = send_typed zw MESSAGE"
definition SendCommandPack where "SendCommandPack zw = send_typed zw COMMAND"
definition SendManagerPack where "SendManagerPack zw = send_typed zw MANAGER"

lemma send_typed_out:
  "con_open c \<Longrightarrow> send_typed zw t None c data =
     (c\<lparr>con_out := con_out c @ AssamblePack zw \<lparr>Compress = True, PackType = t\<rparr> data\<rparr>,
      int (length (AssamblePack zw \<lparr>Compress = True, PackType = t\<rparr> data)), None)"
  by (simp add: send_typed_def sendPack_def WriteRaw_def AssamblePack_def bufferToPack_def
      QCompress_header)

section \<open>Closing\<close>

fun run_callbacks :: "(nat \<Rightarrow> bool) \<Rightarrow> nat list \<Rightarrow> nat list \<times> bool" where
  "run_callbacks listening [] = ([], True)"
| "run_callbacks listening (cb # cbs) =
     (if listening cb
      then (case run_callbacks listening cbs of (done, returned) \<Rightarrow> (cb # done, returned))
      else ([], False))"

text \<open>
  \<open>Close\<close> yields the new state, the callbacks that ran, and whether the call returns: a callback
  whose receiver is gone blocks it for good.
\<close>

definition Socket_Close :: "(nat \<Rightarrow> bool) \<Rightarrow> SocketClient \<Rightarrow> SocketClient \<times> nat list \<times> bool" where
  "Socket_Close listening c =
     (case closeFlag c of
        OnceDone \<Rightarrow> (c, [], True)
      | OnceRunning \<Rightarrow> (c, [], False)
      | OnceFresh \<Rightarrow>
          (let c1 = c\<lparr>con_open := False, packageChan_closed := True\<rparr>
           in case run_callbacks listening (closeCallbackList c) of
                (done, True) \<Rightarrow> (c1\<lparr>closeCallbackList := [], closeFlag := OnceDone\<rparr>, done, True)
              | (done, False) \<Rightarrow> (c1\<lparr>closeFlag := OnceRunning\<rparr>, done, False)))"

lemma run_callbacks_all: "(\<forall>cb \<in> set cbs. listening cb) \<Longrightarrow> run_callbacks listening cbs = (cbs, True)"
  by (induction cbs) auto

lemma run_callbacks_returns: "snd (run_callbacks listening cbs) \<longleftrightarrow> (\<forall>cb \<in> set cbs. listening cb)"
  by (induction cbs) (auto split: prod.splits)

lemma run_callbacks_prefix:
  "fst (run_callbacks listening cbs) = takeWhile listening cbs"
  by (induction cbs) (auto split: prod.splits)

lemma Socket_Close_fresh:
  assumes "closeFlag c = OnceFresh" and "Socket_Close listening c = (c', done, returned)"
  shows "\<not> con_open c' \<and> packageChan_closed c' \<and> done = takeWhile listening (closeCallbackList c) \<and>
    (returned \<longleftrightarrow> (\<forall>cb \<in> set (closeCallbackList c). listening cb))"
  using assms run_callbacks_returns [of listening "closeCallbackList c"]
    run_callbacks_prefix [of listening "closeCallbackList c"]
  by (auto simp: Socket_Close_def Let_def split: prod.splits bool.splits)

section \<open>The read loop\<close>

text \<open>One \<open>con.Read\<close> into the 128-byte buffer fails or yields at most 128 bytes.\<close>

datatype con_read = ReadFails | ReadGot bytes

datatype loop_status = LoopReading | LoopStopped bool | LoopCrashed panic

text \<open>
  \<open>RunReadLoop\<close> over the reads the network delivers: the reader, the connection, the packets
  handed to the handler in order, and how it ended.  \<open>LoopStopped\<close> carries whether \<open>Close\<close>
  returned.  No deferred function recovers a panic of \<open>OnData\<close>, so it ends the process.
\<close>

fun read_events :: "(bytes \<Rightarrow> bytes option) \<Rightarrow> (nat \<Rightarrow> bool) \<Rightarrow> SocketReader \<Rightarrow> SocketClient \<Rightarrow>
    con_read list \<Rightarrow> SocketReader \<times> SocketClient \<times> Package list \<times> loop_status" where
  "read_events zr listening r c [] = (r, c, [], LoopReading)"
| "read_events zr listening r c (ReadFails # evs) =
     (case Socket_Close listening c of
        (c', done, returned) \<Rightarrow> (UnregisterHandler r, c', [], LoopStopped returned))"
| "read_events zr listening r c (ReadGot chunk # evs) =
     (if chunk = [] then read_events zr listening r c evs
      else case OnData zr r chunk of
             (r1, ps, ReadOk) \<Rightarrow>
               (case read_events zr listening r1 c evs of
                  (r2, c2, qs, st) \<Rightarrow> (r2, c2, ps @ qs, st))
           | (r1, ps, ReadErr err) \<Rightarrow>
               (case Socket_Close listening c of
                  (c', done, returned) \<Rightarrow> (UnregisterHandler r1, c', ps, LoopStopped returned))
           | (r1, ps, ReadPanic p) \<Rightarrow> (r1, c, ps, LoopCrashed p))"

definition RunReadLoop :: "(bytes \<Rightarrow> bytes option) \<Rightarrow> (nat \<Rightarrow> bool) \<Rightarrow> SocketReader \<Rightarrow>
    SocketClient \<Rightarrow> con_read list \<Rightarrow> SocketReader \<times> SocketClient \<times> Package list \<times> loop_status" where
  "RunReadLoop zr listening r c evs = read_events zr listening (RegisterHandler r) c evs"

lemma read_events_ok:
  "OnData_reads zr r cs = (r', ps, ReadOk) \<Longrightarrow> [] \<notin> set cs \<Longrightarrow>
   read_events zr listening r c (map ReadGot cs @ evs) =
     (case read_events zr listening r' c evs of (r2, c2, qs, st) \<Rightarrow> (r2, c2, ps @ qs, st))"
proof (induction cs arbitrary: r ps)
  case Nil
  then show ?case by (simp split: prod.splits)
next
  case (Cons x xs)
  then show ?case
    by (fastforce split: prod.splits read_status.splits)
qed

section \<open>Handing packets over\<close>

text \<open>
  \<open>pool\<close> holds the packets whose goroutine is blocked on the unbuffered channel, \<open>got\<close> what the
  consumer received, in order.  A send on the closed channel panics and is recovered: the packet
  is dropped (\<open>lost\<close>).
\<close>

record delivery =
  pool :: "Package multiset"
  got :: "Package list"
  chan_closed :: bool
  lost :: "Package multiset"

inductive delivers :: "Package list \<Rightarrow> delivery \<Rightarrow> bool" where
  start: "delivers [] \<lparr>pool = {#}, got = [], chan_closed = False, lost = {#}\<rparr>"
| spawn: "delivers ps s \<Longrightarrow> delivers (ps @ [p]) (s\<lparr>pool := pool s + {#p#}\<rparr>)"
| receive: "delivers ps s \<Longrightarrow> \<not> chan_closed s \<Longrightarrow> p \<in># pool s \<Longrightarrow>
    delivers ps (s\<lparr>pool := pool s - {#p#}, got := got s @ [p]\<rparr>)"
| close_chan: "delivers ps s \<Longrightarrow> delivers ps (s\<lparr>chan_closed := True\<rparr>)"
| drop_send: "delivers ps s \<Longrightarrow> chan_closed s \<Longrightarrow> p \<in># pool s \<Longrightarrow>
    delivers ps (s\<lparr>pool := pool s - {#p#}, lost := lost s + {#p#}\<rparr>)"

lemma delivers_conserves: "delivers ps s \<Longrightarrow> mset ps = pool s + mset (got s) + lost s"
  by (induction rule: delivers.induct) (auto simp: multiset_eq_iff)

lemma delivers_spawn_all:
  "delivers ps \<lparr>pool = mset ps, got = [], chan_closed = False, lost = {#}\<rparr>"
proof (induction ps rule: rev_induct)
  case Nil
  then show ?case using delivers.start by simp
next
  case (snoc p ps)
  then show ?case by (drule_tac delivers.spawn [where p = p]) simp
qed

lemma delivers_receive_all:
  "delivers ps s \<Longrightarrow> \<not> chan_closed s \<Longrightarrow> mset qs \<subseteq># pool s \<Longrightarrow>
   delivers ps (s\<lparr>pool := pool s - mset qs, got := got s @ qs\<rparr>)"
proof (induction qs arbitrary: s)
  case Nil
  then show ?case by simp
next
  case (Cons q qs)
  let ?t = "s\<lparr>pool := pool s - {#q#}, got := got s @ [q]\<rparr>"
  have "q \<in># pool s" and "mset qs \<subseteq># pool ?t"
    using Cons.prems(3) by (auto simp: insert_subset_eq_iff)
  then have "delivers ps (?t\<lparr>pool := pool ?t - mset qs, got := got ?t @ qs\<rparr>)"
    using Cons.prems by (intro Cons.IH delivers.receive) simp_all
  then show ?case by (simp add: diff_diff_add)
qed

end
