(* ===== verification/RadioQueue.thy ===== *)
theory RadioQueue
  imports BufFile Connection
begin

text \<open>
  \<open>src/src/server/pkg/Radio/Utils.go\<close> and the chunk types of \<open>Radio.go\<close>: the queue of chunks one
  client still has to be sent.  A \<open>RAMChunk\<close> carries its bytes; a \<open>FileChunk\<close> names a range of the
  archive and is read when it is sent.  \<open>pending_bytes\<close> is what a queue stands for: the bytes the
  client will receive from it.
\<close>

section \<open>Chunks and the task list\<close>

datatype RadioChunk =
    RAMChunk bytes
  | FileChunk int int

definition CHUNK_SIZE :: int where "CHUNK_SIZE = 1024 * 400"
definition MAX_CHUNKS_IN_QUEUE :: int where "MAX_CHUNKS_IN_QUEUE = 2048"

type_synonym RadioTaskList = "RadioChunk list"

definition PopBack :: "RadioTaskList \<Rightarrow> (RadioChunk \<times> RadioTaskList) go" where
  "PopBack tasks = (if tasks = [] then Inl index_out_of_range else Inr (last tasks, butlast tasks))"

definition PopFront :: "RadioTaskList \<Rightarrow> (RadioChunk \<times> RadioTaskList) go" where
  "PopFront tasks = (if tasks = [] then Inl index_out_of_range else Inr (hd tasks, tl tasks))"

text \<open>Append one element, shift everything right by one (\<open>copy\<close> may overlap), set the first.\<close>

definition PushFront :: "RadioChunk \<Rightarrow> RadioTaskList \<Rightarrow> RadioTaskList" where
  "PushFront chunk tasks =
     (let t1 = tasks @ [chunk];
          t2 = patch 1 (take (length t1 - 1) t1) t1
      in t2[0 := chunk])"

lemma PushFront_Cons: "PushFront chunk tasks = chunk # tasks"
  by (cases tasks) (simp_all add: PushFront_def patch_def Let_def)

section \<open>Splitting\<close>

lemma sdiv_pos_imp: "0 < (b :: int) \<Longrightarrow> 0 < a sdiv b \<Longrightarrow> 0 < a"
  by (auto simp: signed_divide_int_def zero_less_mult_iff sgn_if pos_imp_zdiv_neg_iff split: if_splits)

lemma halving: "0 < (b :: int) \<Longrightarrow> a div (b * 2) = a div b div 2"
  by (simp add: zdiv_zmult2_eq)

text \<open>
  The doubling loop starts from \<open>CHUNK_SIZE\<close>, so the chunk size is positive and stays below
  \<open>2 ^ 53\<close> for any 64-bit length; the guard \<open>0 < real_chunk_size\<close> only makes the function total.
\<close>

function grow_chunk_size :: "int \<Rightarrow> int \<Rightarrow> int" where
  "grow_chunk_size len real_chunk_size =
     (if 0 < real_chunk_size \<and> len sdiv real_chunk_size > MAX_CHUNKS_IN_QUEUE
      then grow_chunk_size len (real_chunk_size * 2)
      else real_chunk_size)"
  by pat_completeness auto
termination
proof (relation "measure (\<lambda>(len, b). nat (len div b))", goal_cases)
  case (2 len b)
  then have "0 < len" "0 < b"
    by (auto simp: MAX_CHUNKS_IN_QUEUE_def intro: sdiv_pos_imp)
  with 2 have "2048 < len div b"
    by (simp add: sdiv_nonneg MAX_CHUNKS_IN_QUEUE_def)
  with \<open>0 < b\<close> show ?case by (simp add: halving)
qed simp

declare grow_chunk_size.simps [simp del]

fun cut_chunks :: "nat \<Rightarrow> int \<Rightarrow> int \<Rightarrow> RadioChunk list \<times> int" where
  "cut_chunks 0 real_chunk_size c_pos = ([], c_pos)"
| "cut_chunks (Suc n) real_chunk_size c_pos =
     (case cut_chunks n real_chunk_size (wrap64 (c_pos + real_chunk_size)) of
        (queue, end_pos) \<Rightarrow> (FileChunk c_pos real_chunk_size # queue, end_pos))"

definition splitChunk :: "int \<Rightarrow> int \<Rightarrow> RadioChunk list" where
  "splitChunk start len =
     (let real_chunk_size = grow_chunk_size len CHUNK_SIZE;
          chunks = len sdiv real_chunk_size
      in case cut_chunks (nat chunks) real_chunk_size start of
           (result_queue, c_pos) \<Rightarrow>
             result_queue @
             (if len smod real_chunk_size > 0 then [FileChunk c_pos (len smod real_chunk_size)] else []))"

definition pushLargeChunk :: "int \<Rightarrow> int \<Rightarrow> RadioTaskList \<Rightarrow> RadioTaskList" where
  "pushLargeChunk start len queue = queue @ splitChunk start len"

definition pushRamChunk :: "bytes \<Rightarrow> RadioTaskList \<Rightarrow> RadioTaskList" where
  "pushRamChunk data queue = queue @ [RAMChunk data]"

definition appendToPendings :: "RadioChunk \<Rightarrow> RadioTaskList \<Rightarrow> RadioTaskList go" where
  "appendToPendings chunk list =
     (case chunk of
        RAMChunk data \<Rightarrow> Inr (pushRamChunk data list)
      | FileChunk start len \<Rightarrow>
          if length list > 0 then
            (case PopBack list of
               Inl p \<Rightarrow> Inl p
             | Inr (bottomItem, rest) \<Rightarrow>
                 (case bottomItem of
                    FileChunk bstart blen \<Rightarrow>
                      let new_length = wrap64 (blen + len)
                      in if wrap64 (bstart + blen) = start
                         then Inr (pushLargeChunk bstart new_length rest)
                         else Inr (pushLargeChunk start len (rest @ [FileChunk bstart blen]))
                  | RAMChunk data \<Rightarrow> Inr (pushLargeChunk start len (rest @ [RAMChunk data]))))
          else Inr (pushLargeChunk start len list))"

section \<open>Sending the front chunk\<close>

text \<open>
  \<open>fetch_item\<close> is the part of \<open>fetchAndSend\<close> before the socket: the remaining queue and the bytes
  to send, if any.  A range that cannot be read in full is put back.
\<close>

definition fetch_item :: "(bytes \<Rightarrow> int \<Rightarrow> (bytes \<times> int \<times> string option) go) \<Rightarrow> RadioTaskList \<Rightarrow>
    (RadioTaskList \<times> bytes option) go" where
  "fetch_item read_at list =
     (if length list \<le> 0 then Inr (list, None)
      else case PopFront list of
             Inl p \<Rightarrow> Inl p
           | Inr (item, rest) \<Rightarrow>
               (case item of
                  FileChunk start len \<Rightarrow>
                    if \<not> make_ok len then Inl makeslice_out_of_range
                    else (case read_at (replicate (nat len) 0) start of
                            Inl p \<Rightarrow> Inl p
                          | Inr (buf, n, err) \<Rightarrow>
                              if n \<noteq> len \<or> err \<noteq> None then Inr (PushFront item rest, None)
                              else Inr (rest, Some buf))
                | RAMChunk data \<Rightarrow> Inr (rest, Some data)))"

definition fetchAndSend :: "nat option \<Rightarrow> SocketClient \<Rightarrow> RadioTaskList \<Rightarrow> BufferedFile \<Rightarrow>
    (SocketClient \<times> RadioTaskList \<times> string option) go" where
  "fetchAndSend fault client list file =
     (case fetch_item (ReadAt file) list of
        Inl p \<Rightarrow> Inl p
      | Inr (rest, None) \<Rightarrow> Inr (client, rest, None)
      | Inr (rest, Some data) \<Rightarrow>
          (case WriteRaw fault client data of (client', n, err) \<Rightarrow> Inr (client', rest, err)))"

section \<open>What a queue stands for\<close>

definition chunk_bytes :: "bytes \<Rightarrow> RadioChunk \<Rightarrow> bytes" where
  "chunk_bytes log chunk =
     (case chunk of
        RAMChunk data \<Rightarrow> data
      | FileChunk start len \<Rightarrow> slice (nat start) (nat len) log)"

definition pending_bytes :: "bytes \<Rightarrow> RadioTaskList \<Rightarrow> bytes" where
  "pending_bytes log tasks = concat (map (chunk_bytes log) tasks)"

definition in_log :: "nat \<Rightarrow> RadioChunk \<Rightarrow> bool" where
  "in_log n chunk \<longleftrightarrow>
     (case chunk of
        RAMChunk data \<Rightarrow> True
      | FileChunk start len \<Rightarrow> 0 \<le> start \<and> 0 \<le> len \<and> start + len \<le> int n)"

definition queue_ok :: "nat \<Rightarrow> RadioTaskList \<Rightarrow> bool" where
  "queue_ok n tasks \<longleftrightarrow> list_all (in_log n) tasks"

lemma pending_bytes_simps [simp]:
  "pending_bytes log [] = []"
  "pending_bytes log (c # cs) = chunk_bytes log c @ pending_bytes log cs"
  "pending_bytes log (xs @ ys) = pending_bytes log xs @ pending_bytes log ys"
  by (simp_all add: pending_bytes_def)

lemma queue_ok_simps [simp]:
  "queue_ok n []"
  "queue_ok n (c # cs) \<longleftrightarrow> in_log n c \<and> queue_ok n cs"
  "queue_ok n (xs @ ys) \<longleftrightarrow> queue_ok n xs \<and> queue_ok n ys"
  by (simp_all add: queue_ok_def)

lemma chunk_simps [simp]:
  "chunk_bytes log (RAMChunk d) = d"
  "chunk_bytes log (FileChunk s l) = slice (nat s) (nat l) log"
  "in_log n (RAMChunk d)"
  "in_log n (FileChunk s l) \<longleftrightarrow> 0 \<le> s \<and> 0 \<le> l \<and> s + l \<le> int n"
  by (simp_all add: chunk_bytes_def in_log_def)

text \<open>The log only grows at its end, so what a queue stands for does not change.\<close>

lemma chunk_bytes_grow: "in_log (length log) c \<Longrightarrow> chunk_bytes (log @ ext) c = chunk_bytes log c"
  by (cases c) (auto intro!: slice_prefix simp: nat_le_iff simp flip: nat_add_distrib)

lemma pending_bytes_grow:
  "queue_ok (length log) q \<Longrightarrow> pending_bytes (log @ ext) q = pending_bytes log q"
  by (induction q) (simp_all add: chunk_bytes_grow)

lemma in_log_mono: "in_log n c \<Longrightarrow> n \<le> m \<Longrightarrow> in_log m c"
  by (cases c) auto

lemma queue_ok_mono: "queue_ok n q \<Longrightarrow> n \<le> m \<Longrightarrow> queue_ok m q"
  by (induction q) (auto intro: in_log_mono)

lemma queue_ok_more: "queue_ok n q \<Longrightarrow> queue_ok (n + k) q"
  by (erule queue_ok_mono) simp

text \<open>A list of file chunks that covers \<open>[s, e)\<close> from left to right without gap or overlap.\<close>

fun tiles :: "int \<Rightarrow> RadioChunk list \<Rightarrow> int \<Rightarrow> bool" where
  "tiles s [] e \<longleftrightarrow> s = e"
| "tiles s (FileChunk p l # cs) e \<longleftrightarrow> p = s \<and> 0 < l \<and> tiles (s + l) cs e"
| "tiles s (RAMChunk d # cs) e \<longleftrightarrow> False"

lemma tiles_le: "tiles s q e \<Longrightarrow> s \<le> e"
  by (induction s q e rule: tiles.induct) auto

lemma tiles_bytes:
  "tiles s q e \<Longrightarrow> 0 \<le> s \<Longrightarrow> pending_bytes log q = slice (nat s) (nat (e - s)) log"
proof (induction s q e rule: tiles.induct)
  case (2 s p l cs e)
  then have "s + l \<le> e" by (auto dest: tiles_le)
  with 2 have "nat (e - s) = nat l + nat (e - (s + l))" and "nat (s + l) = nat s + nat l"
    by auto
  with 2 show ?case by (simp add: slice_adjacent)
qed auto

lemma tiles_queue_ok: "tiles s q e \<Longrightarrow> 0 \<le> s \<Longrightarrow> e \<le> int n \<Longrightarrow> queue_ok n q"
  by (induction s q e rule: tiles.induct) (auto dest: tiles_le)

lemma tiles_append: "tiles s p m \<Longrightarrow> tiles m q e \<Longrightarrow> tiles s (p @ q) e"
  by (induction s p m rule: tiles.induct) auto

section \<open>Splitting covers the range\<close>

lemma grow_chunk_size_ge: "0 < c \<Longrightarrow> c \<le> grow_chunk_size len c"
proof (induction len c rule: grow_chunk_size.induct)
  case (1 len c)
  then show ?case by (subst grow_chunk_size.simps) auto
qed

lemma grow_chunk_size_count: "0 < c \<Longrightarrow> len sdiv grow_chunk_size len c \<le> MAX_CHUNKS_IN_QUEUE"
proof (induction len c rule: grow_chunk_size.induct)
  case (1 len c)
  then show ?case by (auto simp: grow_chunk_size.simps [of len c])
qed

text \<open>The size is doubled only while \<open>MAX_CHUNKS_IN_QUEUE\<close> chunks do not suffice.\<close>

lemma grow_chunk_size_bound:
  "0 < c \<Longrightarrow> grow_chunk_size len c = c \<or> grow_chunk_size len c * 1024 < len"
proof (induction len c rule: grow_chunk_size.induct)
  case (1 len c)
  show ?case
  proof (cases "len sdiv c > MAX_CHUNKS_IN_QUEUE")
    case True
    with "1.prems" have "0 < len"
      by (auto simp: MAX_CHUNKS_IN_QUEUE_def intro: sdiv_pos_imp)
    with True "1.prems" have "2048 < len div c"
      by (simp add: sdiv_nonneg MAX_CHUNKS_IN_QUEUE_def)
    then have "c * 2049 \<le> c * (len div c)"
      using "1.prems" by (intro mult_left_mono) simp_all
    also have "\<dots> \<le> len"
      using "1.prems" by (simp add: minus_mod_eq_mult_div [symmetric])
    finally have "c * 2 * 1024 < len"
      using "1.prems" by simp
    with 1 True show ?thesis by (auto simp: grow_chunk_size.simps [of len c])
  next
    case False
    then show ?thesis by (simp add: grow_chunk_size.simps [of len c])
  qed
qed

lemma cut_chunks_tiles:
  "cut_chunks n c pos = (q, e) \<Longrightarrow> 0 < c \<Longrightarrow> 0 \<le> pos \<Longrightarrow> pos + int n * c < 2 ^ 63 \<Longrightarrow>
   e = pos + int n * c \<and> tiles pos q e \<and> length q = n"
proof (induction n arbitrary: pos q)
  case 0
  then show ?case by simp
next
  case (Suc n)
  have "0 \<le> int n * c" using Suc.prems by simp
  moreover have "int (Suc n) * c = c + int n * c" by (simp add: algebra_simps)
  ultimately have "pos + c < 2 ^ 63" using Suc.prems by linarith
  then have w: "wrap64 (pos + c) = pos + c" using Suc.prems by simp
  from Suc.prems obtain q' where "cut_chunks n c (pos + c) = (q', e)" "q = FileChunk pos c # q'"
    by (auto simp: w split: prod.splits)
  moreover from this have "e = pos + c + int n * c \<and> tiles (pos + c) q' e \<and> length q' = n"
    using Suc.prems \<open>int (Suc n) * c = c + int n * c\<close> by (intro Suc.IH) simp_all
  ultimately show ?case
    using Suc.prems(2) \<open>int (Suc n) * c = c + int n * c\<close> by auto
qed

lemma splitChunk_tiles:
  assumes "0 \<le> start" and "0 \<le> len" and "start + len < 2 ^ 63"
  shows "tiles start (splitChunk start len) (start + len)"
    and "length (splitChunk start len) \<le> 2049"
proof -
  let ?c = "grow_chunk_size len CHUNK_SIZE"
  have c: "0 < ?c" using grow_chunk_size_ge [of CHUNK_SIZE len] by (simp add: CHUNK_SIZE_def)
  let ?n = "nat (len sdiv ?c)"
  obtain q e where q: "cut_chunks ?n ?c start = (q, e)" by force
  have n: "int ?n * ?c = len - len mod ?c" and m: "len smod ?c = len mod ?c"
    using assms c by (simp_all add: sdiv_nonneg smod_nonneg pos_imp_zdiv_nonneg_iff
        minus_mod_eq_div_mult)
  have "0 \<le> len mod ?c" using c by simp
  then have "start + int ?n * ?c < 2 ^ 63" using n assms by linarith
  then have E0: "e = start + int ?n * ?c \<and> tiles start q e \<and> length q = ?n"
    by (rule cut_chunks_tiles [OF q c assms(1)])
  then have E: "e = start + (len - len mod ?c)" "tiles start q e" "length q = ?n"
    unfolding n by blast+
  have "tiles e (if len smod ?c > 0 then [FileChunk e (len smod ?c)] else []) (start + len)"
    using E(1) m \<open>0 \<le> len mod ?c\<close> by auto
  with E(2) q show "tiles start (splitChunk start len) (start + len)"
    by (simp add: splitChunk_def Let_def tiles_append)
  have "?n \<le> 2048"
    using grow_chunk_size_count [of CHUNK_SIZE len]
    by (simp add: CHUNK_SIZE_def MAX_CHUNKS_IN_QUEUE_def)
  with E q show "length (splitChunk start len) \<le> 2049"
    by (simp add: splitChunk_def Let_def)
qed

lemma splitChunk_bytes:
  "0 \<le> start \<Longrightarrow> 0 \<le> len \<Longrightarrow> start + len < 2 ^ 63 \<Longrightarrow>
   pending_bytes log (splitChunk start len) = slice (nat start) (nat len) log"
  using tiles_bytes [OF splitChunk_tiles(1)] by simp

lemma splitChunk_queue_ok:
  "0 \<le> start \<Longrightarrow> 0 \<le> len \<Longrightarrow> start + len < 2 ^ 63 \<Longrightarrow> start + len \<le> int n \<Longrightarrow>
   queue_ok n (splitChunk start len)"
  using tiles_queue_ok [OF splitChunk_tiles(1)] by simp

section \<open>Appending keeps the stream\<close>

lemma appendToPendings_cases:
  "appendToPendings chunk tasks =
     Inr (case chunk of
            RAMChunk d \<Rightarrow> tasks @ [chunk]
          | FileChunk start len \<Rightarrow>
              (case rev tasks of
                 FileChunk bstart blen # before \<Rightarrow>
                   if wrap64 (bstart + blen) = start
                   then rev before @ splitChunk bstart (wrap64 (blen + len))
                   else tasks @ splitChunk start len
               | _ \<Rightarrow> tasks @ splitChunk start len))"
  by (cases tasks rule: rev_cases)
     (auto simp: appendToPendings_def pushRamChunk_def pushLargeChunk_def PopBack_def Let_def
       split: RadioChunk.splits)

lemma appendToPendings_spec:
  assumes "queue_ok n tasks" and "in_log n chunk" and "length log = n" and "int n < 2 ^ 63"
  shows "\<exists>q. appendToPendings chunk tasks = Inr q \<and> queue_ok n q \<and>
    pending_bytes log q = pending_bytes log tasks @ chunk_bytes log chunk"
proof (cases chunk)
  case (RAMChunk d)
  with assms show ?thesis by (simp add: appendToPendings_cases)
next
  case (FileChunk start len)
  note F = FileChunk
  have range: "0 \<le> start" "0 \<le> len" "start + len \<le> int n" "start + len < 2 ^ 63"
    using assms F by auto
  have plain: "queue_ok n (tasks @ splitChunk start len)"
    "pending_bytes log (tasks @ splitChunk start len) = pending_bytes log tasks @ chunk_bytes log chunk"
    using assms F range by (simp_all add: splitChunk_bytes splitChunk_queue_ok)
  show ?thesis
  proof (cases "\<exists>before bs bl. tasks = before @ [FileChunk bs bl] \<and> wrap64 (bs + bl) = start")
    case True
    then obtain before bs bl where t: "tasks = before @ [FileChunk bs bl]" and "wrap64 (bs + bl) = start"
      by blast
    with assms have b: "0 \<le> bs" "0 \<le> bl" "bs + bl = start" by auto
    then have "slice (nat bs) (nat (bl + len)) log = slice (nat bs) (nat bl) log @ slice (nat start) (nat len) log"
      using range by (simp add: slice_adjacent nat_add_distrib flip: \<open>bs + bl = start\<close>)
    then show ?thesis
      using assms F range b t
      by (simp add: appendToPendings_cases splitChunk_bytes splitChunk_queue_ok)
  next
    case False
    then show ?thesis
      using plain F by (cases tasks rule: rev_cases)
        (auto simp: appendToPendings_cases split: RadioChunk.splits)
  qed
qed

section \<open>Fetching over a byte log\<close>

context byte_log
begin

lemma fetch_front:
  assumes "log_inv f" and "length (log_bytes f) \<le> 2 ^ 48" and "queue_ok (length (log_bytes f)) (c # cs)"
  shows "fetch_item (log_read f) (c # cs) = Inr (cs, Some (chunk_bytes (log_bytes f) c))"
proof (cases c)
  case (RAMChunk d)
  then show ?thesis by (simp add: fetch_item_def PopFront_def)
next
  case (FileChunk s l)
  with assms(3) have r: "0 \<le> s" "0 \<le> l" "s + l \<le> int (length (log_bytes f))" by auto
  then have "make_ok l" using assms(2) by (simp add: make_ok_def)
  moreover have "log_read f (replicate (nat l) 0) (int (nat s)) =
      Inr (slice (nat s) (nat l) (log_bytes f), int (nat l), None)"
    using read_law [OF assms(1), of "nat s" "replicate (nat l) 0"] assms(2) r by simp
  ultimately show ?thesis
    using r FileChunk by (simp add: fetch_item_def PopFront_def)
qed

lemma fetch_blocked:
  assumes "log_inv f" and "make_ok l" and "int (length (log_bytes f)) < s + l" and "s + l < 2 ^ 63"
  shows "fetch_item (log_read f) (FileChunk s l # cs) = Inr (FileChunk s l # cs, None)"
  using assms beyond_law [OF assms(1), of s "replicate (nat l) 0"]
  by (simp add: fetch_item_def PopFront_def PushFront_Cons make_ok_def)

end

lemma fetch_huge: "\<not> make_ok l \<Longrightarrow> fetch_item rd (FileChunk s l # cs) = Inl makeslice_out_of_range"
  by (simp add: fetch_item_def PopFront_def)

end
