(* ===== verification/RadioHub.thy ===== *)
theory RadioHub
  imports RadioQueue Hashing "HOL-Library.AList"
begin

text \<open>
  \<open>src/src/server/pkg/Radio/Radio.go\<close>: the broadcaster of one room.  Every client that asked for the
  archive has a goroutine (\<open>processClient\<close>) with a queue; \<open>send\<close> and \<open>write\<close> start one helper
  goroutine per client that hands a chunk to it.  The state names these goroutines by their number
  (the index in \<open>procs\<close>), so that two calls of \<open>AddClient\<close> for one connection have a queue each, as
  in the code, and lists the helpers that have not yet handed over their chunk.  A function is one
  atomic step of one goroutine; the helper steps may come in any order.
\<close>

section \<open>State\<close>

text \<open>\<open>sent\<close> records the bytes the goroutine has written to its connection so far.\<close>

record proc =
  pclient :: nat
  tasks :: RadioTaskList
  alive :: bool
  sent :: bytes

record helper =
  hclient :: nat
  hproc :: nat
  hchunk :: RadioChunk

text \<open>
  \<open>stuck\<close> is set when a goroutine that holds \<open>locker\<close> can never give it back; every operation
  that needs the mutex then waits for ever.
\<close>

record Radio =
  clients :: "(nat \<times> nat) list"
  procs :: "proc list"
  helpers :: "helper list"
  rfile :: BufferedFile
  closed :: bool
  signature :: string
  stuck :: bool

definition locked :: "Radio \<Rightarrow> 'a exec \<Rightarrow> 'a exec" where
  "locked r act = (if stuck r then Blocks else act)"

definition set_tasks :: "nat \<Rightarrow> RadioTaskList \<Rightarrow> Radio \<Rightarrow> Radio" where
  "set_tasks pid q r = r\<lparr>procs := (procs r)[pid := (procs r ! pid)\<lparr>tasks := q\<rparr>]\<rparr>"

section \<open>Operations\<close>

text \<open>A failing open yields the empty \<open>Radio{}\<close> with the error, here \<open>Inl\<close> of the error.\<close>

definition MakeRadio :: "bool \<Rightarrow> bool \<Rightarrow> bytes option \<Rightarrow> string \<Rightarrow> string \<Rightarrow> (string + Radio) go" where
  "MakeRadio open_err stat_err existing fileName sign =
     (case MakeBufferedFile open_err stat_err existing
             \<lparr>FileName = fileName, WriteCycle = 20 * 10 ^ 9, BufferSize = 1024 * 50\<rparr> of
        Inl p \<Rightarrow> Inl p
      | Inr (f, Some err) \<Rightarrow> Inr (Inl err)
      | Inr (f, None) \<Rightarrow>
          Inr (Inr \<lparr>clients = [], procs = [], helpers = [], rfile = f, closed = False,
                    signature = sign, stuck = False\<rparr>))"

definition Radio_Close :: "Radio \<Rightarrow> Radio exec" where
  "Radio_Close r = (if closed r then Panics close_of_closed r else Done (r\<lparr>closed := True\<rparr>))"

definition Radio_Remove :: "disk_env \<Rightarrow> Radio \<Rightarrow> Radio exec" where
  "Radio_Remove env r =
     locked r (case BufferedFile_Close env (rfile r) of
                 Inl p \<Rightarrow> Panics p r
               | Inr (f, err) \<Rightarrow> Done (r\<lparr>rfile := BufferedFile_Remove f\<rparr>))"

definition Signature :: "Radio \<Rightarrow> string" where
  "Signature r = signature r"

definition FileSize :: "Radio \<Rightarrow> int" where
  "FileSize r = WholeSize (rfile r)"

text \<open>\<open>Prune\<close> replaces the queue of every registered client, clears the file and renews the signature.\<close>

definition Prune :: "bool \<Rightarrow> (nat \<Rightarrow> int) \<Rightarrow> Radio \<Rightarrow> Radio exec" where
  "Prune trunc_err Int63 r =
     locked r
       (let r1 = fold (\<lambda>(c, pid). set_tasks pid []) (clients r) r
        in case Clear trunc_err (rfile r1) of
             (f, Some err) \<Rightarrow> Panics (PanicError err) (r1\<lparr>rfile := f\<rparr>)
           | (f, None) \<Rightarrow>
               Done (r1\<lparr>rfile := f, signature := genArchiveSign Int63 (signature r1)\<rparr>))"

text \<open>The range a new client starts with, from the position and the length it asked for.\<close>

definition initial_tasks :: "int \<Rightarrow> int \<Rightarrow> int \<Rightarrow> RadioTaskList" where
  "initial_tasks file_size start len =
     (let startPos = (if start > file_size then file_size else start);
          chunkSize = (if wrap64 (startPos + len) > file_size then len
                       else wrap64 (file_size - startPos))
      in if chunkSize \<noteq> 0 then splitChunk startPos chunkSize else [])"

definition AddClient :: "nat \<Rightarrow> int \<Rightarrow> int \<Rightarrow> Radio \<Rightarrow> Radio exec" where
  "AddClient client start len r =
     locked r
       (Done (r\<lparr>clients := AList.update client (length (procs r)) (clients r),
                procs := procs r @ [\<lparr>pclient = client,
                  tasks = initial_tasks (WholeSize (rfile r)) start len,
                  alive = True, sent = []\<rparr>]\<rparr>))"

definition RemoveClient :: "nat \<Rightarrow> Radio \<Rightarrow> Radio exec" where
  "RemoveClient client r = locked r (Done (r\<lparr>clients := AList.delete client (clients r)\<rparr>))"

definition RemoveAllClients :: "Radio \<Rightarrow> Radio exec" where
  "RemoveAllClients r = locked r (Done (r\<lparr>clients := []\<rparr>))"

section \<open>The client goroutine (processClient)\<close>

definition receive_chunk :: "nat \<Rightarrow> RadioChunk \<Rightarrow> Radio \<Rightarrow> Radio exec" where
  "receive_chunk pid chunk r =
     (case appendToPendings chunk (tasks (procs r ! pid)) of
        Inl p \<Rightarrow> Panics p r
      | Inr q \<Rightarrow> Done (set_tasks pid q r))"

definition stop_proc :: "nat \<Rightarrow> Radio \<Rightarrow> Radio exec" where
  "stop_proc pid r =
     RemoveClient (pclient (procs r ! pid))
       (r\<lparr>procs := (procs r)[pid := (procs r ! pid)\<lparr>alive := False\<rparr>]\<rparr>)"

text \<open>
  One expiry of the 100 ms timer: \<open>fetchAndSend\<close> on the connection \<open>con\<close>; when the write fails the
  goroutine removes its client and ends.
\<close>

definition tick :: "nat option \<Rightarrow> nat \<Rightarrow> Radio \<Rightarrow> Radio exec" where
  "tick fault pid r =
     (let p = procs r ! pid in
      case fetch_item (ReadAt (rfile r)) (tasks p) of
        Inl e \<Rightarrow> Panics e r
      | Inr (q, None) \<Rightarrow> Done (set_tasks pid q r)
      | Inr (q, Some data) \<Rightarrow>
          (case fault of
             None \<Rightarrow> Done (r\<lparr>procs := (procs r)[pid := p\<lparr>tasks := q, sent := sent p @ data\<rparr>]\<rparr>)
           | Some k \<Rightarrow> stop_proc pid (r\<lparr>procs := (procs r)[pid := p\<lparr>tasks := q,
                                          sent := sent p @ take k data\<rparr>]\<rparr>)))"

section \<open>Sending to clients\<close>

text \<open>
  The rendezvous on \<open>sendChan\<close> happens within ten seconds (\<open>ready\<close>) or the code calls
  \<open>RemoveClient\<close> with the mutex already held by this very goroutine.
\<close>

definition singleSend :: "bool \<Rightarrow> bytes \<Rightarrow> nat \<Rightarrow> Radio \<Rightarrow> Radio exec" where
  "singleSend ready data client r =
     locked r
       (case map_of (clients r) client of
          None \<Rightarrow> Done r
        | Some pid \<Rightarrow>
            if ready \<and> alive (procs r ! pid) then receive_chunk pid (RAMChunk data) r
            else Blocks)"

text \<open>The same call as a step of the whole program: the mutex is never released again.\<close>

definition singleSend_state :: "bool \<Rightarrow> bytes \<Rightarrow> nat \<Rightarrow> Radio \<Rightarrow> Radio" where
  "singleSend_state ready data client r =
     (case singleSend ready data client r of
        Done r' \<Rightarrow> r'
      | Panics p r' \<Rightarrow> r'
      | Blocks \<Rightarrow> r\<lparr>stuck := True\<rparr>)"

definition radio_send :: "bytes \<Rightarrow> Radio \<Rightarrow> Radio exec" where
  "radio_send data r =
     locked r
       (Done (r\<lparr>helpers := helpers r @
          map (\<lambda>(c, pid). \<lparr>hclient = c, hproc = pid, hchunk = RAMChunk data\<rparr>) (clients r)\<rparr>))"

text \<open>\<open>write\<close> (here \<open>radio_write\<close>) is two steps: the file is written before the mutex is taken.\<close>

definition write_file :: "disk_env \<Rightarrow> nat option \<Rightarrow> bytes \<Rightarrow> Radio \<Rightarrow> (Radio \<times> int) exec" where
  "write_file env fault data r =
     (let oldPos = WholeSize (rfile r)
      in case Write env fault (rfile r) data of
           (f, n, Some err) \<Rightarrow> Panics (PanicError err) (r\<lparr>rfile := f\<rparr>, oldPos)
         | (f, n, None) \<Rightarrow> Done (r\<lparr>rfile := f\<rparr>, oldPos))"

definition write_bcast :: "int \<Rightarrow> bytes \<Rightarrow> Radio \<Rightarrow> Radio exec" where
  "write_bcast oldPos data r =
     locked r
       (Done (r\<lparr>helpers := helpers r @
          map (\<lambda>(c, pid). \<lparr>hclient = c, hproc = pid,
                 hchunk = FileChunk oldPos (int (length data))\<rparr>) (clients r)\<rparr>))"

definition radio_write :: "disk_env \<Rightarrow> nat option \<Rightarrow> bytes \<Rightarrow> Radio \<Rightarrow> Radio exec" where
  "radio_write env fault data r =
     (case write_file env fault data r of
        Done (r1, oldPos) \<Rightarrow> write_bcast oldPos data r1
      | Panics p (r1, oldPos) \<Rightarrow> Panics p r1
      | Blocks \<Rightarrow> Blocks)"

text \<open>
  \<open>send_helper\<close> and \<open>write_helper\<close>: the \<open>i\<close>-th waiting helper meets its client goroutine, or gives
  up after ten seconds and removes the client.
\<close>

definition drop_helper :: "nat \<Rightarrow> Radio \<Rightarrow> Radio" where
  "drop_helper i r = r\<lparr>helpers := take i (helpers r) @ drop (Suc i) (helpers r)\<rparr>"

definition helper_meets :: "nat \<Rightarrow> Radio \<Rightarrow> Radio exec" where
  "helper_meets i r =
     (let h = helpers r ! i
      in if alive (procs r ! hproc h) then receive_chunk (hproc h) (hchunk h) (drop_helper i r)
         else Blocks)"

definition helper_times_out :: "nat \<Rightarrow> Radio \<Rightarrow> Radio exec" where
  "helper_times_out i r = RemoveClient (hclient (helpers r ! i)) (drop_helper i r)"

text \<open>The receiving loop \<open>run\<close>: what one message does.\<close>

datatype RadioMsg =
    SendMsg bytes
  | SingleSendMsg bytes nat bool
  | WriteMsg bytes disk_env "nat option"

definition run_msg :: "RadioMsg \<Rightarrow> Radio \<Rightarrow> Radio exec" where
  "run_msg msg r =
     (if closed r then Done r
      else case msg of
             SendMsg data \<Rightarrow> radio_send data r
           | SingleSendMsg data client ready \<Rightarrow> singleSend ready data client r
           | WriteMsg data env fault \<Rightarrow> radio_write env fault data r)"

section \<open>The stream of one client goroutine\<close>

text \<open>
  \<open>feed r pid\<close> is the whole stream goroutine \<open>pid\<close> has sent or still has queued.  The invariant
  says that the file is sound, that every registered client has a live goroutine of its own, and
  that no queue reaches beyond the archive.
\<close>

definition feed :: "Radio \<Rightarrow> nat \<Rightarrow> bytes" where
  "feed r pid = sent (procs r ! pid) @ pending_bytes (contents (rfile r)) (tasks (procs r ! pid))"

definition hub_inv :: "Radio \<Rightarrow> bool" where
  "hub_inv r \<longleftrightarrow> bf_inv (rfile r) \<and> \<not> stuck r \<and> distinct (map snd (clients r)) \<and>
     (\<forall>(c, pid) \<in> set (clients r). pid < length (procs r) \<and> pclient (procs r ! pid) = c \<and> alive (procs r ! pid)) \<and>
     (\<forall>pid < length (procs r). queue_ok (length (contents (rfile r))) (tasks (procs r ! pid)))"

definition registered :: "Radio \<Rightarrow> nat \<Rightarrow> bool" where
  "registered r pid \<longleftrightarrow> pid \<in> snd ` set (clients r)"

definition to_registered :: "Radio \<Rightarrow> nat \<Rightarrow> bytes \<Rightarrow> bytes" where
  "to_registered r pid d = (if registered r pid then d else [])"

lemma to_registered_simps [simp]:
  "to_registered r k [] = []"
  "to_registered r k (d @ e) = to_registered r k d @ to_registered r k e"
  "registered r k \<Longrightarrow> to_registered r k d = d"
  by (simp_all add: to_registered_def)

lemma registered_less: "hub_inv r \<Longrightarrow> registered r pid \<Longrightarrow> pid < length (procs r)"
  by (force simp: hub_inv_def registered_def)

lemma set_tasks_simps [simp]:
  "clients (set_tasks pid q r) = clients r" "helpers (set_tasks pid q r) = helpers r"
  "rfile (set_tasks pid q r) = rfile r" "stuck (set_tasks pid q r) = stuck r"
  "length (procs (set_tasks pid q r)) = length (procs r)" "closed (set_tasks pid q r) = closed r"
  "signature (set_tasks pid q r) = signature r"
  by (simp_all add: set_tasks_def)

lemma nth_set_tasks:
  "pid < length (procs r) \<Longrightarrow>
   procs (set_tasks pid q r) ! k = (if k = pid then (procs r ! pid)\<lparr>tasks := q\<rparr> else procs r ! k)"
  by (simp add: set_tasks_def nth_list_update)

lemma hub_inv_set_tasks:
  "hub_inv r \<Longrightarrow> pid < length (procs r) \<Longrightarrow> queue_ok (length (contents (rfile r))) q \<Longrightarrow>
   hub_inv (set_tasks pid q r)"
  by (auto simp: hub_inv_def nth_set_tasks)

lemma receive_chunk_spec:
  assumes "hub_inv r" and "pid < length (procs r)" and "in_log (length (contents (rfile r))) chunk"
    and "int (length (contents (rfile r))) < 2 ^ 63"
  shows "\<exists>q. receive_chunk pid chunk r = Done (set_tasks pid q r) \<and> hub_inv (set_tasks pid q r) \<and>
    (\<forall>k. feed (set_tasks pid q r) k =
       feed r k @ (if k = pid then chunk_bytes (contents (rfile r)) chunk else []))"
proof -
  let ?log = "contents (rfile r)"
  have "queue_ok (length ?log) (tasks (procs r ! pid))"
    using assms by (simp add: hub_inv_def)
  from appendToPendings_spec [OF this assms(3) refl assms(4)]
  obtain q where "appendToPendings chunk (tasks (procs r ! pid)) = Inr q" "queue_ok (length ?log) q"
    "pending_bytes ?log q = pending_bytes ?log (tasks (procs r ! pid)) @ chunk_bytes ?log chunk"
    by blast
  with assms show ?thesis
    by (auto simp: receive_chunk_def feed_def nth_set_tasks intro: hub_inv_set_tasks)
qed

text \<open>Letting the waiting helpers meet their clients first come, first served.\<close>

fun deliver_all :: "nat \<Rightarrow> Radio \<Rightarrow> Radio exec" where
  "deliver_all 0 r = Done r"
| "deliver_all (Suc n) r =
     (case helper_meets 0 r of
        Done r' \<Rightarrow> deliver_all n r'
      | Panics p r' \<Rightarrow> Panics p r'
      | Blocks \<Rightarrow> Blocks)"

definition helpers_for :: "RadioChunk \<Rightarrow> (nat \<times> nat) list \<Rightarrow> helper list" where
  "helpers_for chunk cs = map (\<lambda>(c, pid). \<lparr>hclient = c, hproc = pid, hchunk = chunk\<rparr>) cs"

lemma drop_helper_simps [simp]:
  "clients (drop_helper i r) = clients r" "procs (drop_helper i r) = procs r"
  "rfile (drop_helper i r) = rfile r" "stuck (drop_helper i r) = stuck r"
  "hub_inv (drop_helper i r) = hub_inv r" "feed (drop_helper i r) k = feed r k"
  by (simp_all add: drop_helper_def hub_inv_def feed_def)

lemma deliver_all_spec:
  assumes "hub_inv r" and "helpers r = helpers_for chunk cs" and "set cs \<subseteq> set (clients r)"
    and "distinct (map snd cs)" and "in_log (length (contents (rfile r))) chunk"
    and "int (length (contents (rfile r))) < 2 ^ 63"
  shows "\<exists>r'. deliver_all (length cs) r = Done r' \<and> hub_inv r' \<and> helpers r' = [] \<and>
    clients r' = clients r \<and> rfile r' = rfile r \<and> length (procs r') = length (procs r) \<and>
    (\<forall>k. feed r' k = feed r k @
       (if k \<in> snd ` set cs then chunk_bytes (contents (rfile r)) chunk else []))"
  using assms
proof (induction cs arbitrary: r)
  case Nil
  then show ?case by (simp add: helpers_for_def)
next
  case (Cons x cs)
  obtain c pid where x: "x = (c, pid)" by force
  let ?d = "drop_helper 0 r"
  have pid: "pid < length (procs r)" "alive (procs r ! pid)"
    using Cons.prems(1,3) x by (auto simp: hub_inv_def)
  obtain q where q: "receive_chunk pid chunk ?d = Done (set_tasks pid q ?d)" "hub_inv (set_tasks pid q ?d)"
    and f: "\<And>k. feed (set_tasks pid q ?d) k =
      feed r k @ (if k = pid then chunk_bytes (contents (rfile r)) chunk else [])"
    using receive_chunk_spec [of ?d pid chunk] Cons.prems pid by auto
  have "helper_meets 0 r = Done (set_tasks pid q ?d)"
    using Cons.prems(2) pid q(1) by (simp add: helper_meets_def helpers_for_def x)
  moreover have "helpers (set_tasks pid q ?d) = helpers_for chunk cs"
    using Cons.prems(2) by (simp add: drop_helper_def helpers_for_def)
  moreover have "pid \<notin> snd ` set cs"
    using Cons.prems(4) x by simp
  ultimately show ?case
    using Cons.IH [OF q(2)] Cons.prems(3-) x f by auto
qed

section \<open>Broadcasting in order\<close>

text \<open>A packet of the archive: write it, start the helpers, let them deliver.\<close>

definition broadcast :: "bytes \<Rightarrow> Radio \<Rightarrow> Radio exec" where
  "broadcast data r =
     (case radio_write healthy None data r of
        Done r1 \<Rightarrow> deliver_all (length (helpers r1)) r1
      | Panics p r1 \<Rightarrow> Panics p r1
      | Blocks \<Rightarrow> Blocks)"

definition relay :: "bytes \<Rightarrow> Radio \<Rightarrow> Radio exec" where
  "relay data r =
     (case radio_send data r of
        Done r1 \<Rightarrow> deliver_all (length (helpers r1)) r1
      | Panics p r1 \<Rightarrow> Panics p r1
      | Blocks \<Rightarrow> Blocks)"

lemma grow_file:
  assumes "hub_inv r" and "bf_inv f" and "contents f = contents (rfile r) @ d"
  shows "hub_inv (r\<lparr>rfile := f, helpers := hs\<rparr>)"
    and "\<forall>k < length (procs r). feed (r\<lparr>rfile := f, helpers := hs\<rparr>) k = feed r k"
  using assms
  by (auto simp: hub_inv_def feed_def pending_bytes_grow queue_ok_more)

lemma write_spec:
  assumes "hub_inv r"
  shows "\<exists>f. radio_write healthy None d r =
      Done (r\<lparr>rfile := f, helpers := helpers r @
        helpers_for (FileChunk (WholeSize (rfile r)) (int (length d))) (clients r)\<rparr>) \<and>
    write_file healthy None d r = Done (r\<lparr>rfile := f\<rparr>, WholeSize (rfile r)) \<and>
    bf_inv f \<and> contents f = contents (rfile r) @ d"
proof -
  obtain f where "Write healthy None (rfile r) d = (f, int (length d), None)" "bf_inv f"
    "contents f = contents (rfile r) @ d"
    using bfile.append_law [of "rfile r" d] assms by (auto simp: hub_inv_def)
  with assms show ?thesis
    by (auto simp: radio_write_def write_file_def write_bcast_def locked_def hub_inv_def helpers_for_def)
qed

lemma broadcast_spec:
  assumes "hub_inv r" and "helpers r = []" and "int (length (contents (rfile r)) + length d) < 2 ^ 63"
  shows "\<exists>r'. broadcast d r = Done r' \<and> hub_inv r' \<and> helpers r' = [] \<and> clients r' = clients r \<and>
    length (procs r') = length (procs r) \<and> contents (rfile r') = contents (rfile r) @ d \<and>
    (\<forall>k < length (procs r). feed r' k = feed r k @ to_registered r k d)"
proof -
  let ?c = "FileChunk (WholeSize (rfile r)) (int (length d))"
  obtain f where w: "radio_write healthy None d r = Done (r\<lparr>rfile := f, helpers := helpers_for ?c (clients r)\<rparr>)"
    and f: "bf_inv f" "contents f = contents (rfile r) @ d"
    using write_spec [OF assms(1), of d] assms(2) by auto
  let ?r = "r\<lparr>rfile := f, helpers := helpers_for ?c (clients r)\<rparr>"
  have size: "WholeSize (rfile r) = int (length (contents (rfile r)))"
    using assms(1) by (simp add: hub_inv_def length_contents)
  have "chunk_bytes (contents f) ?c = d"
    using size f by (simp add: slice_def)
  then show ?thesis
    using deliver_all_spec [of ?r ?c "clients r"] grow_file [OF assms(1) f] assms f size w
    by (auto simp: broadcast_def to_registered_def registered_def hub_inv_def helpers_for_def)
qed

lemma relay_spec:
  assumes "hub_inv r" and "helpers r = []" and "int (length (contents (rfile r))) < 2 ^ 63"
  shows "\<exists>r'. relay d r = Done r' \<and> hub_inv r' \<and> helpers r' = [] \<and> clients r' = clients r \<and>
    length (procs r') = length (procs r) \<and> contents (rfile r') = contents (rfile r) \<and>
    (\<forall>k < length (procs r). feed r' k = feed r k @ to_registered r k d)"
proof -
  let ?r = "r\<lparr>helpers := helpers_for (RAMChunk d) (clients r)\<rparr>"
  have "hub_inv ?r" and "\<And>k. feed ?r k = feed r k"
    using assms(1) by (simp_all add: hub_inv_def feed_def)
  moreover have "radio_send d r = Done ?r"
    using assms(1,2) by (simp add: radio_send_def locked_def hub_inv_def helpers_for_def)
  ultimately show ?thesis
    using deliver_all_spec [of ?r "RAMChunk d" "clients r"] assms
    by (auto simp: relay_def to_registered_def registered_def hub_inv_def helpers_for_def)
qed

lemma tick_spec:
  assumes "hub_inv r" and "pid < length (procs r)" and "length (contents (rfile r)) \<le> 2 ^ 48"
  shows "\<exists>r'. tick None pid r = Done r' \<and> hub_inv r' \<and> helpers r' = helpers r \<and>
    clients r' = clients r \<and> length (procs r') = length (procs r) \<and> rfile r' = rfile r \<and>
    (\<forall>k. feed r' k = feed r k) \<and> tasks (procs r' ! pid) = tl (tasks (procs r ! pid))"
proof (cases "tasks (procs r ! pid)")
  case Nil
  then have "tick None pid r = Done (set_tasks pid [] r)"
    by (simp add: tick_def fetch_item_def)
  with Nil assms show ?thesis
    by (auto simp: nth_set_tasks feed_def intro: hub_inv_set_tasks)
next
  case (Cons c cs)
  let ?p = "procs r ! pid" and ?log = "contents (rfile r)"
  have ok: "queue_ok (length ?log) (c # cs)"
    using assms Cons by (metis hub_inv_def)
  have "fetch_item (ReadAt (rfile r)) (c # cs) = Inr (cs, Some (chunk_bytes ?log c))"
    using assms ok by (intro bfile.fetch_front) (simp_all add: hub_inv_def)
  then have "tick None pid r =
      Done (r\<lparr>procs := (procs r)[pid := ?p\<lparr>tasks := cs, sent := sent ?p @ chunk_bytes ?log c\<rparr>]\<rparr>)"
    using Cons by (simp add: tick_def Let_def)
  with assms ok Cons show ?thesis
    by (auto simp: hub_inv_def feed_def nth_list_update)
qed

section \<open>Joining\<close>

lemma initial_tasks_inside:
  "0 \<le> start \<Longrightarrow> 0 \<le> len \<Longrightarrow> start + len \<le> sz \<Longrightarrow> sz < 2 ^ 63 \<Longrightarrow>
   tiles start (initial_tasks sz start len) sz"
  using splitChunk_tiles(1) [of start "sz - start"]
  by (auto simp: initial_tasks_def Let_def)

lemma initial_tasks_beyond:
  "0 \<le> start \<Longrightarrow> start \<le> sz \<Longrightarrow> sz < start + len \<Longrightarrow> start + len < 2 ^ 63 \<Longrightarrow>
   tiles start (initial_tasks sz start len) (start + len)"
  using splitChunk_tiles(1) [of start len]
  by (auto simp: initial_tasks_def Let_def)

lemma set_alist_update: "set (AList.update k v al) \<subseteq> insert (k, v) (set al)"
  by (induction al) auto

lemma alist_update_mem: "(k, v) \<in> set (AList.update k v al)"
  by (induction al) auto

lemma distinct_snd_update:
  "distinct (map snd al) \<Longrightarrow> v \<notin> snd ` set al \<Longrightarrow> distinct (map snd (AList.update k v al))"
proof (induction al)
  case (Cons x al)
  then show ?case
    using set_alist_update [of k v al] by (cases x) (auto simp: image_iff)
qed simp

lemma set_alist_delete: "set (AList.delete k al) \<subseteq> set al"
  by (induction al) auto

lemma AddClient_spec:
  assumes "hub_inv r" and "queue_ok (length (contents (rfile r))) (initial_tasks (WholeSize (rfile r)) start len)"
  shows "\<exists>r'. AddClient c start len r = Done r' \<and> hub_inv r' \<and> helpers r' = helpers r \<and>
    rfile r' = rfile r \<and> length (procs r') = Suc (length (procs r)) \<and> registered r' (length (procs r)) \<and>
    feed r' (length (procs r)) =
      pending_bytes (contents (rfile r)) (initial_tasks (WholeSize (rfile r)) start len) \<and>
    (\<forall>k < length (procs r). feed r' k = feed r k)"
proof -
  let ?n = "length (procs r)"
  have "?n \<notin> snd ` set (clients r)"
    using assms(1) by (auto simp: hub_inv_def)
  then have d: "distinct (map snd (AList.update c ?n (clients r)))"
    using assms(1) by (simp add: hub_inv_def distinct_snd_update)
  have s: "set (AList.update c ?n (clients r)) \<subseteq> insert (c, ?n) (set (clients r))"
    by (rule set_alist_update)
  have m: "?n \<in> snd ` set (AList.update c ?n (clients r))"
    using alist_update_mem by (metis image_eqI snd_conv)
  let ?q = "initial_tasks (WholeSize (rfile r)) start len"
  let ?r = "r\<lparr>clients := AList.update c ?n (clients r),
    procs := procs r @ [\<lparr>pclient = c, tasks = ?q, alive = True, sent = []\<rparr>]\<rparr>"
  have "AddClient c start len r = Done ?r"
    using assms(1) by (simp add: AddClient_def locked_def hub_inv_def)
  moreover have "hub_inv ?r"
    using assms d subsetD [OF s] by (fastforce simp: hub_inv_def nth_append less_Suc_eq)
  moreover have "registered ?r ?n"
    using m by (simp add: registered_def)
  moreover have "feed ?r ?n = pending_bytes (contents (rfile r)) ?q" "\<forall>k < ?n. feed ?r k = feed r k"
    by (simp_all add: feed_def nth_append)
  ultimately show ?thesis by simp
qed

lemma AddClient_archive:
  assumes "hub_inv r" and "0 \<le> start" and "0 \<le> len"
    and "start + len \<le> WholeSize (rfile r)" and "WholeSize (rfile r) < 2 ^ 63"
  shows "\<exists>r'. AddClient c start len r = Done r' \<and> hub_inv r' \<and> helpers r' = helpers r \<and>
    rfile r' = rfile r \<and> length (procs r') = Suc (length (procs r)) \<and> registered r' (length (procs r)) \<and>
    feed r' (length (procs r)) = drop (nat start) (contents (rfile r)) \<and>
    (\<forall>k < length (procs r). feed r' k = feed r k)"
proof -
  let ?q = "initial_tasks (WholeSize (rfile r)) start len" and ?log = "contents (rfile r)"
  have size: "WholeSize (rfile r) = int (length ?log)"
    using assms(1) by (simp add: hub_inv_def length_contents)
  have t: "tiles start ?q (WholeSize (rfile r))"
    using assms by (intro initial_tasks_inside)
  then have "queue_ok (length ?log) ?q"
    using tiles_queue_ok [OF t assms(2), of "length ?log"] size by simp
  moreover have "pending_bytes ?log ?q = slice (nat start) (nat (int (length ?log) - start)) ?log"
    using tiles_bytes [OF t assms(2)] size by simp
  moreover have "nat (int (length ?log) - start) = length ?log - nat start"
    using assms(2) by linarith
  ultimately show ?thesis
    using AddClient_spec [OF assms(1), of start len c] by (simp add: slice_to_end)
qed

section \<open>Runs\<close>

datatype hub_op = Broadcast bytes | Relay bytes | Tick nat

fun hub_step :: "hub_op \<Rightarrow> Radio \<Rightarrow> Radio exec" where
  "hub_step (Broadcast d) r = broadcast d r"
| "hub_step (Relay d) r = relay d r"
| "hub_step (Tick pid) r = tick None pid r"

fun hub_run :: "hub_op list \<Rightarrow> Radio \<Rightarrow> Radio exec" where
  "hub_run [] r = Done r"
| "hub_run (op # ops) r =
     (case hub_step op r of
        Done r' \<Rightarrow> hub_run ops r'
      | Panics p r' \<Rightarrow> Panics p r'
      | Blocks \<Rightarrow> Blocks)"

fun payload :: "hub_op \<Rightarrow> bytes" where
  "payload (Broadcast d) = d"
| "payload (Relay d) = d"
| "payload (Tick pid) = []"

fun archived :: "hub_op \<Rightarrow> bytes" where
  "archived (Broadcast d) = d"
| "archived (Relay d) = []"
| "archived (Tick pid) = []"

fun op_ok :: "nat \<Rightarrow> hub_op \<Rightarrow> bool" where
  "op_ok n (Tick pid) = (pid < n)"
| "op_ok n op = True"

lemma hub_step_spec:
  assumes "hub_inv r" and "helpers r = []" and "op_ok (length (procs r)) op"
    and "length (contents (rfile r)) + length (archived op) \<le> 2 ^ 48"
  shows "\<exists>r'. hub_step op r = Done r' \<and> hub_inv r' \<and> helpers r' = [] \<and> clients r' = clients r \<and>
    length (procs r') = length (procs r) \<and> contents (rfile r') = contents (rfile r) @ archived op \<and>
    (\<forall>k < length (procs r). feed r' k = feed r k @ to_registered r k (payload op))"
proof (cases op)
  case (Broadcast d)
  with assms broadcast_spec [of r d] show ?thesis by simp
next
  case (Relay d)
  with assms relay_spec [of r d] show ?thesis by simp
next
  case (Tick pid)
  with assms tick_spec [of r pid] show ?thesis by auto
qed

lemma hub_run_spec:
  assumes "hub_inv r" and "helpers r = []" and "\<forall>op \<in> set ops. op_ok (length (procs r)) op"
    and "length (contents (rfile r)) + length (concat (map archived ops)) \<le> 2 ^ 48"
  shows "\<exists>r'. hub_run ops r = Done r' \<and> hub_inv r' \<and> helpers r' = [] \<and> clients r' = clients r \<and>
    length (procs r') = length (procs r) \<and>
    contents (rfile r') = contents (rfile r) @ concat (map archived ops) \<and>
    (\<forall>k < length (procs r). feed r' k =
       feed r k @ to_registered r k (concat (map payload ops)))"
  using assms
proof (induction ops arbitrary: r)
  case Nil
  then show ?case by simp
next
  case (Cons op ops)
  then obtain r1 where r1: "hub_step op r = Done r1" "hub_inv r1" "helpers r1 = []"
    "clients r1 = clients r" "length (procs r1) = length (procs r)"
    "contents (rfile r1) = contents (rfile r) @ archived op"
    "\<forall>k < length (procs r). feed r1 k = feed r k @ to_registered r k (payload op)"
    using hub_step_spec [of r op] by auto
  moreover from Cons.IH [OF r1(2,3)] Cons.prems r1 obtain r' where
    "hub_run ops r1 = Done r'" "hub_inv r'" "helpers r' = []" "clients r' = clients r1"
    "length (procs r') = length (procs r1)"
    "contents (rfile r') = contents (rfile r1) @ concat (map archived ops)"
    "\<forall>k < length (procs r1). feed r' k =
       feed r1 k @ to_registered r1 k (concat (map payload ops))"
    by auto
  ultimately show ?case by (simp add: to_registered_def registered_def)
qed

text \<open>Ticking a goroutine as often as its queue is long sends everything it has.\<close>

lemma drain_spec:
  "hub_inv r \<Longrightarrow> pid < length (procs r) \<Longrightarrow> length (contents (rfile r)) \<le> 2 ^ 48 \<Longrightarrow>
   length (tasks (procs r ! pid)) = n \<Longrightarrow>
   \<exists>r'. hub_run (replicate n (Tick pid)) r = Done r' \<and> hub_inv r' \<and>
     tasks (procs r' ! pid) = [] \<and> sent (procs r' ! pid) = feed r pid"
proof (induction n arbitrary: r)
  case 0
  then show ?case by (simp add: feed_def)
next
  case (Suc n)
  obtain r1 where r1: "tick None pid r = Done r1" "hub_inv r1" "rfile r1 = rfile r"
    "length (procs r1) = length (procs r)" "feed r1 pid = feed r pid"
    "tasks (procs r1 ! pid) = tl (tasks (procs r ! pid))"
    using tick_spec [OF Suc.prems(1-3)] by blast
  then have "\<exists>r'. hub_run (replicate n (Tick pid)) r1 = Done r' \<and> hub_inv r' \<and>
     tasks (procs r' ! pid) = [] \<and> sent (procs r' ! pid) = feed r1 pid"
    using Suc.prems by (intro Suc.IH) simp_all
  with r1 show ?case by auto
qed

section \<open>Pruning\<close>

lemma fold_clear_tasks:
  assumes "\<forall>(c, pid) \<in> set cs. pid < length (procs r)"
  shows "let r' = fold (\<lambda>(c, pid). set_tasks pid []) cs r in
    clients r' = clients r \<and> helpers r' = helpers r \<and> rfile r' = rfile r \<and> stuck r' = stuck r \<and>
    signature r' = signature r \<and> closed r' = closed r \<and> length (procs r') = length (procs r) \<and>
    (\<forall>k. procs r' ! k = (if k \<in> snd ` set cs then (procs r ! k)\<lparr>tasks := []\<rparr> else procs r ! k))"
  using assms
proof (induction cs arbitrary: r)
  case Nil
  then show ?case by simp
next
  case (Cons x cs)
  obtain c pid where x: "x = (c, pid)" by force
  with Cons.prems have "pid < length (procs r)" by simp
  with Cons.IH [of "set_tasks pid [] r"] Cons.prems show ?case
    by (auto simp: x Let_def nth_set_tasks)
qed

lemma Prune_spec:
  assumes "hub_inv r"
  shows "\<exists>r'. Prune False Int63 r = Done r' \<and> contents (rfile r') = [] \<and> bf_inv (rfile r') \<and>
    signature r' = genArchiveSign Int63 (signature r) \<and> clients r' = clients r \<and>
    helpers r' = helpers r \<and> length (procs r') = length (procs r) \<and> stuck r' = stuck r \<and>
    closed r' = closed r \<and>
    (\<forall>k. procs r' ! k = (if registered r k then (procs r ! k)\<lparr>tasks := []\<rparr> else procs r ! k))"
proof -
  let ?r1 = "fold (\<lambda>(c, pid). set_tasks pid []) (clients r) r"
  have "\<forall>(c, pid) \<in> set (clients r). pid < length (procs r)" and ns: "\<not> stuck r"
    using assms by (auto simp: hub_inv_def)
  note r1 = fold_clear_tasks [OF this(1), unfolded Let_def]
  obtain f where "Clear False (rfile r) = (f, None)" "bf_inv f" "contents f = []"
    using bfile.clear_law [of "rfile r"] assms by (auto simp: hub_inv_def)
  with r1 ns show ?thesis
    by (auto simp: Prune_def locked_def Let_def registered_def)
qed

text \<open>When every live queue belongs to a registered client, the hub is sound again afterwards.\<close>

lemma Prune_inv:
  assumes "hub_inv r" and "\<forall>pid < length (procs r). registered r pid \<or> tasks (procs r ! pid) = []"
  shows "\<exists>r'. Prune False Int63 r = Done r' \<and> hub_inv r' \<and> contents (rfile r') = []"
proof -
  from Prune_spec [OF assms(1), of Int63] obtain r' where r': "Prune False Int63 r = Done r'"
    "contents (rfile r') = []" "bf_inv (rfile r')" "clients r' = clients r"
    "length (procs r') = length (procs r)" "stuck r' = stuck r"
    "\<And>k. procs r' ! k = (if registered r k then (procs r ! k)\<lparr>tasks := []\<rparr> else procs r ! k)"
    by auto
  then have "hub_inv r'"
    using assms by (auto simp: hub_inv_def)
  with r' show ?thesis by blast
qed

section \<open>Interleavings the code allows\<close>

text \<open>A slow client of \<open>singleSend\<close>: the mutex is lost and every later operation waits for ever.\<close>

lemma singleSend_deadlock:
  assumes "map_of (clients r) c = Some pid" and "\<not> stuck r"
  shows "singleSend False data c r = Blocks \<and> stuck (singleSend_state False data c r)"
  using assms by (simp add: singleSend_def singleSend_state_def locked_def)

lemma stuck_blocks:
  "stuck r \<Longrightarrow> AddClient c s l r = Blocks \<and> RemoveClient c r = Blocks \<and> RemoveAllClients r = Blocks \<and>
     Prune e Int63 r = Blocks \<and> Radio_Remove env r = Blocks \<and> radio_send d r = Blocks \<and>
     write_bcast p d r = Blocks \<and> singleSend b d c r = Blocks"
  by (simp add: AddClient_def RemoveClient_def RemoveAllClients_def Prune_def Radio_Remove_def
      radio_send_def write_bcast_def singleSend_def locked_def)

text \<open>
  A request for \<open>2 ^ 62\<close> bytes: the queue is cut into chunks larger than the runtime can allocate, and
  the first timer tick panics in a goroutine without a deferred recover.
\<close>

lemma splitChunk_huge: "\<exists>rest. splitChunk 0 4611686018427387904 = FileChunk 0 3518437208883200 # rest"
proof -
  have g: "grow_chunk_size 4611686018427387904 CHUNK_SIZE = 3518437208883200"
    by (simp add: CHUNK_SIZE_def grow_chunk_size.simps MAX_CHUNKS_IN_QUEUE_def signed_divide_int_def)
  have n: "nat (4611686018427387904 sdiv 3518437208883200 :: int) = Suc 1309"
    by (simp add: signed_divide_int_def)
  show ?thesis
    unfolding splitChunk_def g Let_def n cut_chunks.simps by (simp split: prod.splits)
qed

lemma initial_tasks_huge:
  assumes "0 \<le> sz" and "sz < 2 ^ 62"
  shows "\<exists>rest. initial_tasks sz 0 (2 ^ 62) = FileChunk 0 3518437208883200 # rest"
  using assms splitChunk_huge by (simp add: initial_tasks_def Let_def)

end
