(* ===== verification/RoomState.thy ===== *)
theory RoomState
  imports RoomMessages Router ConfigReader RadioHub Connection
begin

text \<open>
  The state of a room (\<open>Room.go\<close>) and the helpers its handlers share (\<open>Handlers.go\<close>, \<open>Utils.go\<close>
  under \<open>src/src/server/pkg/Room\<close>): sending to one client directly or through the radio,
  broadcasting, finding, removing and kicking clients, closing the room.  A connection is named by a
  number; the state holds every connection's \<open>SocketClient\<close>.  Each function is what one goroutine
  does in one go; what other goroutines and the outside world decide is in the record \<open>env\<close>.
\<close>

section \<open>State\<close>

record RoomUser =
  clientId :: string
  nickName :: string

text \<open>
  \<open>room_clients\<close> lists the entries of the \<open>sync.Map\<close> in the order one \<open>Range\<close> visits them; the order
  is arbitrary and every statement quantifies over it.  \<open>radio\<close> is \<open>None\<close> for the empty
  \<open>Radio{}\<close> that stays behind when \<open>MakeRadio\<close> fails.  \<open>lastCheck\<close> is in nanoseconds.
  \<open>router_readers\<close> is the number of read locks held on the room's router.
\<close>

record Room =
  ln_open :: bool
  GoingClose :: bool
  router_readers :: nat
  radio :: "Radio option"
  room_clients :: "(nat \<times> RoomUser) list"
  currentClientsCount :: int
  expiration :: int
  key :: string
  archiveSign :: string
  port :: int
  Options :: RoomOption
  lastCheck :: int

text \<open>
  The room with its surroundings: \<open>inbox\<close> is the message the radio's goroutine has taken from a
  channel and not finished (the channels are unbuffered, so there is at most one), \<open>greetings\<close> the
  clients whose one-second timer of \<open>handleJoin\<close> runs, \<open>closers\<close> those whose connection the timer of
  \<open>kickClient\<close> will close, \<open>serving\<close> those whose \<open>processClient\<close> goroutine runs.
\<close>

record world =
  room :: Room
  inbox :: "RadioMsg list"
  socks :: "nat \<Rightarrow> SocketClient"
  greetings :: "nat list"
  closers :: "nat list"
  serving :: "nat list"

text \<open>
  What a step cannot know: the clock, the configuration, how each connection takes a write, which
  close callbacks still have a listener, whether a client goroutine meets the radio within ten
  seconds (\<open>meets\<close>), whether the radio finishes a message before the sender goes on (\<open>prompt\<close>),
  whether the radio accepts a packet within five seconds (\<open>accepts\<close>), and the file system.
\<close>

record env =
  clock :: int
  clock_bytes :: "bytes option"
  conf :: confs
  net_fault :: "nat \<Rightarrow> nat option"
  listens :: "nat \<Rightarrow> bool"
  meets :: "nat \<Rightarrow> bool"
  prompt :: bool
  accepts :: bool
  trunc_fails :: bool
  random63 :: "nat \<Rightarrow> int"
  disk_faults :: disk_env
  write_fault :: "nat option"

definition set_room :: "(Room \<Rightarrow> Room) \<Rightarrow> world \<Rightarrow> world" where
  "set_room f w = w\<lparr>room := f (room w)\<rparr>"

definition set_sock :: "nat \<Rightarrow> SocketClient \<Rightarrow> world \<Rightarrow> world" where
  "set_sock c s w = w\<lparr>socks := (socks w)(c := s)\<rparr>"

section \<open>The radio behind the room\<close>

text \<open>Running a radio operation from the room; \<open>unset\<close> is what it does on the empty \<open>Radio{}\<close>.\<close>

definition on_radio :: "(world \<Rightarrow> world exec) \<Rightarrow> (Radio \<Rightarrow> Radio exec) \<Rightarrow> world \<Rightarrow> world exec" where
  "on_radio unset f w =
     (case radio (room w) of
        None \<Rightarrow> unset w
      | Some r \<Rightarrow>
          (case f r of
             Done r' \<Rightarrow> Done (set_room (\<lambda>m. m\<lparr>radio := Some r'\<rparr>) w)
           | Panics p r' \<Rightarrow> Panics p (set_room (\<lambda>m. m\<lparr>radio := Some r'\<rparr>) w)
           | Blocks \<Rightarrow> Blocks))"

definition radio_RemoveClient :: "nat \<Rightarrow> world \<Rightarrow> world exec" where
  "radio_RemoveClient c = on_radio Done (RemoveClient c)"

definition radio_RemoveAllClients :: "world \<Rightarrow> world exec" where
  "radio_RemoveAllClients = on_radio Done RemoveAllClients"

definition radio_AddClient :: "nat \<Rightarrow> int \<Rightarrow> int \<Rightarrow> world \<Rightarrow> world exec" where
  "radio_AddClient c start len = on_radio (Panics nil_dereference) (AddClient c start len)"

definition radio_Prune :: "env \<Rightarrow> world \<Rightarrow> world exec" where
  "radio_Prune env = on_radio (Panics nil_dereference) (Prune (trunc_fails env) (random63 env))"

definition radio_Close :: "world \<Rightarrow> world exec" where
  "radio_Close = on_radio (Panics (PanicError ''close of nil channel'')) Radio_Close"

definition radio_Remove :: "env \<Rightarrow> world \<Rightarrow> world exec" where
  "radio_Remove env = on_radio (Panics nil_dereference) (Radio_Remove (disk_faults env))"

definition radio_Signature :: "world \<Rightarrow> string" where
  "radio_Signature w = (case radio (room w) of None \<Rightarrow> '''' | Some r \<Rightarrow> Signature r)"

definition with_FileSize :: "(int \<Rightarrow> world \<Rightarrow> world exec) \<Rightarrow> world \<Rightarrow> world exec" where
  "with_FileSize k w =
     (case radio (room w) of None \<Rightarrow> Panics nil_dereference w | Some r \<Rightarrow> k (FileSize r) w)"

text \<open>
  The radio's goroutine finishes the message it holds.  A sender on its unbuffered channels gets
  through once that is done; on the empty radio the channels are nil and sending never returns, on a
  closed radio it panics.
\<close>

definition serve_one :: "RadioMsg \<Rightarrow> world \<Rightarrow> world exec" where
  "serve_one msg = on_radio Done (run_msg msg)"

definition radio_finishes :: "world \<Rightarrow> world exec" where
  "radio_finishes w = each serve_one (inbox w) (w\<lparr>inbox := []\<rparr>)"

definition radio_closed :: "world \<Rightarrow> bool" where
  "radio_closed w = (case radio (room w) of None \<Rightarrow> False | Some r \<Rightarrow> closed r)"

definition hand_over :: "env \<Rightarrow> RadioMsg \<Rightarrow> world \<Rightarrow> world exec" where
  "hand_over env msg w =
     (if radio (room w) = None then Blocks
      else if radio_closed w then Panics send_on_closed w
      else andThen (radio_finishes w) (\<lambda>w1.
             let w2 = w1\<lparr>inbox := [msg]\<rparr>
             in if prompt env then radio_finishes w2 else Done w2))"

text \<open>
  The first action of the radio's \<open>processClient\<close>, a goroutine of its own: it registers its close callback, named by the
  goroutine's number, on the connection it serves.
\<close>

definition processClient_starts :: "nat \<Rightarrow> Radio \<Rightarrow> world \<Rightarrow> world" where
  "processClient_starts pid r w =
     (let client = pclient (procs r ! pid)
      in set_sock client (RegisterCloseCallback pid (socks w client)) w)"

section \<open>Sending\<close>

definition sendTo :: "(bytes \<Rightarrow> bytes) \<Rightarrow> env \<Rightarrow> bytes \<Rightarrow> PackHeader \<Rightarrow> nat \<Rightarrow> world \<Rightarrow> world exec" where
  "sendTo zw env data header client =
     hand_over env (SingleSendMsg (AssamblePack zw header data) client (meets env client))"

text \<open>\<open>json.Marshal\<close> cannot fail on the response types, so its error branch has no counterpart.\<close>

definition sendCommandTo :: "(bytes \<Rightarrow> bytes) \<Rightarrow> env \<Rightarrow> json \<Rightarrow> nat \<Rightarrow> world \<Rightarrow> world exec" where
  "sendCommandTo zw env resp client =
     sendTo zw env (Marshal resp) \<lparr>Compress = True, PackType = COMMAND\<rparr> client"

definition close_sock :: "env \<Rightarrow> nat \<Rightarrow> world \<Rightarrow> world exec" where
  "close_sock env client w =
     (case Socket_Close (listens env) (socks w client) of
        (s, done, returned) \<Rightarrow> if returned then Done (set_sock client s w) else Blocks)"

definition direct_send :: "(nat option \<Rightarrow> SocketClient \<Rightarrow> bytes \<Rightarrow> SocketClient \<times> int \<times> string option) \<Rightarrow>
    env \<Rightarrow> json \<Rightarrow> nat \<Rightarrow> world \<Rightarrow> world exec" where
  "direct_send send_pack env resp client w =
     (case send_pack (net_fault env client) (socks w client) (Marshal resp) of
        (s, n, err) \<Rightarrow>
          (let w1 = set_sock client s w
           in if err = None then Done w1 else close_sock env client w1))"

definition directSendCommand :: "(bytes \<Rightarrow> bytes) \<Rightarrow> env \<Rightarrow> json \<Rightarrow> nat \<Rightarrow> world \<Rightarrow> world exec" where
  "directSendCommand zw = direct_send (SendCommandPack zw)"

definition directSendMessage :: "(bytes \<Rightarrow> bytes) \<Rightarrow> env \<Rightarrow> json \<Rightarrow> nat \<Rightarrow> world \<Rightarrow> world exec" where
  "directSendMessage zw = direct_send (SendMessagePack zw)"

definition broadcastCommand :: "(bytes \<Rightarrow> bytes) \<Rightarrow> env \<Rightarrow> json \<Rightarrow> world \<Rightarrow> world exec" where
  "broadcastCommand zw env resp w =
     each (\<lambda>(client, user). if clientId user \<noteq> '''' then directSendCommand zw env resp client else Done)
       (room_clients (room w)) w"

section \<open>Clients\<close>

definition hasUser :: "world \<Rightarrow> nat \<Rightarrow> bool" where
  "hasUser w u =
     (case map_of (room_clients (room w)) u of None \<Rightarrow> False | Some user \<Rightarrow> clientId user \<noteq> '''')"

definition findClientById :: "world \<Rightarrow> string \<Rightarrow> nat option" where
  "findClientById w cid =
     map_option fst (find (\<lambda>(client, user). clientId user = cid) (room_clients (room w)))"

definition OnlineList :: "world \<Rightarrow> (string \<times> string) list" where
  "OnlineList w = map (\<lambda>(client, user). (nickName user, clientId user)) (room_clients (room w))"

definition CurrentLoad :: "Room \<Rightarrow> int" where
  "CurrentLoad m = currentClientsCount m"

definition Key :: "Room \<Rightarrow> string" where
  "Key m = key m"

definition Port :: "Room \<Rightarrow> int" where
  "Port m = port m"

definition Room_Password :: "Room \<Rightarrow> string" where
  "Room_Password m = Password (Options m)"

text \<open>\<open>atomic.AddInt32\<close> on the counter.\<close>

definition add_count :: "int \<Rightarrow> Room \<Rightarrow> Room" where
  "add_count d m = m\<lparr>currentClientsCount := wrap32 (currentClientsCount m + d)\<rparr>"

definition removeClient :: "nat \<Rightarrow> world \<Rightarrow> world exec" where
  "removeClient client w =
     radio_RemoveClient client
       (set_room (\<lambda>m. add_count (- 1) (m\<lparr>room_clients := AList.delete client (room_clients m)\<rparr>)) w)"

definition removeAllClient :: "world \<Rightarrow> world exec" where
  "removeAllClient w = radio_RemoveAllClients (set_room (\<lambda>m. m\<lparr>room_clients := []\<rparr>) w)"

definition kickClient :: "nat \<Rightarrow> world \<Rightarrow> world exec" where
  "kickClient target w =
     andThen (removeClient target w) (\<lambda>w1. Done (w1\<lparr>closers := closers w1 @ [target]\<rparr>))"

text \<open>The ten-second timer of \<open>kickClient\<close> fires for the \<open>i\<close>-th waiting closer.\<close>

definition closer_fires :: "env \<Rightarrow> nat \<Rightarrow> world \<Rightarrow> world exec" where
  "closer_fires env i w =
     close_sock env (closers w ! i) (w\<lparr>closers := take i (closers w) @ drop (Suc i) (closers w)\<rparr>)"

section \<open>Closing and expiring\<close>

definition Room_Close :: "env \<Rightarrow> world \<Rightarrow> world exec" where
  "Room_Close env w =
     (if GoingClose (room w) then Panics close_of_closed w
      else
        andThen (radio_Close (set_room (\<lambda>m. m\<lparr>GoingClose := True\<rparr>) w)) (\<lambda>w1.
        andThen (radio_Remove env w1) (\<lambda>w2.
        Done (set_room (\<lambda>m. m\<lparr>ln_open := False\<rparr>) w2))))"

definition processEmptyClose :: "env \<Rightarrow> world \<Rightarrow> world exec" where
  "processEmptyClose env w =
     (if currentClientsCount (room w) = 0 \<and> EmptyClose (Options (room w)) then Room_Close env w
      else Done w)"

definition hour :: int where
  "hour = 3600 * 10 ^ 9"

text \<open>\<open>time.Since\<close> and \<open>time.Sub\<close> saturate at the bounds of a \<open>Duration\<close>.\<close>

definition Since :: "env \<Rightarrow> int \<Rightarrow> int" where
  "Since env t = max (- (2 ^ 63)) (min (2 ^ 63 - 1) (clock env - t))"

text \<open>One hourly round of \<open>processExpire\<close>; the flag says whether the loop goes on.\<close>

definition processExpire_round :: "env \<Rightarrow> world \<Rightarrow> (world \<times> bool) exec" where
  "processExpire_round env w =
     (if GoingClose (room w) then Done (w, False)
      else if Since env (lastCheck (room w)) > wrap64 (hour * expiration (room w)) then
        (if currentClientsCount (room w) = 0 then
           (case Room_Close env w of
              Done w' \<Rightarrow> Done (w', True)
            | Panics p w' \<Rightarrow> Panics p (w', False)
            | Blocks \<Rightarrow> Blocks)
         else Done (set_room (\<lambda>m. m\<lparr>Options := (Options m)\<lparr>EmptyClose := True\<rparr>\<rparr>) w, True))
      else Done (w, True))"

section \<open>Greetings\<close>

definition sendAnnouncement :: "(bytes \<Rightarrow> bytes) \<Rightarrow> env \<Rightarrow> nat \<Rightarrow> world \<Rightarrow> world exec" where
  "sendAnnouncement zw env client w =
     (let msg = ReadConfString (conf env) ''announcement'' ''''
      in if msg = '''' then Done w
         else directSendCommand zw env (NotifyAction (msg @ [CHR 0x0A])) client w)"

definition sendWelcomeMsg :: "(bytes \<Rightarrow> bytes) \<Rightarrow> env \<Rightarrow> nat \<Rightarrow> world \<Rightarrow> world exec" where
  "sendWelcomeMsg zw env client w =
     (let msg = WelcomeMsg (Options (room w))
      in if msg = '''' then Done w
         else directSendMessage zw env (WelcomeMsgType (msg @ [CHR 0x0A])) client w)"

text \<open>The UTF-8 bytes of the Chinese text around the number of hours.\<close>

definition hours_before :: string where
  "hours_before =
     [CHR 0xE8, CHR 0xBF, CHR 0x99, CHR 0xE9, CHR 0x97, CHR 0xB4, CHR 0xE6, CHR 0x88, CHR 0xBF,
      CHR 0xE9, CHR 0x97, CHR 0xB4, CHR 0xE8, CHR 0xBF, CHR 0x98, CHR 0xE5, CHR 0x89, CHR 0xA9,
      CHR 0xE4, CHR 0xB8, CHR 0x8B, CHR 0xE7, CHR 0xBA, CHR 0xA6]"

definition hours_after :: string where
  "hours_after = [CHR 0xE5, CHR 0xB0, CHR 0x8F, CHR 0xE6, CHR 0x97, CHR 0xB6]"

definition hours_left :: "env \<Rightarrow> Room \<Rightarrow> int" where
  "hours_left env m = wrap64 (wrap64 (hour * expiration m) - Since env (lastCheck m)) sdiv hour"

definition sendExpirationMsg :: "(bytes \<Rightarrow> bytes) \<Rightarrow> env \<Rightarrow> nat \<Rightarrow> world \<Rightarrow> world exec" where
  "sendExpirationMsg zw env client w =
     directSendMessage zw env
       (WelcomeMsgType (hours_before @ show_int (hours_left env (room w)) @ hours_after @ [CHR 0x0A])) client w"

text \<open>The goroutine \<open>handleJoin\<close> starts, after its second has passed.\<close>

definition greet :: "(bytes \<Rightarrow> bytes) \<Rightarrow> env \<Rightarrow> nat \<Rightarrow> world \<Rightarrow> world exec" where
  "greet zw env i w =
     (let client = greetings w ! i;
          w0 = w\<lparr>greetings := take i (greetings w) @ drop (Suc i) (greetings w)\<rparr> in
      andThen (sendAnnouncement zw env client w0) (\<lambda>w1.
      andThen (sendExpirationMsg zw env client w1)
        (sendWelcomeMsg zw env client)))"

section \<open>The room record\<close>

definition room_info :: "Room \<Rightarrow> RoomRuntimeInfo" where
  "room_info m = \<lparr>info_Key = key m, info_ArchiveSign = archiveSign m, info_Port = port m,
     info_Expiration = expiration m, info_Options = Options m\<rparr>"

definition dumpRoom :: "Room \<Rightarrow> bytes" where
  "dumpRoom m = ToJson (room_info m)"

end
