(* ===== verification/RoomHandlers.thy ===== *)
theory RoomHandlers
  imports RoomState
begin

text \<open>
  The request handlers of a room (\<open>Handlers.go\<close>), the goroutine that serves one client
  (\<open>processClient\<close>), accepting clients (\<open>Run\<close>) and making a room (\<open>init\<close>, \<open>ServeRoom\<close>,
  \<open>RecoverRoom\<close>), all under \<open>src/src/server/pkg/Room\<close>.  \<open>zw\<close> is the compressor.
\<close>

section \<open>Error codes (ErrorCode.go)\<close>

definition NEW_ROOM_UNKOWN :: int where "NEW_ROOM_UNKOWN = 200"
definition NEW_ROOM_SERVER_BUSY :: int where "NEW_ROOM_SERVER_BUSY = 201"
definition NEW_ROOM_NAME_COLLISSION :: int where "NEW_ROOM_NAME_COLLISSION = 202"
definition NEW_ROOM_INVALID_NAME :: int where "NEW_ROOM_INVALID_NAME = 203"
definition NEW_ROOM_INVALID_MAXLOAD :: int where "NEW_ROOM_INVALID_MAXLOAD = 204"
definition NEW_ROOM_INVALID_WELCMSG :: int where "NEW_ROOM_INVALID_WELCMSG = 205"
definition NEW_ROOM_INVALID_EMPTYCLOSE :: int where "NEW_ROOM_INVALID_EMPTYCLOSE = 206"
definition NEW_ROOM_INVALID_PWD :: int where "NEW_ROOM_INVALID_PWD = 207"
definition NEW_ROOM_TOO_MANY_ROOMS :: int where "NEW_ROOM_TOO_MANY_ROOMS = 210"
definition NEW_ROOM_INVALID_CANVAS :: int where "NEW_ROOM_INVALID_CANVAS = 211"
definition LOGIN_UNKOWN :: int where "LOGIN_UNKOWN = 300"
definition LOGIN_INVALID_NAME :: int where "LOGIN_INVALID_NAME = 301"
definition LOGIN_PWD_INCORRECT :: int where "LOGIN_PWD_INCORRECT = 302"
definition LOGIN_ROOM_IS_FULL :: int where "LOGIN_ROOM_IS_FULL = 303"
definition CHECKOUT_UNKNOWN :: int where "CHECKOUT_UNKNOWN = 700"
definition CHECKOUT_KEY_INCORRECT :: int where "CHECKOUT_KEY_INCORRECT = 701"
definition CHECKOUT_TIMEOUT :: int where "CHECKOUT_TIMEOUT = 702"

section \<open>Handlers\<close>

definition JoinRefused :: "int \<Rightarrow> json" where
  "JoinRefused errcode = JoinRoomResponse False (JoinRoomInfo '''' 0 (SizeInfo 0 0) '''') errcode"

definition handleJoin :: "(bytes \<Rightarrow> bytes) \<Rightarrow> env \<Rightarrow> bytes \<Rightarrow> nat \<Rightarrow> world \<Rightarrow> world exec" where
  "handleJoin zw env data client =
     with_request JoinRoomRequest_fields JoinRoomRequest_zero data (\<lambda>req w.
       let m = room w;
           opt = Options m;
           refuse = (\<lambda>errcode. directSendCommand zw env (JoinRefused errcode) client w) in
       if join_password req \<noteq> Password opt then refuse LOGIN_PWD_INCORRECT
       else if CurrentLoad m > MaxLoad opt then refuse LOGIN_ROOM_IS_FULL
       else if length (join_name req) > 32 \<or> length (join_name req) \<le> 0 then refuse LOGIN_INVALID_NAME
       else
         (case map_of (room_clients m) client of
            None \<Rightarrow> refuse LOGIN_UNKOWN
          | Some user \<Rightarrow>
              (let cid = genClientId (ReadConfBytes (conf env) ''globalSaltHash'') (clock_bytes env) (Name opt);
                   w1 = set_room (\<lambda>m. m\<lparr>room_clients :=
                          AList.update client (user\<lparr>clientId := cid, nickName := join_name req\<rparr>) (room_clients m)\<rparr>) w;
                   w2 = w1\<lparr>greetings := greetings w1 @ [client]\<rparr>
               in with_FileSize (\<lambda>fsize.
                    directSendCommand zw env
                      (JoinRoomResponse True
                         (JoinRoomInfo (Name opt) fsize (SizeInfo (Width opt) (Height opt)) cid) 0) client) w2)))"

definition handleHeartbeat :: "(bytes \<Rightarrow> bytes) \<Rightarrow> env \<Rightarrow> bytes \<Rightarrow> nat \<Rightarrow> world \<Rightarrow> world exec" where
  "handleHeartbeat zw env data client =
     with_request HeartbeatRequest_fields HeartbeatRequest_zero data (\<lambda>req.
       sendCommandTo zw env (HeartbeatResponse (heartbeat_timestamp req)) client)"

text \<open>The guard the remaining handlers start with.\<close>

definition if_user :: "nat \<Rightarrow> (world \<Rightarrow> world exec) \<Rightarrow> world \<Rightarrow> world exec" where
  "if_user client k w = (if \<not> hasUser w client then Done w else k w)"

definition handleArchiveSign :: "(bytes \<Rightarrow> bytes) \<Rightarrow> env \<Rightarrow> bytes \<Rightarrow> nat \<Rightarrow> world \<Rightarrow> world exec" where
  "handleArchiveSign zw env data client =
     if_user client (with_request ArchiveSignRequest_fields ArchiveSignRequest_zero data (\<lambda>req w.
       directSendCommand zw env (ArchiveSignResponse True (radio_Signature w) 0) client w))"

text \<open>The length \<open>handleArchive\<close> announces and passes on, from the file size and the request.\<close>

definition archive_length :: "int \<Rightarrow> int \<Rightarrow> int \<Rightarrow> int" where
  "archive_length realLength startPos asked =
     (let dataLength = (if asked \<noteq> 0 then asked else wrap64 (realLength - startPos))
      in if wrap64 (startPos + dataLength) \<le> realLength then wrap64 (realLength - startPos) else dataLength)"

definition handleArchive :: "(bytes \<Rightarrow> bytes) \<Rightarrow> env \<Rightarrow> bytes \<Rightarrow> nat \<Rightarrow> world \<Rightarrow> world exec" where
  "handleArchive zw env data client =
     if_user client (with_request ArchiveRequest_fields ArchiveRequest_zero data (\<lambda>req.
       with_FileSize (\<lambda>realLength w.
         let dataLength = archive_length realLength (archive_start req) (archive_datalength req) in
         andThen
           (directSendCommand zw env (ArchiveResponse True (radio_Signature w) dataLength 0) client w)
           (radio_AddClient client (archive_start req) dataLength))))"

definition handleClearAll :: "(bytes \<Rightarrow> bytes) \<Rightarrow> env \<Rightarrow> bytes \<Rightarrow> nat \<Rightarrow> world \<Rightarrow> world exec" where
  "handleClearAll zw env data client =
     if_user client (with_request ClearAllRequest_fields KeyRequest_zero data (\<lambda>req w.
       if key_key req \<noteq> Key (room w) then sendCommandTo zw env (ClearAllResponse False) client w
       else
         andThen (radio_Prune env w) (\<lambda>w1.
         let w2 = set_room (\<lambda>m. m\<lparr>archiveSign := radio_Signature w1\<rparr>) w1 in
         andThen (sendCommandTo zw env (ClearAllResponse True) client w2)
           (broadcastCommand zw env (ClearAllAction (radio_Signature w2))))))"

definition handleCheckout :: "(bytes \<Rightarrow> bytes) \<Rightarrow> env \<Rightarrow> bytes \<Rightarrow> nat \<Rightarrow> world \<Rightarrow> world exec" where
  "handleCheckout zw env data client =
     if_user client (with_request CheckoutRequest_fields KeyRequest_zero data (\<lambda>req w.
       if key_key req \<noteq> Key (room w)
       then sendCommandTo zw env (CheckoutResponse False 0 CHECKOUT_KEY_INCORRECT) client w
       else if EmptyClose (Options (room w))
       then sendCommandTo zw env (CheckoutResponse False 0 CHECKOUT_TIMEOUT) client w
       else
         sendCommandTo zw env (CheckoutResponse True 0 CHECKOUT_UNKNOWN) client
           (set_room (\<lambda>m. m\<lparr>lastCheck := clock env\<rparr>) w)))"

definition handleKick :: "(bytes \<Rightarrow> bytes) \<Rightarrow> env \<Rightarrow> bytes \<Rightarrow> nat \<Rightarrow> world \<Rightarrow> world exec" where
  "handleKick zw env data client =
     if_user client (with_request KickRequest_fields KickRequest_zero data (\<lambda>req w.
       if kick_key req \<noteq> Key (room w) then sendCommandTo zw env (KickResponse False) client w
       else
         andThen
           (case findClientById w (kick_clientId req) of
              Some cli \<Rightarrow> andThen (sendCommandTo zw env KickAction cli w) (kickClient cli)
            | None \<Rightarrow> Done w)
           (sendCommandTo zw env (KickResponse True) client)))"

definition handleClose :: "(bytes \<Rightarrow> bytes) \<Rightarrow> env \<Rightarrow> bytes \<Rightarrow> nat \<Rightarrow> world \<Rightarrow> world exec" where
  "handleClose zw env data client =
     if_user client (with_request CloseRequest_fields KeyRequest_zero data (\<lambda>req w.
       if key_key req \<noteq> Key (room w) then sendCommandTo zw env (CloseResponse False) client w
       else
         andThen
           (sendCommandTo zw env (CloseResponse True) client
              (set_room (\<lambda>m. m\<lparr>Options := (Options m)\<lparr>EmptyClose := True\<rparr>\<rparr>) w))
           (broadcastCommand zw env (CloseAction 501))))"

definition handleOnlineList :: "(bytes \<Rightarrow> bytes) \<Rightarrow> env \<Rightarrow> bytes \<Rightarrow> nat \<Rightarrow> world \<Rightarrow> world exec" where
  "handleOnlineList zw env data client =
     if_user client (with_request OnlineListRequest_fields OnlineListRequest_zero data (\<lambda>req w.
       sendCommandTo zw env (OnlineListResponse True (OnlineList w)) client w))"

text \<open>The registrations of \<open>init\<close>, in their order.\<close>

definition room_handlers :: "(bytes \<Rightarrow> bytes) \<Rightarrow> env \<Rightarrow> (string \<times> (bytes \<Rightarrow> nat \<Rightarrow> world \<Rightarrow> world exec)) list" where
  "room_handlers zw env =
     [(''login'', handleJoin zw env), (''heartbeat'', handleHeartbeat zw env),
      (''archivesign'', handleArchiveSign zw env), (''archive'', handleArchive zw env),
      (''clearall'', handleClearAll zw env), (''kick'', handleKick zw env),
      (''onlinelist'', handleOnlineList zw env), (''close'', handleClose zw env),
      (''checkout'', handleCheckout zw env)]"

definition room_router :: "(bytes \<Rightarrow> bytes) \<Rightarrow> env \<Rightarrow> nat \<Rightarrow> world Router" where
  "room_router zw env n = \<lparr>rkey = ''request'', table = rev (room_handlers zw env), readers = n\<rparr>"

lemma room_router_registered:
  "each (\<lambda>(name, h). Register name h) (room_handlers zw env) (MakeRouter ''request'') =
   Done (room_router zw env 0)"
  by (simp add: room_handlers_def Register_def MakeRouter_def room_router_def)

section \<open>Serving one client\<close>

text \<open>What the \<open>select\<close> of \<open>processClient\<close> can see.\<close>

datatype client_event = RoomClosing | GotPackage Package | ChannelClosed | Silence

text \<open>How a call ends the round of the loop: \<open>goes True\<close> when the loop goes on after it.\<close>

definition goes :: "bool \<Rightarrow> world exec \<Rightarrow> (world \<times> bool) exec" where
  "goes b m =
     (case m of Done w \<Rightarrow> Done (w, b) | Panics p w \<Rightarrow> Panics p (w, False) | Blocks \<Rightarrow> Blocks)"

definition on_command :: "(bytes \<Rightarrow> bytes) \<Rightarrow> env \<Rightarrow> bytes \<Rightarrow> nat \<Rightarrow> world \<Rightarrow> world exec" where
  "on_command zw env data client w =
     (case OnMessage (room_router zw env (router_readers (room w))) data client w of
        Done (r, w1, err) \<Rightarrow>
          (let w2 = set_room (\<lambda>m. m\<lparr>router_readers := readers r\<rparr>) w1
           in if err \<noteq> None then kickClient client w2 else Done w2)
      | Panics p (r, w1, err) \<Rightarrow> Panics p w1
      | Blocks \<Rightarrow> Blocks)"

text \<open>A packet for the radio is dropped when the radio does not accept it within five seconds.\<close>

definition relay_to_radio :: "env \<Rightarrow> RadioMsg \<Rightarrow> world \<Rightarrow> world exec" where
  "relay_to_radio env msg w =
     (if radio (room w) = None then Done w
      else if radio_closed w then Panics send_on_closed w
      else if accepts env then hand_over env msg w
      else Done w)"

definition client_step :: "(bytes \<Rightarrow> bytes) \<Rightarrow> env \<Rightarrow> nat \<Rightarrow> client_event \<Rightarrow> world \<Rightarrow> (world \<times> bool) exec" where
  "client_step zw env client ev w =
     (case ev of
        RoomClosing \<Rightarrow> goes False (removeAllClient w)
      | ChannelClosed \<Rightarrow> goes False (andThen (removeClient client w) (processEmptyClose env))
      | Silence \<Rightarrow> goes False (kickClient client w)
      | GotPackage pkg \<Rightarrow>
          (if PackageType pkg = COMMAND then goes True (on_command zw env (Unpacked pkg) client w)
           else if PackageType pkg = DATA then
             (if \<not> hasUser w client then goes False (removeClient client w)
              else goes True (relay_to_radio env
                     (WriteMsg (Repacked pkg) (disk_faults env) (write_fault env)) w))
           else if PackageType pkg = MESSAGE then
             (if \<not> hasUser w client then goes False (removeClient client w)
              else goes True (relay_to_radio env (SendMsg (Repacked pkg)) w))
           else Done (w, True)))"

text \<open>One connection accepted by the loop of \<open>Run\<close>.\<close>

definition accept_client :: "nat \<Rightarrow> world \<Rightarrow> world" where
  "accept_client client w =
     (set_sock client MakeSocketClient
       (set_room (\<lambda>m. add_count 1 (m\<lparr>room_clients :=
           AList.update client \<lparr>clientId = '''', nickName = ''''\<rparr> (room_clients m)\<rparr>)) w))
     \<lparr>serving := serving w @ [client]\<rparr>"

datatype run_round = RunReturns | RunAccepts nat | RunAcceptFails

definition Run_round :: "run_round \<Rightarrow> world \<Rightarrow> world \<times> bool" where
  "Run_round ev w =
     (if GoingClose (room w) then (w, False)
      else case ev of RunAccepts client \<Rightarrow> (accept_client client w, True) | _ \<Rightarrow> (w, True))"

section \<open>Making a room\<close>

record init_env =
  resolve_fails :: bool
  mkdir_fails :: bool
  radio_open_err :: bool
  radio_stat_err :: bool
  data_files :: "string \<Rightarrow> bytes option"
  listen_port :: "int option"

definition Room_zero :: Room where
  "Room_zero = \<lparr>ln_open = False, GoingClose = False, router_readers = 0, radio = None, room_clients = [],
     currentClientsCount = 0, expiration = 0, key = '''', archiveSign = '''', port = 0,
     Options = RoomOption_zero, lastCheck = 0\<rparr>"

text \<open>The identity of a room: kept when it has a key already, made up otherwise.\<close>

definition room_identity :: "init_env \<Rightarrow> env \<Rightarrow> Room \<Rightarrow> Room \<times> string option" where
  "room_identity ienv env m =
     (if key m \<noteq> '''' then (m, if resolve_fails ienv then Some ''resolve failed'' else None)
      else
        (let m1 = m\<lparr>key := genSignedKey (ReadConfBytes (conf env) ''globalSaltHash'')
                       (str_bytes (Name (Options m)) @ str_bytes (Password (Options m)))\<rparr>
         in if resolve_fails ienv then (m1, Some ''resolve failed'')
            else (m1\<lparr>archiveSign := genArchiveSign (random63 env) (Name (Options m))\<rparr>, None)))"

text \<open>
  The error of \<open>MakeRadio\<close> is overwritten by that of \<open>ListenTCP\<close>.  \<open>panic(err)\<close> after a failed
  \<open>MkdirAll\<close> panics with the nil \<open>err\<close> of the address resolution.
\<close>

definition Room_init :: "init_env \<Rightarrow> env \<Rightarrow> Room \<Rightarrow> (Room \<times> string option) exec" where
  "Room_init ienv env m0 =
     (case room_identity ienv env (m0\<lparr>GoingClose := False, router_readers := 0\<rparr>) of
        (m1, Some err) \<Rightarrow> Done (m1, Some err)
      | (m1, None) \<Rightarrow>
          (let data_path = Join (ReadConfString (conf env) ''data_dir'' ''./data/'') (archiveSign m1 @ ''.data'') in
           if mkdir_fails ienv then Panics PanicNil (m1, None)
           else
             (case MakeRadio (radio_open_err ienv) (radio_stat_err ienv) (data_files ienv data_path)
                     data_path (archiveSign m1) of
                Inl p \<Rightarrow> Panics p (m1, None)
              | Inr made \<Rightarrow>
                  (let m2 = m1\<lparr>radio := (case made of Inl err \<Rightarrow> None | Inr r \<Rightarrow> Some r)\<rparr> in
                   case listen_port ienv of
                     None \<Rightarrow> Done (m2, Some ''listen failed'')
                   | Some p \<Rightarrow> Done (m2\<lparr>ln_open := True, port := p\<rparr>, None)))))"

text \<open>What both constructors return: the room, or an empty \<open>Room{}\<close> with the error.\<close>

definition init_result :: "(Room \<times> string option) exec \<Rightarrow> (Room \<times> string option) exec" where
  "init_result x =
     (case x of
        Done (m, None) \<Rightarrow> Done (m, None)
      | Done (m, Some err) \<Rightarrow> Done (Room_zero, Some err)
      | Panics p y \<Rightarrow> Panics p y
      | Blocks \<Rightarrow> Blocks)"

definition ServeRoom :: "init_env \<Rightarrow> env \<Rightarrow> RoomOption \<Rightarrow> (Room \<times> string option) exec" where
  "ServeRoom ienv env opt =
     init_result (Room_init ienv env
       (Room_zero\<lparr>Options := opt, expiration := ReadConfInt (conf env) ''expiration'' 0,
                  lastCheck := clock env\<rparr>))"

text \<open>The deferred \<open>recover\<close> of \<open>RecoverRoom\<close> is set up after \<open>init\<close>, so it covers nothing.\<close>

definition RecoverRoom :: "init_env \<Rightarrow> env \<Rightarrow> RoomRuntimeInfo \<Rightarrow> (Room \<times> string option) exec" where
  "RecoverRoom ienv env info =
     init_result (Room_init ienv env
       (Room_zero\<lparr>port := info_Port info, expiration := info_Expiration info,
                  archiveSign := info_ArchiveSign info, key := info_Key info,
                  Options := info_Options info, lastCheck := clock env\<rparr>))"

end
