(* ===== verification/RoomFacts.thy ===== *)
theory RoomFacts
  imports RoomHandlers
begin

text \<open>
  Facts about the operations of a room: what each helper leaves alone, what a client sees on its
  connection, when a login succeeds, what the key protects, how the counter of clients moves, and
  how packets travel from a client through the room into the radio.
\<close>

section \<open>What sending leaves alone\<close>

definition radio_kept :: "Radio \<Rightarrow> Radio \<Rightarrow> bool" where
  "radio_kept r r' \<longleftrightarrow> signature r' = signature r \<and> clients r' = clients r \<and> closed r' = closed r"

definition radio_like :: "Radio option \<Rightarrow> Radio option \<Rightarrow> bool" where
  "radio_like x y =
     (case (x, y) of
        (None, None) \<Rightarrow> True
      | (Some r, Some r') \<Rightarrow> radio_kept r r'
      | _ \<Rightarrow> False)"

text \<open>
  \<open>same_but_radio w w'\<close>: nothing differs outside the radio, and the radio has the same signature,
  registered clients and closed flag.
\<close>

definition same_but_radio :: "world \<Rightarrow> world \<Rightarrow> bool" where
  "same_but_radio w w' \<longleftrightarrow>
     (\<exists>x. room w' = (room w)\<lparr>radio := x\<rparr> \<and> radio_like (radio (room w)) x) \<and>
     socks w' = socks w \<and> greetings w' = greetings w \<and> closers w' = closers w \<and> serving w' = serving w"

lemma radio_kept_refl [simp]: "radio_kept r r"
  by (simp add: radio_kept_def)

lemma radio_like_refl [simp]: "radio_like x x"
  by (simp add: radio_like_def split: option.splits)

lemma radio_like_trans: "radio_like x y \<Longrightarrow> radio_like y z \<Longrightarrow> radio_like x z"
  by (auto simp: radio_like_def radio_kept_def split: option.splits)

lemma same_but_radio_refl [simp]: "same_but_radio w w"
  unfolding same_but_radio_def by (intro conjI refl exI [of _ "radio (room w)"]) simp_all

lemma same_but_radio_trans: "same_but_radio w w1 \<Longrightarrow> same_but_radio w1 w2 \<Longrightarrow> same_but_radio w w2"
  unfolding same_but_radio_def using radio_like_trans by fastforce

lemma receive_chunk_keeps: "ensures (receive_chunk pid ch r) (radio_kept r)"
  by (auto simp: receive_chunk_def ensures_def radio_kept_def split: sum.splits)

lemma run_msg_keeps: "ensures (run_msg m r) (radio_kept r)"
proof (cases m)
  case (SingleSendMsg data c ready)
  then show ?thesis
    using receive_chunk_keeps [of _ "RAMChunk data" r]
    by (auto simp: run_msg_def singleSend_def locked_def split: option.splits)
next
  case (WriteMsg data env fault)
  have "ensures (radio_write env fault data r) (radio_kept r)"
    by (auto simp: ensures_def radio_write_def write_file_def write_bcast_def locked_def Let_def radio_kept_def
        split: prod.splits option.splits if_splits)
  then show ?thesis
    using WriteMsg by (simp add: run_msg_def)
qed (auto simp: run_msg_def radio_send_def locked_def radio_kept_def)

lemma serve_one_same: "ensures (serve_one m w) (same_but_radio w)"
proof (cases "radio (room w)")
  case None
  then show ?thesis by (simp add: serve_one_def on_radio_def)
next
  case (Some r)
  show ?thesis
  proof (cases "run_msg m r")
    case (Done r')
    then have "radio_kept r r'"
      using run_msg_keeps [of m r] by simp
    then have "same_but_radio w (set_room (\<lambda>m. m\<lparr>radio := Some r'\<rparr>) w)"
      using Some unfolding same_but_radio_def
      by (intro conjI exI [of _ "Some r'"]) (simp_all add: set_room_def radio_like_def)
    then show ?thesis
      using Some Done by (simp add: serve_one_def on_radio_def)
  qed (simp_all add: serve_one_def on_radio_def Some)
qed

lemma inbox_same: "same_but_radio w (w\<lparr>inbox := ms\<rparr>)"
  unfolding same_but_radio_def by (intro conjI exI [of _ "radio (room w)"]) simp_all

lemma radio_finishes_same: "ensures (radio_finishes w) (same_but_radio w)"
  unfolding radio_finishes_def
proof (rule ensures_each [where I = "same_but_radio w"])
  show "same_but_radio w (w\<lparr>inbox := []\<rparr>)"
    by (rule inbox_same)
next
  fix x a
  assume "same_but_radio w a"
  then show "ensures (serve_one x a) (same_but_radio w)"
    by (rule ensures_mono [OF serve_one_same same_but_radio_trans])
qed

lemma hand_over_same: "ensures (hand_over env msg w) (same_but_radio w)"
proof -
  have "ensures (let w2 = w1\<lparr>inbox := [msg]\<rparr> in if prompt env then radio_finishes w2 else Done w2) (same_but_radio w)"
    if "same_but_radio w w1" for w1
  proof -
    have i: "same_but_radio w (w1\<lparr>inbox := [msg]\<rparr>)"
      using same_but_radio_trans [OF that inbox_same] .
    then have "ensures (radio_finishes (w1\<lparr>inbox := [msg]\<rparr>)) (same_but_radio w)"
      by (rule ensures_mono [OF radio_finishes_same same_but_radio_trans])
    then show ?thesis
      using i by (simp add: Let_def)
  qed
  then have "ensures (andThen (radio_finishes w) (\<lambda>w1. let w2 = w1\<lparr>inbox := [msg]\<rparr> in
      if prompt env then radio_finishes w2 else Done w2)) (same_but_radio w)"
    by (intro ensures_andThen ensures_mono [OF radio_finishes_same])
  then show ?thesis
    by (simp add: hand_over_def)
qed

lemma sendCommandTo_same: "ensures (sendCommandTo zw env resp c w) (same_but_radio w)"
  by (simp add: sendCommandTo_def sendTo_def hand_over_same)

section \<open>What a client sees\<close>

abbreviation frame :: "(bytes \<Rightarrow> bytes) \<Rightarrow> int \<Rightarrow> json \<Rightarrow> bytes" where
  "frame zw t j \<equiv> AssamblePack zw \<lparr>Compress = True, PackType = t\<rparr> (Marshal j)"

definition receives :: "nat \<Rightarrow> bytes \<Rightarrow> world \<Rightarrow> world" where
  "receives c d w = set_sock c ((socks w c)\<lparr>con_out := con_out (socks w c) @ d\<rparr>) w"

definition reachable_sock :: "env \<Rightarrow> world \<Rightarrow> nat \<Rightarrow> bool" where
  "reachable_sock env w c \<longleftrightarrow> con_open (socks w c) \<and> net_fault env c = None"

lemma receives_simps [simp]:
  "room (receives c d w) = room w" "inbox (receives c d w) = inbox w"
  "greetings (receives c d w) = greetings w" "closers (receives c d w) = closers w"
  "serving (receives c d w) = serving w"
  "con_out (socks (receives c d w) k) = con_out (socks w k) @ (if k = c then d else [])"
  "con_open (socks (receives c d w) k) = con_open (socks w k)"
  by (simp_all add: receives_def set_sock_def)

lemma receives_other: "k \<noteq> c \<Longrightarrow> socks (receives c d w) k = socks w k"
  by (simp add: receives_def set_sock_def)

lemma directSendCommand_ok:
  "reachable_sock env w c \<Longrightarrow> directSendCommand zw env j c w = Done (receives c (frame zw COMMAND j) w)"
  by (simp add: reachable_sock_def directSendCommand_def direct_send_def SendCommandPack_def send_typed_out
      receives_def)

lemma directSendMessage_ok:
  "reachable_sock env w c \<Longrightarrow> directSendMessage zw env j c w = Done (receives c (frame zw MESSAGE j) w)"
  by (simp add: reachable_sock_def directSendMessage_def direct_send_def SendMessagePack_def send_typed_out
      receives_def)

lemma reachable_receives [simp]: "reachable_sock env (receives c d w) k = reachable_sock env w k"
  by (simp add: reachable_sock_def)

section \<open>Broadcasting a command\<close>

lemma each_broadcast:
  assumes "\<forall>(c, u) \<in> set cs. clientId u \<noteq> '''' \<longrightarrow> reachable_sock env w c" and "distinct (map fst cs)"
  shows "\<exists>w'. each (\<lambda>(c, u). if clientId u \<noteq> '''' then directSendCommand zw env j c else Done) cs w = Done w' \<and>
    room w' = room w \<and> inbox w' = inbox w \<and> serving w' = serving w \<and>
    (\<forall>k. con_out (socks w' k) = con_out (socks w k) @
       (if \<exists>u. (k, u) \<in> set cs \<and> clientId u \<noteq> '''' then frame zw COMMAND j else []))"
  using assms
proof (induction cs arbitrary: w)
  case (Cons x cs)
  obtain c u where x: "x = (c, u)" by (cases x)
  let ?w = "if clientId u \<noteq> '''' then receives c (frame zw COMMAND j) w else w"
  have "\<forall>(c, u) \<in> set cs. clientId u \<noteq> '''' \<longrightarrow> reachable_sock env ?w c"
    using Cons.prems(1) by auto
  from Cons.IH [OF this] Cons.prems(2)
  obtain w' where w': "each (\<lambda>(c, u). if clientId u \<noteq> '''' then directSendCommand zw env j c else Done) cs ?w = Done w'"
    "room w' = room ?w" "inbox w' = inbox ?w" "serving w' = serving ?w"
    "\<forall>k. con_out (socks w' k) = con_out (socks ?w k) @
       (if \<exists>u. (k, u) \<in> set cs \<and> clientId u \<noteq> '''' then frame zw COMMAND j else [])"
    by auto
  have step: "(case x of (c, u) \<Rightarrow> if clientId u \<noteq> '''' then directSendCommand zw env j c else Done) w = Done ?w"
    using Cons.prems(1) x by (simp add: directSendCommand_ok)
  have out: "con_out (socks w' k) = con_out (socks w k) @
      (if \<exists>u. (k, u) \<in> set (x # cs) \<and> clientId u \<noteq> '''' then frame zw COMMAND j else [])" for k
  proof -
    have "k = c \<Longrightarrow> \<not> (\<exists>u. (k, u) \<in> set cs)"
      using Cons.prems(2) x by force
    then show ?thesis
      using w'(5) x by (cases "k = c") auto
  qed
  show ?case
    using step w' out by (auto split: if_splits)
qed simp

lemma broadcastCommand_spec:
  assumes "\<forall>(c, u) \<in> set (room_clients (room w)). clientId u \<noteq> '''' \<longrightarrow> reachable_sock env w c"
    and "distinct (map fst (room_clients (room w)))"
  shows "\<exists>w'. broadcastCommand zw env j w = Done w' \<and> room w' = room w \<and> inbox w' = inbox w \<and>
    serving w' = serving w \<and>
    (\<forall>k. con_out (socks w' k) = con_out (socks w k) @ (if hasUser w k then frame zw COMMAND j else []))"
proof -
  have "hasUser w k \<longleftrightarrow> (\<exists>u. (k, u) \<in> set (room_clients (room w)) \<and> clientId u \<noteq> '''')" for k
    by (auto simp: hasUser_def map_of_eq_Some_iff [OF assms(2), symmetric] split: option.splits)
  then show ?thesis
    using each_broadcast [OF assms] by (simp add: broadcastCommand_def)
qed

section \<open>Login\<close>

text \<open>The conditions of a successful login.\<close>

definition admitted :: "Room \<Rightarrow> nat \<Rightarrow> JoinRoomRequest \<Rightarrow> bool" where
  "admitted m c req \<longleftrightarrow> join_password req = Password (Options m) \<and> CurrentLoad m \<le> MaxLoad (Options m) \<and>
     join_name req \<noteq> '''' \<and> length (join_name req) \<le> 32 \<and> c \<in> fst ` set (room_clients m)"

lemma genClientId_nonempty: "genClientId salt t name \<noteq> ''''"
  by (simp add: genClientId_def Let_def FormatUint32_nonempty)

lemma map_of_alist_update: "map_of (AList.update k v al) = (map_of al)(k \<mapsto> v)"
  by (simp add: update_conv')

lemma handleJoin_refused:
  assumes "fst (Unmarshal JoinRoomRequest_fields JoinRoomRequest_zero data) = Some req"
    and "reachable_sock env w c" and "\<not> admitted (room w) c req"
  shows "\<exists>errcode \<in> {LOGIN_PWD_INCORRECT, LOGIN_ROOM_IS_FULL, LOGIN_INVALID_NAME, LOGIN_UNKOWN}.
    handleJoin zw env data c w = Done (receives c (frame zw COMMAND (JoinRefused errcode)) w)"
proof -
  have "c \<notin> fst ` set (room_clients (room w)) \<Longrightarrow> map_of (room_clients (room w)) c = None"
    by (simp add: map_of_eq_None_iff)
  then show ?thesis
    using assms by (auto simp: handleJoin_def with_request_def Let_def directSendCommand_ok admitted_def)
qed

text \<open>The room after a successful login of \<open>c\<close> under \<open>name\<close>.\<close>

definition logged_in :: "env \<Rightarrow> nat \<Rightarrow> string \<Rightarrow> Room \<Rightarrow> Room" where
  "logged_in env c name m =
     m\<lparr>room_clients := AList.update c
         \<lparr>clientId = genClientId (ReadConfBytes (conf env) ''globalSaltHash'') (clock_bytes env) (Name (Options m)),
          nickName = name\<rparr> (room_clients m)\<rparr>"

definition join_reply :: "env \<Rightarrow> Room \<Rightarrow> Radio \<Rightarrow> json" where
  "join_reply env m r =
     JoinRoomResponse True (JoinRoomInfo (Name (Options m)) (FileSize r)
       (SizeInfo (Width (Options m)) (Height (Options m)))
       (genClientId (ReadConfBytes (conf env) ''globalSaltHash'') (clock_bytes env) (Name (Options m)))) 0"

lemma handleJoin_admitted:
  assumes "fst (Unmarshal JoinRoomRequest_fields JoinRoomRequest_zero data) = Some req"
    and "reachable_sock env w c" and "admitted (room w) c req" and "radio (room w) = Some r"
  shows "handleJoin zw env data c w =
    Done (receives c (frame zw COMMAND (join_reply env (room w) r))
      ((set_room (logged_in env c (join_name req)) w)\<lparr>greetings := greetings w @ [c]\<rparr>))"
proof -
  let ?m = "room w"
  obtain user where user: "map_of (room_clients ?m) c = Some user"
    using assms(3) by (auto simp: admitted_def) (metis eq_fst_iff weak_map_of_SomeI)
  have d: "directSendCommand zw env j c (w\<lparr>room := m, greetings := g\<rparr>) =
      Done (receives c (frame zw COMMAND j) (w\<lparr>room := m, greetings := g\<rparr>))" for j m g
    using assms(2) by (intro directSendCommand_ok) (simp add: reachable_sock_def)
  have e: "user\<lparr>clientId := x, nickName := y\<rparr> = \<lparr>clientId = x, nickName = y\<rparr>" for x y
    by (cases user) simp
  show ?thesis
    using assms(1,3,4) user
    by (simp add: handleJoin_def with_request_def Let_def admitted_def with_FileSize_def
        logged_in_def set_room_def join_reply_def d e)
qed

lemma hasUser_logged_in:
  "hasUser (receives c d ((set_room (logged_in env c name) w)\<lparr>greetings := g\<rparr>)) k \<longleftrightarrow> k = c \<or> hasUser w k"
  by (simp add: hasUser_def logged_in_def set_room_def map_of_alist_update genClientId_nonempty)

section \<open>The key\<close>

text \<open>Requests that need the key, made with another one: only the radio gets a negative answer.\<close>

lemma wrong_key_harmless:
  assumes "\<And>q. fst (Unmarshal ClearAllRequest_fields KeyRequest_zero data) = Some q \<Longrightarrow> key_key q \<noteq> key (room w)"
    and "\<And>q. fst (Unmarshal CheckoutRequest_fields KeyRequest_zero data) = Some q \<Longrightarrow> key_key q \<noteq> key (room w)"
    and "\<And>q. fst (Unmarshal KickRequest_fields KickRequest_zero data) = Some q \<Longrightarrow> kick_key q \<noteq> key (room w)"
    and "\<And>q. fst (Unmarshal CloseRequest_fields KeyRequest_zero data) = Some q \<Longrightarrow> key_key q \<noteq> key (room w)"
    and "h \<in> {handleClearAll zw env, handleCheckout zw env, handleKick zw env, handleClose zw env}"
  shows "ensures (h data c w) (same_but_radio w)"
  using assms sendCommandTo_same
  by (auto simp: handleClearAll_def handleCheckout_def handleKick_def handleClose_def if_user_def
      with_request_def Key_def split: option.splits)

section \<open>Before the login\<close>

definition needs_login :: "string set" where
  "needs_login = {''archivesign'', ''archive'', ''clearall'', ''kick'', ''onlinelist'', ''close'', ''checkout''}"

lemma room_table:
  "map_of (rev (room_handlers zw env)) ''login'' = Some (handleJoin zw env)"
  "map_of (rev (room_handlers zw env)) ''heartbeat'' = Some (handleHeartbeat zw env)"
  "map_of (rev (room_handlers zw env)) ''archivesign'' = Some (handleArchiveSign zw env)"
  "map_of (rev (room_handlers zw env)) ''archive'' = Some (handleArchive zw env)"
  "map_of (rev (room_handlers zw env)) ''clearall'' = Some (handleClearAll zw env)"
  "map_of (rev (room_handlers zw env)) ''kick'' = Some (handleKick zw env)"
  "map_of (rev (room_handlers zw env)) ''onlinelist'' = Some (handleOnlineList zw env)"
  "map_of (rev (room_handlers zw env)) ''close'' = Some (handleClose zw env)"
  "map_of (rev (room_handlers zw env)) ''checkout'' = Some (handleCheckout zw env)"
  by (simp_all add: room_handlers_def)

lemma handler_without_login:
  assumes "req \<in> needs_login" and "map_of (rev (room_handlers zw env)) req = Some h" and "\<not> hasUser w c"
  shows "h data c w = Done w"
  using assms
  by (auto simp: needs_login_def room_table if_user_def handleArchiveSign_def handleArchive_def
      handleClearAll_def handleKick_def handleOnlineList_def handleClose_def handleCheckout_def)

lemma room_router_simps [simp]:
  "rkey (room_router zw env n) = ''request''" "readers (room_router zw env n) = n"
  "table (room_router zw env n) = rev (room_handlers zw env)"
  by (simp_all add: room_router_def)

lemma set_room_same [simp]: "set_room (\<lambda>m. m\<lparr>router_readers := router_readers (room w)\<rparr>) w = w"
  by (simp add: set_room_def)

lemma on_command_runs:
  assumes "carries ''request'' data req" and "map_of (rev (room_handlers zw env)) req = Some h"
    and "h data c w = Done w'" and "router_readers (room w') = router_readers (room w)"
  shows "on_command zw env data c w = Done w'"
proof -
  have "OnMessage (room_router zw env (router_readers (room w))) data c w =
      Done (room_router zw env (router_readers (room w)), w', None)"
    using assms by (intro OnMessage_runs [where req = req and handler = h]) simp_all
  then show ?thesis
    using set_room_same [of w'] assms(4) by (simp add: on_command_def)
qed

lemma on_command_malformed:
  assumes "\<forall>req. \<not> carries ''request'' data req"
  shows "on_command zw env data c w = kickClient c w"
proof -
  obtain e where "OnMessage (room_router zw env (router_readers (room w))) data c w =
      Done (room_router zw env (router_readers (room w)), w, Some e)"
    using assms OnMessage_malformed [of "room_router zw env (router_readers (room w))" data c w] by auto
  then show ?thesis
    by (simp add: on_command_def)
qed

lemma handler_exists: "req \<in> needs_login \<Longrightarrow> \<exists>h. map_of (rev (room_handlers zw env)) req = Some h"
  by (auto simp: needs_login_def room_table)

section \<open>The counter of clients\<close>

definition radio_free :: "world \<Rightarrow> bool" where
  "radio_free w \<longleftrightarrow> (case radio (room w) of None \<Rightarrow> True | Some r \<Rightarrow> \<not> stuck r)"

lemma removeClient_ok:
  assumes "radio_free w"
  shows "\<exists>w'. removeClient c w = Done w' \<and> radio_free w' \<and>
    currentClientsCount (room w') = wrap32 (currentClientsCount (room w) - 1) \<and>
    room_clients (room w') = AList.delete c (room_clients (room w)) \<and>
    socks w' = socks w \<and> serving w' = serving w \<and> inbox w' = inbox w \<and> closers w' = closers w \<and>
    Options (room w') = Options (room w) \<and> GoingClose (room w') = GoingClose (room w) \<and>
    radio_closed w' = radio_closed w \<and> key (room w') = key (room w)"
proof (cases "radio (room w)")
  case None
  then show ?thesis
    by (simp add: removeClient_def radio_RemoveClient_def on_radio_def set_room_def add_count_def
        radio_free_def radio_closed_def)
next
  case (Some r)
  then show ?thesis
    using assms by (simp add: removeClient_def radio_RemoveClient_def on_radio_def set_room_def add_count_def
        radio_free_def RemoveClient_def locked_def radio_closed_def)
qed

lemma kickClient_ok:
  assumes "radio_free w"
  shows "\<exists>w'. kickClient c w = Done w' \<and> radio_free w' \<and>
    currentClientsCount (room w') = wrap32 (currentClientsCount (room w) - 1) \<and>
    room_clients (room w') = AList.delete c (room_clients (room w)) \<and> closers w' = closers w @ [c] \<and>
    Options (room w') = Options (room w) \<and> key (room w') = key (room w)"
  using removeClient_ok [OF assms, of c] by (auto simp: kickClient_def radio_free_def)

text \<open>Feeding a client's goroutine a list of events until it ends.\<close>

fun client_run :: "(bytes \<Rightarrow> bytes) \<Rightarrow> env \<Rightarrow> nat \<Rightarrow> client_event list \<Rightarrow> world \<Rightarrow> (world \<times> bool) exec" where
  "client_run zw env c [] w = Done (w, True)"
| "client_run zw env c (ev # evs) w =
     (case client_step zw env c ev w of
        Done (w', goes_on) \<Rightarrow> if goes_on then client_run zw env c evs w' else Done (w', False)
      | Panics p x \<Rightarrow> Panics p x
      | Blocks \<Rightarrow> Blocks)"

lemma wrap32_again: "wrap32 (wrap32 a - d) = wrap32 (a - d)"
  unfolding wrap32_def by (metis signed_take_bit_diff signed_take_bit_signed_take_bit min.idem)


text \<open>Commands that carry no request: each lowers the counter, and the client goes on.\<close>

definition malformed :: "client_event \<Rightarrow> bool" where
  "malformed ev \<longleftrightarrow> (case ev of
     GotPackage pkg \<Rightarrow> PackageType pkg = COMMAND \<and> (\<forall>req. \<not> carries ''request'' (Unpacked pkg) req)
   | _ \<Rightarrow> False)"

lemma malformed_step:
  assumes "malformed ev" and "radio_free w"
  shows "\<exists>w'. client_step zw env c ev w = Done (w', True) \<and> radio_free w' \<and>
    currentClientsCount (room w') = wrap32 (currentClientsCount (room w) - 1) \<and>
    room_clients (room w') = AList.delete c (room_clients (room w)) \<and> Options (room w') = Options (room w)"
  using assms kickClient_ok [OF assms(2), of c]
  by (auto simp: malformed_def client_step_def goes_def on_command_malformed split: client_event.splits)

lemma delete_delete: "AList.delete c (AList.delete c al) = AList.delete c al"
  by (simp add: delete_idem)

section \<open>Packets for the radio\<close>

text \<open>The world with another radio.\<close>

definition with_radio :: "Radio \<Rightarrow> world \<Rightarrow> world" where
  "with_radio r w = set_room (\<lambda>m. m\<lparr>radio := Some r\<rparr>) w"

lemma with_radio_simps [simp]:
  "radio (room (with_radio r w)) = Some r" "inbox (with_radio r w) = inbox w"
  "socks (with_radio r w) = socks w" "room_clients (room (with_radio r w)) = room_clients (room w)"
  "hasUser (with_radio r w) c = hasUser w c" "archiveSign (room (with_radio r w)) = archiveSign (room w)"
  "Options (room (with_radio r w)) = Options (room w)" "key (room (with_radio r w)) = key (room w)"
  "currentClientsCount (room (with_radio r w)) = currentClientsCount (room w)"
  by (simp_all add: with_radio_def set_room_def hasUser_def)

lemma on_radio_Done:
  "radio (room w) = Some r \<Longrightarrow> f r = Done r' \<Longrightarrow> on_radio unset f w = Done (with_radio r' w)"
  by (simp add: on_radio_def with_radio_def)

lemma hand_over_prompt:
  assumes "radio (room w) = Some r" and "\<not> closed r" and "inbox w = []" and "prompt env"
    and "run_msg msg r = Done r'"
  shows "hand_over env msg w = Done (with_radio r' w)"
proof -
  have "w\<lparr>inbox := []\<rparr> = w"
    using assms(3) by (metis world.surjective world.update_convs(2))
  then have "radio_finishes w = Done w"
    using assms(3) by (simp add: radio_finishes_def)
  moreover have "(w\<lparr>inbox := [msg], inbox := []\<rparr>) = w"
    using \<open>w\<lparr>inbox := []\<rparr> = w\<close> by simp
  then have "radio_finishes (w\<lparr>inbox := [msg]\<rparr>) = Done (with_radio r' w)"
    using on_radio_Done [OF assms(1), of "run_msg msg" r'] assms(5)
    by (simp add: radio_finishes_def serve_one_def)
  ultimately show ?thesis
    using assms by (simp add: hand_over_def radio_closed_def)
qed

lemma data_packet_reaches_radio:
  assumes "hasUser w c" and "PackageType pkg = DATA" and "accepts env" and "prompt env" and "inbox w = []"
    and "radio (room w) = Some r" and "\<not> closed r"
    and "radio_write (disk_faults env) (write_fault env) (Repacked pkg) r = Done r'"
  shows "client_step zw env c (GotPackage pkg) w = Done (with_radio r' w, True)"
proof -
  have "hand_over env (WriteMsg (Repacked pkg) (disk_faults env) (write_fault env)) w = Done (with_radio r' w)"
    using assms by (intro hand_over_prompt [OF assms(6,7,5,4)]) (simp add: run_msg_def)
  then show ?thesis
    using assms by (simp add: client_step_def relay_to_radio_def radio_closed_def goes_def DATA_def COMMAND_def)
qed

lemma message_packet_reaches_radio:
  assumes "hasUser w c" and "PackageType pkg = MESSAGE" and "accepts env" and "prompt env" and "inbox w = []"
    and "radio (room w) = Some r" and "\<not> closed r" and "radio_send (Repacked pkg) r = Done r'"
  shows "client_step zw env c (GotPackage pkg) w = Done (with_radio r' w, True)"
proof -
  have "hand_over env (SendMsg (Repacked pkg)) w = Done (with_radio r' w)"
    using assms by (intro hand_over_prompt [OF assms(6,7,5,4)]) (simp add: run_msg_def)
  then show ?thesis
    using assms by (simp add: client_step_def relay_to_radio_def radio_closed_def goes_def DATA_def COMMAND_def MESSAGE_def)
qed

lemma stranger_removed:
  assumes "\<not> hasUser w c" and "PackageType pkg \<in> {DATA, MESSAGE}" and "radio_free w"
  shows "\<exists>w'. client_step zw env c (GotPackage pkg) w = Done (w', False) \<and> inbox w' = inbox w \<and>
    room_clients (room w') = AList.delete c (room_clients (room w)) \<and> socks w' = socks w"
  using assms removeClient_ok [OF assms(3), of c]
  by (auto simp: client_step_def goes_def DATA_def COMMAND_def MESSAGE_def)

text \<open>
  The whole way of a data packet: into the file, and into the stream of every registered client once
  the helpers have met their clients.
\<close>

lemma data_packet_delivered:
  assumes "hasUser w c" and "PackageType pkg = DATA" and "accepts env" and "prompt env" and "inbox w = []"
    and "disk_faults env = healthy" and "write_fault env = None"
    and "radio (room w) = Some r" and "\<not> closed r" and "hub_inv r" and "helpers r = []"
    and "int (length (contents (rfile r))) + int (length (Repacked pkg)) < 2 ^ 63"
  shows "\<exists>r1 r2. client_step zw env c (GotPackage pkg) w = Done (with_radio r1 w, True) \<and>
    deliver_all (length (helpers r1)) r1 = Done r2 \<and> helpers r2 = [] \<and> hub_inv r2 \<and>
    length (procs r2) = length (procs r) \<and> contents (rfile r2) = contents (rfile r) @ Repacked pkg \<and>
    (\<forall>k < length (procs r). feed r2 k = feed r k @ to_registered r k (Repacked pkg))"
proof -
  obtain r2 where r2: "broadcast (Repacked pkg) r = Done r2" "hub_inv r2" "helpers r2 = []"
    "length (procs r2) = length (procs r)"
    "contents (rfile r2) = contents (rfile r) @ Repacked pkg"
    "\<forall>k < length (procs r). feed r2 k = feed r k @ to_registered r k (Repacked pkg)"
    using broadcast_spec [of r "Repacked pkg"] assms by auto
  then obtain r1 where r1: "radio_write healthy None (Repacked pkg) r = Done r1"
    "deliver_all (length (helpers r1)) r1 = Done r2"
    by (auto simp: broadcast_def split: exec.splits)
  then show ?thesis
    using data_packet_reaches_radio [OF assms(1-5,8,9), of r1] assms(6,7) r2 by auto
qed

text \<open>A packet that arrives when the radio is closed already crashes the program.\<close>

lemma packet_after_close:
  assumes "hasUser w c" and "PackageType pkg \<in> {DATA, MESSAGE}" and "radio_closed w"
  shows "\<exists>w'. client_step zw env c (GotPackage pkg) w = Panics send_on_closed (w', False)"
  using assms
  by (auto simp: client_step_def relay_to_radio_def radio_closed_def goes_def DATA_def COMMAND_def MESSAGE_def
      split: option.splits)

section \<open>Answers through the radio\<close>

text \<open>
  Until a client has asked for the archive the radio does not know it, and an answer sent through
  the radio is dropped without a trace.
\<close>

lemma answer_dropped:
  assumes "radio (room w) = Some r" and "\<not> closed r" and "\<not> stuck r" and "map_of (clients r) c = None"
    and "inbox w = []" and "prompt env"
  shows "sendCommandTo zw env resp c w = Done w"
proof -
  have "hand_over env (SingleSendMsg d c (meets env c)) w = Done (with_radio r w)" for d
    using assms by (intro hand_over_prompt [OF assms(1,2,5,6)]) (simp add: run_msg_def singleSend_def locked_def)
  moreover have "with_radio r w = w"
    using assms(1) unfolding with_radio_def set_room_def
    by (metis Room.surjective Room.update_convs(4) world.surjective world.update_convs(1))
  ultimately show ?thesis
    by (simp add: sendCommandTo_def sendTo_def)
qed

lemma heartbeat_unanswered:
  assumes "radio (room w) = Some r" and "\<not> closed r" and "\<not> stuck r" and "map_of (clients r) c = None"
    and "inbox w = []" and "prompt env" and "carries ''request'' data ''heartbeat''"
  shows "on_command zw env data c w = Done w"
proof -
  obtain kvs where "unm data = Some (JObj kvs)"
    using carries_object [OF assms(7)] by blast
  then have "handleHeartbeat zw env data c w = Done w"
    using answer_dropped [OF assms(1-6)]
    by (simp add: handleHeartbeat_def with_request_def Unmarshal_def split: prod.splits)
  then show ?thesis
    using on_command_runs [OF assms(7) room_table(2)] by simp
qed

end
