(* ===== verification/RoomInvariants.thy ===== *)
theory RoomInvariants
  imports RoomFacts
begin

text \<open>
  Invariants of a room: what no step of it ever changes and that the two copies of the archive
  signature agree (\<open>stable\<close>), that the counter of clients is exact and the room never holds more
  logged-in users than it admits as long as nobody is kicked (\<open>calm_step\<close>), and what clearing,
  closing, expiring and recovering a room do.
\<close>

section \<open>What a room keeps\<close>

definition sign_sync :: "world \<Rightarrow> bool" where
  "sign_sync w \<longleftrightarrow> (\<forall>r. radio (room w) = Some r \<longrightarrow> signature r = archiveSign (room w))"

text \<open>\<open>stable w0 w\<close>: \<open>w\<close> is a later state of the room \<open>w0\<close>.\<close>

definition stable :: "world \<Rightarrow> world \<Rightarrow> bool" where
  "stable w0 w \<longleftrightarrow> sign_sync w \<and>
     key (room w) = key (room w0) \<and> port (room w) = port (room w0) \<and> expiration (room w) = expiration (room w0) \<and>
     (Options (room w))\<lparr>EmptyClose := False\<rparr> = (Options (room w0))\<lparr>EmptyClose := False\<rparr> \<and>
     (EmptyClose (Options (room w0)) \<longrightarrow> EmptyClose (Options (room w))) \<and>
     (GoingClose (room w0) \<longrightarrow> GoingClose (room w))"

text \<open>
  A property that does not depend on the radio's inner life, the connections, the timers, the check
  time and the \<open>EmptyClose\<close> option being switched on; \<open>archiveSign\<close> may follow the radio's signature.
\<close>

definition indifferent :: "(world \<Rightarrow> bool) \<Rightarrow> bool" where
  "indifferent P \<longleftrightarrow>
     (\<forall>w ms. P w \<longrightarrow> P (w\<lparr>inbox := ms\<rparr>)) \<and> (\<forall>w s. P w \<longrightarrow> P (w\<lparr>socks := s\<rparr>)) \<and>
     (\<forall>w g. P w \<longrightarrow> P (w\<lparr>greetings := g\<rparr>)) \<and> (\<forall>w g. P w \<longrightarrow> P (w\<lparr>closers := g\<rparr>)) \<and>
     (\<forall>w n. P w \<longrightarrow> P (set_room (\<lambda>m. m\<lparr>router_readers := n\<rparr>) w)) \<and>
     (\<forall>w t. P w \<longrightarrow> P (set_room (\<lambda>m. m\<lparr>lastCheck := t\<rparr>) w)) \<and>
     (\<forall>w. P w \<longrightarrow> P (set_room (\<lambda>m. m\<lparr>Options := (Options m)\<lparr>EmptyClose := True\<rparr>\<rparr>) w)) \<and>
     (\<forall>w r r'. radio (room w) = Some r \<longrightarrow> signature r' = signature r \<longrightarrow> P w \<longrightarrow> P (with_radio r' w)) \<and>
     (\<forall>w r r'. radio (room w) = Some r \<longrightarrow> P w \<longrightarrow>
        P (set_room (\<lambda>m. m\<lparr>archiveSign := signature r'\<rparr>) (with_radio r' w)))"

lemma indifferentD:
  assumes "indifferent P" and "P w"
  shows "P (w\<lparr>inbox := ms\<rparr>)" "P (w\<lparr>socks := s\<rparr>)" "P (w\<lparr>greetings := g\<rparr>)" "P (w\<lparr>closers := g\<rparr>)"
    "P (set_room (\<lambda>m. m\<lparr>router_readers := n\<rparr>) w)" "P (set_room (\<lambda>m. m\<lparr>lastCheck := t\<rparr>) w)"
    "P (set_room (\<lambda>m. m\<lparr>Options := (Options m)\<lparr>EmptyClose := True\<rparr>\<rparr>) w)"
  using assms by (auto simp: indifferent_def)

lemma indifferent_radio:
  assumes "indifferent P" and "P w" and "\<And>r. always (f r) (\<lambda>r'. signature r' = signature r)" and "always (unset w) P"
  shows "always (on_radio unset f w) P"
proof (cases "radio (room w)")
  case (Some r)
  have "signature r' = signature r \<Longrightarrow> P (with_radio r' w)" for r'
    using assms(1,2) Some by (auto simp: indifferent_def)
  then show ?thesis
    using Some assms(3) [of r] by (cases "f r") (simp_all add: on_radio_def with_radio_def)
qed (use assms in \<open>simp add: on_radio_def\<close>)

text \<open>The rules that carry an indifferent property through every statement.\<close>

named_theorems keeps

lemma run_msg_sign: "always (run_msg msg r) (\<lambda>r'. signature r' = signature r)"
  by (auto simp: run_msg_def radio_send_def singleSend_def receive_chunk_def radio_write_def write_file_def
      write_bcast_def locked_def Let_def always_def
      split: RadioMsg.splits option.splits sum.splits prod.splits exec.splits if_splits)

lemma serve_one_keeps: "indifferent P \<Longrightarrow> P w \<Longrightarrow> always (serve_one msg w) P"
  unfolding serve_one_def by (rule indifferent_radio) (simp_all add: run_msg_sign)

lemma radio_finishes_keeps: "indifferent P \<Longrightarrow> P w \<Longrightarrow> always (radio_finishes w) P"
  unfolding radio_finishes_def by (rule always_each) (simp_all add: serve_one_keeps indifferentD)

lemma hand_over_keeps [keeps]:
  assumes "indifferent P" and "P w"
  shows "always (hand_over env msg w) P"
proof -
  have "always (let w2 = w1\<lparr>inbox := [msg]\<rparr> in if prompt env then radio_finishes w2 else Done w2) P"
    if "P w1" for w1
    using indifferentD(1) [OF assms(1) that] radio_finishes_keeps [OF assms(1)] by (simp add: Let_def)
  then show ?thesis
    using assms by (simp add: hand_over_def always_andThen radio_finishes_keeps)
qed

lemma sendCommandTo_keeps [keeps]: "indifferent P \<Longrightarrow> P w \<Longrightarrow> always (sendCommandTo zw env j c w) P"
  by (simp add: sendCommandTo_def sendTo_def hand_over_keeps)

lemma close_sock_keeps [keeps]: "indifferent P \<Longrightarrow> P w \<Longrightarrow> always (close_sock env c w) P"
  by (simp add: close_sock_def set_sock_def indifferentD(2) split: prod.splits)

lemma direct_send_keeps: "indifferent P \<Longrightarrow> P w \<Longrightarrow> always (direct_send f env j c w) P"
  by (simp add: direct_send_def Let_def set_sock_def indifferentD(2) close_sock_keeps split: prod.splits)

lemma directSendCommand_keeps [keeps]: "indifferent P \<Longrightarrow> P w \<Longrightarrow> always (directSendCommand zw env j c w) P"
  by (simp add: directSendCommand_def direct_send_keeps)

lemma directSendMessage_keeps [keeps]: "indifferent P \<Longrightarrow> P w \<Longrightarrow> always (directSendMessage zw env j c w) P"
  by (simp add: directSendMessage_def direct_send_keeps)

lemma broadcastCommand_keeps [keeps]: "indifferent P \<Longrightarrow> P w \<Longrightarrow> always (broadcastCommand zw env j w) P"
  unfolding broadcastCommand_def by (rule always_each) (auto intro: keeps)

lemma with_request_keeps [keeps]:
  "P w \<Longrightarrow> (\<And>q. fst (Unmarshal fs0 zero data) = Some q \<Longrightarrow> always (k q w) P) \<Longrightarrow>
   always (with_request fs0 zero data k w) P"
  by (simp add: with_request_def split: option.splits)

lemma if_user_keeps [keeps]: "P w \<Longrightarrow> always (k w) P \<Longrightarrow> always (if_user c k w) P"
  by (simp add: if_user_def)

lemma with_FileSize_keeps [keeps]: "P w \<Longrightarrow> (\<And>n. always (k n w) P) \<Longrightarrow> always (with_FileSize k w) P"
  by (simp add: with_FileSize_def split: option.splits)

lemma radio_AddClient_keeps [keeps]: "indifferent P \<Longrightarrow> P w \<Longrightarrow> always (radio_AddClient c start len w) P"
  unfolding radio_AddClient_def
  by (rule indifferent_radio) (simp_all add: AddClient_def locked_def)

lemma radio_RemoveClient_keeps [keeps]: "indifferent P \<Longrightarrow> P w \<Longrightarrow> always (radio_RemoveClient c w) P"
  unfolding radio_RemoveClient_def
  by (rule indifferent_radio) (simp_all add: RemoveClient_def locked_def)

lemma radio_RemoveAllClients_keeps [keeps]: "indifferent P \<Longrightarrow> P w \<Longrightarrow> always (radio_RemoveAllClients w) P"
  unfolding radio_RemoveAllClients_def
  by (rule indifferent_radio) (simp_all add: RemoveAllClients_def locked_def)

lemma greet_keeps [keeps]: "indifferent P \<Longrightarrow> P w \<Longrightarrow> always (greet zw env i w) P"
  unfolding greet_def Let_def sendAnnouncement_def sendExpirationMsg_def sendWelcomeMsg_def
  by (rule always_andThen [OF _ always_andThen])
    (simp_all add: directSendCommand_keeps directSendMessage_keeps indifferentD(3))

lemma closer_fires_keeps [keeps]: "indifferent P \<Longrightarrow> P w \<Longrightarrow> always (closer_fires env i w) P"
  by (simp add: closer_fires_def close_sock_keeps indifferentD)

text \<open>Pruning panics before it renews the signature, or renews it.\<close>

lemma Prune_sign:
  "case Prune b f r of Panics p r' \<Rightarrow> signature r' = signature r | _ \<Rightarrow> True"
proof -
  have "signature (fold (\<lambda>(c, pid). set_tasks pid []) xs x) = signature x" for xs x
    by (induction xs arbitrary: x) (auto simp: set_tasks_def)
  then show ?thesis
    by (auto simp: Prune_def locked_def Let_def split: prod.splits option.splits)
qed

lemma handleClearAll_keeps: "indifferent P \<Longrightarrow> P w \<Longrightarrow> always (handleClearAll zw env data c w) P"
proof -
  assume P: "indifferent P" "P w"
  have "always (andThen (radio_Prune env w) (\<lambda>w1.
      let w2 = set_room (\<lambda>m. m\<lparr>archiveSign := radio_Signature w1\<rparr>) w1 in
      andThen (sendCommandTo zw env (ClearAllResponse True) c w2)
        (broadcastCommand zw env (ClearAllAction (radio_Signature w2))))) P"
  proof (cases "radio (room w)")
    case None
    then show ?thesis
      using P by (simp add: radio_Prune_def on_radio_def)
  next
    case (Some r)
    show ?thesis
    proof (cases "Prune (trunc_fails env) (random63 env) r")
      case (Done r')
      have "radio_Signature (with_radio r' w) = signature r'"
        by (simp add: radio_Signature_def Signature_def)
      moreover have "P (set_room (\<lambda>m. m\<lparr>archiveSign := signature r'\<rparr>) (with_radio r' w))"
        using P Some by (auto simp: indifferent_def)
      ultimately show ?thesis
        using Some Done P unfolding radio_Prune_def
        by (auto simp: on_radio_Done Let_def intro!: always_andThen keeps)
    next
      case (Panics p r')
      then have "P (with_radio r' w)"
        using P Some Prune_sign [of r "trunc_fails env" "random63 env"] by (auto simp: indifferent_def)
      then show ?thesis
        using Some Panics by (simp add: radio_Prune_def on_radio_def with_radio_def)
    qed (simp add: radio_Prune_def on_radio_def Some)
  qed
  then show ?thesis
    using P unfolding handleClearAll_def by (auto intro!: keeps)
qed

lemma handlers_keep:
  assumes "indifferent P" and "P w"
  shows "always (handleHeartbeat zw env data c w) P" "always (handleArchiveSign zw env data c w) P"
    "always (handleArchive zw env data c w) P" "always (handleCheckout zw env data c w) P"
    "always (handleClose zw env data c w) P" "always (handleOnlineList zw env data c w) P"
  using assms indifferentD(6) [OF assms] indifferentD(7) [OF assms]
  by (auto simp: handleHeartbeat_def handleArchiveSign_def handleArchive_def handleCheckout_def handleClose_def
      handleOnlineList_def Let_def intro!: keeps always_andThen)

lemma handleJoin_keeps:
  assumes "indifferent P" and "P w"
    and "\<And>req. admitted (room w) c req \<Longrightarrow> P (set_room (logged_in env c (join_name req)) w)"
  shows "always (handleJoin zw env data c w) P"
  unfolding handleJoin_def
proof (rule with_request_keeps [where P = P])
  show "P w" by (rule assms(2))
next
  fix req
  let ?opt = "Options (room w)"
  have e: "user\<lparr>clientId := x, nickName := y\<rparr> = \<lparr>clientId = x, nickName = y\<rparr>" for user x y
    by (cases user) simp
  have "P ((set_room (\<lambda>m. m\<lparr>room_clients := AList.update c
      \<lparr>clientId = genClientId (ReadConfBytes (conf env) ''globalSaltHash'') (clock_bytes env) (Name ?opt),
       nickName = join_name req\<rparr> (room_clients m)\<rparr>) w)\<lparr>greetings := g\<rparr>)"
    if "admitted (room w) c req" for g
    using indifferentD(3) [OF assms(1) assms(3) [OF that]] by (simp add: logged_in_def set_room_def)
  moreover have "map_of (room_clients (room w)) c = Some user \<Longrightarrow> c \<in> fst ` set (room_clients (room w))" for user
    by (metis domI dom_map_of_conv_image_fst)
  ultimately show "always (let m = room w; opt = Options m;
           refuse = (\<lambda>errcode. directSendCommand zw env (JoinRefused errcode) c w) in
       if join_password req \<noteq> Password opt then refuse LOGIN_PWD_INCORRECT
       else if CurrentLoad m > MaxLoad opt then refuse LOGIN_ROOM_IS_FULL
       else if length (join_name req) > 32 \<or> length (join_name req) \<le> 0 then refuse LOGIN_INVALID_NAME
       else
         (case map_of (room_clients m) c of
            None \<Rightarrow> refuse LOGIN_UNKOWN
          | Some user \<Rightarrow>
              (let cid = genClientId (ReadConfBytes (conf env) ''globalSaltHash'') (clock_bytes env) (Name opt);
                   w1 = set_room (\<lambda>m. m\<lparr>room_clients :=
                          AList.update c (user\<lparr>clientId := cid, nickName := join_name req\<rparr>) (room_clients m)\<rparr>) w;
                   w2 = w1\<lparr>greetings := greetings w1 @ [c]\<rparr>
               in with_FileSize (\<lambda>fsize.
                    directSendCommand zw env
                      (JoinRoomResponse True
                         (JoinRoomInfo (Name opt) fsize (SizeInfo (Width opt) (Height opt)) cid) 0) c) w2))) P"
    using assms(1,2)
    by (auto simp: Let_def e admitted_def split: option.splits
        intro!: with_FileSize_keeps directSendCommand_keeps)
qed

section \<open>Stability\<close>

lemma stable_indifferent: "indifferent (stable w0)"
  unfolding indifferent_def
  by (simp add: stable_def sign_sync_def set_room_def with_radio_def split: option.splits)

lemma stable_refl: "sign_sync w \<Longrightarrow> stable w w"
  by (simp add: stable_def)

lemma stable_logged_in: "stable w0 (set_room (logged_in env c name) w) = stable w0 w"
  by (simp add: stable_def sign_sync_def set_room_def logged_in_def)

lemma removeClient_stable: "stable w0 w \<Longrightarrow> always (removeClient c w) (stable w0)"
  unfolding removeClient_def
  by (rule radio_RemoveClient_keeps [OF stable_indifferent])
    (simp add: stable_def sign_sync_def set_room_def add_count_def)

lemma kickClient_stable: "stable w0 w \<Longrightarrow> always (kickClient c w) (stable w0)"
  unfolding kickClient_def
  by (rule always_andThen [OF removeClient_stable])
    (simp_all add: indifferentD(4) [OF stable_indifferent])

lemma handleKick_stable: "stable w0 w \<Longrightarrow> always (handleKick zw env data c w) (stable w0)"
  unfolding handleKick_def
  by (auto intro!: keeps always_andThen kickClient_stable stable_indifferent split: option.splits)

lemma Room_Close_stable:
  assumes "stable w0 w"
  shows "always (Room_Close env w) (stable w0)"
proof -
  have g: "stable w0 (set_room (\<lambda>m. m\<lparr>GoingClose := True\<rparr>) w)"
    using assms by (simp add: stable_def sign_sync_def set_room_def)
  have l: "stable w0 v \<Longrightarrow> stable w0 (set_room (\<lambda>m. m\<lparr>ln_open := False\<rparr>) v)" for v
    by (simp add: stable_def sign_sync_def set_room_def)
  have c: "always (radio_Close v) (stable w0)" if "stable w0 v" for v
    unfolding radio_Close_def
    by (rule indifferent_radio [OF stable_indifferent that]) (simp_all add: Radio_Close_def that)
  have r: "always (radio_Remove env v) (stable w0)" if "stable w0 v" for v
    unfolding radio_Remove_def
    by (rule indifferent_radio [OF stable_indifferent that])
      (auto simp: Radio_Remove_def locked_def that split: sum.splits)
  show ?thesis
    unfolding Room_Close_def
    using assms g l c r by (auto intro!: always_andThen)
qed

lemma room_handlers_stable:
  assumes "map_of (rev (room_handlers zw env)) req = Some h" and "stable w0 w"
  shows "always (h data c w) (stable w0)"
proof -
  have "h \<in> {handleJoin zw env, handleHeartbeat zw env, handleArchiveSign zw env, handleArchive zw env,
      handleClearAll zw env, handleKick zw env, handleOnlineList zw env, handleClose zw env, handleCheckout zw env}"
    using map_of_SomeD [OF assms(1)] by (auto simp: room_handlers_def)
  then show ?thesis
    using handlers_keep [OF stable_indifferent assms(2)] handleClearAll_keeps [OF stable_indifferent assms(2)]
      handleKick_stable [OF assms(2)] handleJoin_keeps [OF stable_indifferent assms(2)] assms(2)
    by (auto simp: stable_logged_in)
qed

lemma on_command_stable:
  assumes "stable w0 w"
  shows "always (on_command zw env data c w) (stable w0)"
proof -
  have "always (OnMessage (room_router zw env n) data c w) (\<lambda>x. stable w0 (fst (snd x)))" for n
    using room_handlers_stable [OF _ assms, of zw env _ _ data c] assms
    by (force simp: OnMessage_def dispatch_def always_def
        split: sum.splits option.splits exec.splits panic.splits)
  from this [of "router_readers (room w)"] show ?thesis
    using kickClient_stable indifferentD(5) [OF stable_indifferent]
    by (auto simp: on_command_def Let_def always_def [of "OnMessage _ _ _ _"] split: exec.splits prod.splits)
qed

lemma client_step_stable:
  assumes "stable w0 w"
  shows "always (client_step zw env c ev w) (\<lambda>x. stable w0 (fst x))"
proof -
  have goes: "always m (stable w0) \<Longrightarrow> always (goes b m) (\<lambda>x. stable w0 (fst x))" for m b
    by (cases m) (simp_all add: goes_def)
  have relay: "always (relay_to_radio env msg w) (stable w0)" for msg
    using hand_over_keeps [OF stable_indifferent assms] assms by (simp add: relay_to_radio_def)
  have empty_close: "stable w0 v \<Longrightarrow> always (processEmptyClose env v) (stable w0)" for v
    using Room_Close_stable by (simp add: processEmptyClose_def)
  have remove_all: "always (removeAllClient w) (stable w0)"
    unfolding removeAllClient_def
    by (rule radio_RemoveAllClients_keeps [OF stable_indifferent])
      (use assms in \<open>simp add: stable_def sign_sync_def set_room_def\<close>)
  have leave: "always (andThen (removeClient c w) (processEmptyClose env)) (stable w0)"
    by (rule always_andThen [OF removeClient_stable [OF assms] empty_close])
  show ?thesis
    unfolding client_step_def
    using assms relay remove_all leave on_command_stable [OF assms] removeClient_stable [OF assms]
      kickClient_stable [OF assms]
    by (auto intro!: goes split: client_event.splits)
qed

section \<open>Runs of a room\<close>

text \<open>What the radio's own goroutines do between the steps of the room.\<close>

inductive radio_step :: "Radio \<Rightarrow> Radio \<Rightarrow> bool" where
  ticks: "tick fault pid r = Done r' \<Longrightarrow> radio_step r r'"
| meets: "helper_meets i r = Done r' \<Longrightarrow> radio_step r r'"
| gives_up: "helper_times_out i r = Done r' \<Longrightarrow> radio_step r r'"
| stops: "stop_proc pid r = Done r' \<Longrightarrow> radio_step r r'"

inductive_cases radio_stepE: "radio_step r r'"

text \<open>
  One step of the room under any circumstances \<open>env\<close>: a connection is accepted, a client's goroutine
  handles an event, the radio finishes a message, a timer fires, the hourly check runs.
\<close>

inductive room_step :: "(bytes \<Rightarrow> bytes) \<Rightarrow> world \<Rightarrow> world \<Rightarrow> bool" for zw where
  accepts: "\<not> GoingClose (room w) \<Longrightarrow> c \<notin> set (serving w) \<Longrightarrow> c \<notin> fst ` set (room_clients (room w)) \<Longrightarrow>
    room_step zw w (accept_client c w)"
| serves: "c \<in> set (serving w) \<Longrightarrow> ev \<noteq> RoomClosing \<or> GoingClose (room w) \<Longrightarrow>
    client_step zw env c ev w = Done (w', goes_on) \<Longrightarrow>
    room_step zw w (if goes_on then w' else w'\<lparr>serving := removeAll c (serving w')\<rparr>)"
| finishes: "radio_finishes w = Done w' \<Longrightarrow> room_step zw w w'"
| radio: "radio (room w) = Some r \<Longrightarrow> radio_step r r' \<Longrightarrow> room_step zw w (with_radio r' w)"
| starts: "radio (room w) = Some r \<Longrightarrow> pid < length (procs r) \<Longrightarrow> room_step zw w (processClient_starts pid r w)"
| greets: "i < length (greetings w) \<Longrightarrow> greet zw env i w = Done w' \<Longrightarrow> room_step zw w w'"
| closes: "i < length (closers w) \<Longrightarrow> closer_fires env i w = Done w' \<Longrightarrow> room_step zw w w'"
| expires: "processExpire_round env w = Done (w', b) \<Longrightarrow> room_step zw w w'"

inductive_cases room_stepE: "room_step zw w w'"

definition room_reaches :: "(bytes \<Rightarrow> bytes) \<Rightarrow> world \<Rightarrow> world \<Rightarrow> bool" where
  "room_reaches zw = (room_step zw)\<^sup>*\<^sup>*"

lemma tick_sign: "tick fault pid r = Done r' \<Longrightarrow> signature r' = signature r"
  by (auto simp: tick_def stop_proc_def RemoveClient_def locked_def Let_def
      split: sum.splits prod.splits option.splits if_splits)

lemma helper_sign: "helper_meets i r = Done r' \<Longrightarrow> signature r' = signature r"
    "helper_times_out i r = Done r' \<Longrightarrow> signature r' = signature r"
  by (auto simp: helper_meets_def helper_times_out_def receive_chunk_def RemoveClient_def locked_def Let_def
      drop_helper_def split: sum.splits if_splits)

lemma stop_proc_sign: "stop_proc pid r = Done r' \<Longrightarrow> signature r' = signature r"
  by (auto simp: stop_proc_def RemoveClient_def locked_def split: if_splits)

lemma radio_step_sign: "radio_step r r' \<Longrightarrow> signature r' = signature r"
  by (erule radio_stepE) (simp_all add: tick_sign helper_sign stop_proc_sign)

lemma processClient_starts_keeps: "indifferent P \<Longrightarrow> P w \<Longrightarrow> P (processClient_starts pid r w)"
  by (simp add: processClient_starts_def set_sock_def Let_def indifferentD(2))

lemma stable_serving [simp]: "stable w0 (w\<lparr>serving := s\<rparr>) = stable w0 w"
  by (simp add: stable_def sign_sync_def)

lemma always_DoneD: "always m P \<Longrightarrow> m = Done a \<Longrightarrow> P a"
  by simp

lemma room_step_stable:
  assumes "room_step zw w w'" and "stable w0 w"
  shows "stable w0 w'"
  using assms(1)
proof cases
  case (accepts c)
  then show ?thesis
    using assms(2) by (simp add: accept_client_def stable_def sign_sync_def set_sock_def set_room_def add_count_def)
next
  case (serves c ev env w1 goes_on)
  then show ?thesis
    using always_DoneD [OF client_step_stable [OF assms(2)] serves(4)] by simp
next
  case finishes
  then show ?thesis
    using always_DoneD [OF radio_finishes_keeps [OF stable_indifferent assms(2)]] by blast
next
  case (radio r r')
  then show ?thesis
    using radio_step_sign [OF radio(3)] stable_indifferent [of w0] assms(2) by (auto simp: indifferent_def)
next
  case (starts r pid)
  then show ?thesis
    using processClient_starts_keeps [OF stable_indifferent assms(2)] by blast
next
  case (greets i env)
  then show ?thesis
    using always_DoneD [OF greet_keeps [OF stable_indifferent assms(2)]] by blast
next
  case (closes i env)
  then show ?thesis
    using always_DoneD [OF closer_fires_keeps [OF stable_indifferent assms(2)]] by blast
next
  case (expires env b)
  have "stable w0 (set_room (\<lambda>m. m\<lparr>Options := (Options m)\<lparr>EmptyClose := True\<rparr>\<rparr>) w)"
    by (rule indifferentD(7) [OF stable_indifferent assms(2)])
  then show ?thesis
    using expires assms(2) Room_Close_stable [OF assms(2), of env]
    by (auto simp: processExpire_round_def split: if_splits exec.splits)
qed

theorem room_reaches_stable:
  assumes "room_reaches zw w w'" and "sign_sync w"
  shows "stable w w'"
  using assms(1) unfolding room_reaches_def
  by (induction rule: rtranclp_induct) (use assms(2) stable_refl room_step_stable in blast)+

section \<open>Load\<close>

definition crowd :: "world \<Rightarrow> nat" where
  "crowd w = length (filter (\<lambda>(c, u). clientId u \<noteq> '''') (room_clients (room w)))"

text \<open>The counter is exact, and no more users are logged in than the room admits.\<close>

definition within_load :: "world \<Rightarrow> bool" where
  "within_load w \<longleftrightarrow> distinct (map fst (room_clients (room w))) \<and>
     currentClientsCount (room w) = int (length (room_clients (room w))) \<and>
     length (room_clients (room w)) < 2 ^ 31 \<and>
     int (crowd w) \<le> MaxLoad (Options (room w))"

lemma within_load_indifferent: "indifferent within_load"
  unfolding indifferent_def
  by (simp add: within_load_def crowd_def set_room_def with_radio_def)

lemma crowd_le: "crowd w \<le> length (room_clients (room w))"
  by (simp add: crowd_def)

lemma within_load_logged_in:
  assumes "within_load w" and "admitted (room w) c req"
  shows "within_load (set_room (logged_in env c (join_name req)) w)"
proof -
  let ?w = "set_room (logged_in env c (join_name req)) w"
  have mem: "c \<in> fst ` set (room_clients (room w))" and
    load: "int (length (room_clients (room w))) \<le> MaxLoad (Options (room w))"
    using assms by (auto simp: admitted_def within_load_def CurrentLoad_def)
  have keys: "map fst (room_clients (room ?w)) = map fst (room_clients (room w))"
    using mem by (simp add: set_room_def logged_in_def update_keys)
  then have len: "length (room_clients (room ?w)) = length (room_clients (room w))"
    by (metis length_map)
  have same: "currentClientsCount (room ?w) = currentClientsCount (room w)" "Options (room ?w) = Options (room w)"
    by (simp_all add: set_room_def logged_in_def)
  show ?thesis
    using assms(1) keys len same load crowd_le [of ?w] by (simp add: within_load_def)
qed

lemma length_delete:
  "distinct (map fst al) \<Longrightarrow> c \<in> fst ` set al \<Longrightarrow> Suc (length (AList.delete c al)) = length al"
proof (induction al)
  case (Cons x al)
  then show ?case
    by (cases x) auto
qed simp

lemma filter_delete_le:
  "length (filter P (AList.delete c al)) \<le> length (filter P al)"
  by (induction al) auto

lemma removeClient_within_load:
  assumes "within_load w" and "c \<in> fst ` set (room_clients (room w))"
  shows "always (removeClient c w) within_load"
  unfolding removeClient_def
proof (rule radio_RemoveClient_keeps [OF within_load_indifferent])
  have "Suc (length (AList.delete c (room_clients (room w)))) = length (room_clients (room w))"
    using assms by (intro length_delete) (auto simp: within_load_def)
  then show "within_load (set_room (\<lambda>m. add_count (- 1) (m\<lparr>room_clients := AList.delete c (room_clients m)\<rparr>)) w)"
    using assms filter_delete_le [of "\<lambda>(c, u). clientId u \<noteq> ''''" c "room_clients (room w)"]
    by (auto simp: within_load_def set_room_def add_count_def crowd_def distinct_delete)
qed


lemma Room_Close_within_load:
  assumes "within_load w"
  shows "always (Room_Close env w) within_load"
proof -
  have g: "within_load v \<Longrightarrow> within_load (set_room (\<lambda>m. m\<lparr>GoingClose := True\<rparr>) v)"
    "within_load v \<Longrightarrow> within_load (set_room (\<lambda>m. m\<lparr>ln_open := False\<rparr>) v)" for v
    by (simp_all add: within_load_def crowd_def set_room_def)
  have c: "always (radio_Close v) within_load" if "within_load v" for v
    unfolding radio_Close_def
    by (rule indifferent_radio [OF within_load_indifferent that]) (simp_all add: Radio_Close_def that)
  have r: "always (radio_Remove env v) within_load" if "within_load v" for v
    unfolding radio_Remove_def
    by (rule indifferent_radio [OF within_load_indifferent that])
      (auto simp: Radio_Remove_def locked_def that split: sum.splits)
  show ?thesis
    unfolding Room_Close_def
    using assms g c r by (auto intro!: always_andThen)
qed

lemma calm_handlers_within_load:
  assumes "map_of (rev (room_handlers zw env)) req = Some h" and "req \<noteq> ''kick''" and "within_load w"
  shows "always (h data c w) within_load"
proof -
  have "h \<in> {handleJoin zw env, handleHeartbeat zw env, handleArchiveSign zw env, handleArchive zw env,
      handleClearAll zw env, handleOnlineList zw env, handleClose zw env, handleCheckout zw env}"
    using map_of_SomeD [OF assms(1)] assms(2) by (auto simp: room_handlers_def)
  then show ?thesis
    using handlers_keep [OF within_load_indifferent assms(3)] handleClearAll_keeps [OF within_load_indifferent assms(3)]
      handleJoin_keeps [OF within_load_indifferent assms(3)] within_load_logged_in [OF assms(3)]
    by auto
qed

text \<open>
  Steps in which nobody is kicked: every command is a request the room can handle, no kick request
  comes in and no client falls silent for thirty seconds.
\<close>

definition calm_event :: "(bytes \<Rightarrow> bytes) \<Rightarrow> env \<Rightarrow> nat \<Rightarrow> client_event \<Rightarrow> world \<Rightarrow> bool" where
  "calm_event zw env c ev w \<longleftrightarrow>
     (case ev of
        ChannelClosed \<Rightarrow> True
      | GotPackage pkg \<Rightarrow>
          PackageType pkg = COMMAND \<longrightarrow>
            (\<exists>req r w1. carries ''request'' (Unpacked pkg) req \<and> req \<noteq> ''kick'' \<and>
               OnMessage (room_router zw env (router_readers (room w))) (Unpacked pkg) c w = Done (r, w1, None))
      | _ \<Rightarrow> False)"

inductive calm_step :: "(bytes \<Rightarrow> bytes) \<Rightarrow> world \<Rightarrow> world \<Rightarrow> bool" for zw where
  accepts: "\<not> GoingClose (room w) \<Longrightarrow> c \<notin> fst ` set (room_clients (room w)) \<Longrightarrow>
    Suc (length (room_clients (room w))) < 2 ^ 31 \<Longrightarrow> calm_step zw w (accept_client c w)"
| serves: "c \<in> fst ` set (room_clients (room w)) \<Longrightarrow> calm_event zw env c ev w \<Longrightarrow>
    client_step zw env c ev w = Done (w', goes_on) \<Longrightarrow> calm_step zw w w'"
| finishes: "radio_finishes w = Done w' \<Longrightarrow> calm_step zw w w'"
| radio: "radio (room w) = Some r \<Longrightarrow> radio_step r r' \<Longrightarrow> calm_step zw w (with_radio r' w)"
| starts: "radio (room w) = Some r \<Longrightarrow> pid < length (procs r) \<Longrightarrow> calm_step zw w (processClient_starts pid r w)"
| greets: "greet zw env i w = Done w' \<Longrightarrow> calm_step zw w w'"
| closes: "closer_fires env i w = Done w' \<Longrightarrow> calm_step zw w w'"
| expires: "processExpire_round env w = Done (w', b) \<Longrightarrow> calm_step zw w w'"

lemma map_fst_update_new: "c \<notin> fst ` set al \<Longrightarrow> AList.update c v al = al @ [(c, v)]"
  by (induction al) auto

lemma calm_command_within_load:
  assumes "within_load w" and "carries ''request'' data req" and "req \<noteq> ''kick''"
    and "OnMessage (room_router zw env (router_readers (room w))) data c w = Done (r, w1, None)"
    and "on_command zw env data c w = Done w'"
  shows "within_load w'"
proof -
  have "within_load w1"
  proof (cases "map_of (rev (room_handlers zw env)) req")
    case None
    then show ?thesis
      using assms OnMessage_unknown [of "room_router zw env (router_readers (room w))" data req c w] by simp
  next
    case (Some h)
    have "always (h data c w) within_load"
      by (rule calm_handlers_within_load [OF Some assms(3,1)])
    then show ?thesis
      using assms(2,4) Some by (auto simp: OnMessage_def dispatch_carries split: exec.splits panic.splits)
  qed
  then show ?thesis
    using assms(4,5) indifferentD(5) [OF within_load_indifferent] by (auto simp: on_command_def)
qed

lemma calm_serves:
  assumes "within_load w" and "c \<in> fst ` set (room_clients (room w))" and "calm_event zw env c ev w"
    and "client_step zw env c ev w = Done (w', goes_on)"
  shows "within_load w'"
proof -
  have goesD: "goes b m = Done (w', goes_on) \<Longrightarrow> m = Done w'" for b m
    by (cases m) (simp_all add: goes_def)
  have leave: "always (andThen (removeClient c w) (processEmptyClose env)) within_load"
    by (rule always_andThen [OF removeClient_within_load [OF assms(1,2)]])
      (simp add: processEmptyClose_def Room_Close_within_load)
  have relay: "always (relay_to_radio env msg w) within_load" for msg
    using hand_over_keeps [OF within_load_indifferent assms(1)] assms(1) by (simp add: relay_to_radio_def)
  show ?thesis
  proof (cases ev)
    case ChannelClosed
    then show ?thesis
      using assms(4) goesD always_DoneD [OF leave] by (auto simp: client_step_def)
  next
    case (GotPackage pkg)
    show ?thesis
    proof (cases "PackageType pkg = COMMAND")
      case True
      then obtain req r w1 where "carries ''request'' (Unpacked pkg) req" "req \<noteq> ''kick''"
        "OnMessage (room_router zw env (router_readers (room w))) (Unpacked pkg) c w = Done (r, w1, None)"
        using assms(3) GotPackage by (auto simp: calm_event_def)
      moreover have "on_command zw env (Unpacked pkg) c w = Done w'"
        using assms(4) GotPackage True goesD by (simp add: client_step_def)
      ultimately show ?thesis
        using calm_command_within_load [OF assms(1)] by blast
    next
      case False
      then show ?thesis
        using assms(1,4) GotPackage goesD always_DoneD [OF removeClient_within_load [OF assms(1,2)]]
          always_DoneD [OF relay]
        by (auto simp: client_step_def split: if_splits)
    qed
  qed (use assms(3) in \<open>simp_all add: calm_event_def\<close>)
qed

lemma accept_within_load:
  assumes "within_load w" and "c \<notin> fst ` set (room_clients (room w))"
    and "Suc (length (room_clients (room w))) < 2 ^ 31"
  shows "within_load (accept_client c w)"
  using assms
  by (simp add: within_load_def accept_client_def set_sock_def set_room_def add_count_def crowd_def map_fst_update_new)

lemma calm_step_within_load:
  assumes "calm_step zw w w'" and "within_load w"
  shows "within_load w'"
  using assms(1)
proof cases
  case (accepts c)
  then show ?thesis
    using accept_within_load [OF assms(2)] by simp
next
  case (serves c env ev goes_on)
  then show ?thesis
    using calm_serves [OF assms(2)] by blast
next
  case finishes
  then show ?thesis
    using always_DoneD [OF radio_finishes_keeps [OF within_load_indifferent assms(2)]] by blast
next
  case (radio r r')
  then show ?thesis
    using radio_step_sign [OF radio(3)] within_load_indifferent assms(2) by (auto simp: indifferent_def)
next
  case (starts r pid)
  then show ?thesis
    using processClient_starts_keeps [OF within_load_indifferent assms(2)] by blast
next
  case (greets env i)
  then show ?thesis
    using always_DoneD [OF greet_keeps [OF within_load_indifferent assms(2)]] by blast
next
  case (closes env i)
  then show ?thesis
    using always_DoneD [OF closer_fires_keeps [OF within_load_indifferent assms(2)]] by blast
next
  case (expires env b)
  have "within_load (set_room (\<lambda>m. m\<lparr>Options := (Options m)\<lparr>EmptyClose := True\<rparr>\<rparr>) w)"
    by (rule indifferentD(7) [OF within_load_indifferent assms(2)])
  then show ?thesis
    using expires assms(2) Room_Close_within_load [OF assms(2), of env]
    by (auto simp: processExpire_round_def split: if_splits exec.splits)
qed

theorem calm_run_within_load:
  assumes "(calm_step zw)\<^sup>*\<^sup>* w w'" and "within_load w"
  shows "within_load w'"
  using assms by (induction rule: rtranclp_induct) (auto intro: calm_step_within_load)

end
