(* ===== verification/RoomLife.thy ===== *)
theory RoomLife
  imports RoomInvariants
begin

text \<open>
  What the larger operations of a room achieve: handing out the archive, clearing it, closing and
  expiring the room, making a new one and recovering one from its dump.
\<close>

section \<open>The archive\<close>

lemma archive_length_inside:
  "0 \<le> start \<Longrightarrow> 0 \<le> asked \<Longrightarrow> start + asked \<le> real \<Longrightarrow> real < 2 ^ 63 \<Longrightarrow>
   archive_length real start asked = real - start"
  by (auto simp: archive_length_def Let_def)

lemma archive_length_beyond:
  "0 \<le> start \<Longrightarrow> start \<le> real \<Longrightarrow> real < start + asked \<Longrightarrow> start + asked < 2 ^ 63 \<Longrightarrow>
   archive_length real start asked = asked"
  by (auto simp: archive_length_def Let_def)

section \<open>Clearing\<close>

definition radio_file :: "world \<Rightarrow> BufferedFile option" where
  "radio_file w = map_option rfile (radio (room w))"

lemma single_send_file:
  assumes "inbox w = []"
  shows "ensures (hand_over env (SingleSendMsg d c b) w) (\<lambda>w'. radio_file w' = radio_file w \<and> length (inbox w') \<le> 1)"
proof (cases "radio (room w)")
  case (Some r)
  have w: "w\<lparr>inbox := []\<rparr> = w"
    using assms by (metis world.surjective world.update_convs(2))
  have f: "rfile r' = rfile r" if "run_msg (SingleSendMsg d c b) r = Done r'" for r'
    using that by (auto simp: run_msg_def singleSend_def locked_def receive_chunk_def
        split: if_splits option.splits sum.splits)
  show ?thesis
    using Some assms w f
    by (cases "run_msg (SingleSendMsg d c b) r")
      (auto simp: hand_over_def radio_finishes_def serve_one_def on_radio_def radio_file_def set_room_def Let_def)
qed (simp add: hand_over_def)

lemma singleSend_ready:
  assumes "\<not> stuck r" and "\<And>pid. map_of (clients r) c = Some pid \<Longrightarrow> alive (procs r ! pid)"
  shows "\<exists>r'. singleSend True d c r = Done r'"
  using assms by (auto simp: singleSend_def locked_def receive_chunk_def appendToPendings_def split: option.splits)

lemma sendCommandTo_ready:
  assumes "radio (room w) = Some r" and "\<not> closed r" and "\<not> stuck r" and "inbox w = []" and "meets env c"
    and "\<And>pid. map_of (clients r) c = Some pid \<Longrightarrow> alive (procs r ! pid)"
  shows "\<exists>w'. sendCommandTo zw env resp c w = Done w'"
proof (cases "prompt env")
  case True
  obtain r' where "singleSend True (AssamblePack zw \<lparr>Compress = True, PackType = COMMAND\<rparr> (Marshal resp)) c r = Done r'"
    using singleSend_ready [OF assms(3,6)] by blast
  then show ?thesis
    using hand_over_prompt [OF assms(1,2,4) True] assms(2,5)
    by (auto simp: sendCommandTo_def sendTo_def run_msg_def)
next
  case False
  have "radio_finishes w = Done w"
    using assms(4) by (simp add: radio_finishes_def)
  then show ?thesis
    using False assms by (simp add: sendCommandTo_def sendTo_def hand_over_def radio_closed_def)
qed

section \<open>Closing\<close>

definition room_closed :: "world \<Rightarrow> bool" where
  "room_closed w \<longleftrightarrow> GoingClose (room w) \<and> \<not> ln_open (room w) \<and>
     (\<exists>r. radio (room w) = Some r \<and> closed r \<and> \<not> linked (rfile r))"

lemma Room_Close_done:
  assumes "\<not> GoingClose (room w)" and "radio (room w) = Some r" and "\<not> closed r" and "\<not> stuck r"
    and "\<not> goingClose (rfile r)"
  shows "\<exists>w'. Room_Close env w = Done w' \<and> room_closed w' \<and> room_clients (room w') = room_clients (room w)"
proof -
  let ?r1 = "r\<lparr>closed := True\<rparr>"
  obtain f err where f: "BufferedFile_Close (disk_faults env) (rfile r) = Inr (f, err)"
    using assms(5) by (cases "Sync (disk_faults env) ((rfile r)\<lparr>goingClose := True\<rparr>)";
        cases "snd (Sync (disk_faults env) ((rfile r)\<lparr>goingClose := True\<rparr>))")
      (auto simp: BufferedFile_Close_def)
  show ?thesis
    using assms f
    by (simp add: Room_Close_def radio_Close_def radio_Remove_def on_radio_def Radio_Close_def Radio_Remove_def
        locked_def set_room_def room_closed_def BufferedFile_Remove_def)
qed

lemma Room_Close_twice: "GoingClose (room w) \<Longrightarrow> Room_Close env w = Panics close_of_closed w"
  by (simp add: Room_Close_def)

section \<open>Expiring\<close>

text \<open>An hourly check: nothing happens early; later an empty room closes and another is marked.\<close>

lemma expire_early:
  assumes "\<not> GoingClose (room w)" and "0 \<le> expiration (room w)" and "expiration (room w) < 2 ^ 21"
    and "lastCheck (room w) \<le> clock env" and "clock env - lastCheck (room w) \<le> hour * expiration (room w)"
  shows "processExpire_round env w = Done (w, True)"
proof -
  have "hour * expiration (room w) < 2 ^ 63" "0 \<le> hour * expiration (room w)"
    using assms(2,3) by (auto simp: hour_def)
  then show ?thesis
    using assms by (simp add: processExpire_round_def Since_def)
qed

lemma expire_late:
  assumes "\<not> GoingClose (room w)" and "0 \<le> expiration (room w)" and "expiration (room w) < 2 ^ 21"
    and "hour * expiration (room w) < clock env - lastCheck (room w)" and "radio (room w) = Some r"
    and "\<not> closed r" and "\<not> stuck r" and "\<not> goingClose (rfile r)"
  shows "\<exists>w'. processExpire_round env w = Done (w', True) \<and>
    (if currentClientsCount (room w) = 0 then room_closed w'
     else w' = set_room (\<lambda>m. m\<lparr>Options := (Options m)\<lparr>EmptyClose := True\<rparr>\<rparr>) w)"
proof -
  have b: "hour * expiration (room w) < 2 ^ 63 - 1" "0 \<le> hour * expiration (room w)"
    using assms(2,3) by (auto simp: hour_def)
  then have late: "wrap64 (hour * expiration (room w)) < Since env (lastCheck (room w))"
    using assms(4) by (simp add: Since_def)
  obtain w' where "Room_Close env w = Done w'" "room_closed w'"
    using Room_Close_done [OF assms(1,5,6,7,8)] by blast
  then show ?thesis
    using assms(1) late by (auto simp: processExpire_round_def)
qed

section \<open>Making and recovering a room\<close>

lemma MakeRadio_spec:
  "\<exists>r. MakeRadio False False existing file_name sign = Inr (Inr r) \<and> hub_inv r \<and> helpers r = [] \<and> clients r = [] \<and>
     \<not> closed r \<and> signature r = sign \<and> contents (rfile r) = (case existing of None \<Rightarrow> [] | Some b \<Rightarrow> b)"
proof -
  obtain f where "MakeBufferedFile False False existing
      \<lparr>FileName = file_name, WriteCycle = 20 * 10 ^ 9, BufferSize = 1024 * 50\<rparr> = Inr (f, None)"
    "bf_inv f" "contents f = (case existing of None \<Rightarrow> [] | Some b \<Rightarrow> b)"
    using MakeBufferedFile_spec [of "\<lparr>FileName = file_name, WriteCycle = 20 * 10 ^ 9, BufferSize = 1024 * 50\<rparr>" existing]
    by auto
  then show ?thesis
    by (simp add: MakeRadio_def hub_inv_def)
qed

definition healthy_init :: "init_env \<Rightarrow> bool" where
  "healthy_init ienv \<longleftrightarrow> \<not> resolve_fails ienv \<and> \<not> mkdir_fails ienv \<and> \<not> radio_open_err ienv \<and> \<not> radio_stat_err ienv"

definition data_path :: "env \<Rightarrow> string \<Rightarrow> string" where
  "data_path env sign = Join (ReadConfString (conf env) ''data_dir'' ''./data/'') (sign @ ''.data'')"

lemma genSignedKey_nonempty: "genSignedKey salt source \<noteq> ''''"
  by (simp add: genSignedKey_def FormatUint32_nonempty)

text \<open>Making the radio and the listener once the identity of the room is settled.\<close>

lemma Room_init_known:
  assumes "healthy_init ienv" and "key m \<noteq> ''''" and "listen_port ienv = Some p"
  shows "\<exists>r. Room_init ienv env m = Done (m\<lparr>GoingClose := False, router_readers := 0, radio := Some r,
      ln_open := True, port := p\<rparr>, None) \<and>
    hub_inv r \<and> helpers r = [] \<and> clients r = [] \<and> \<not> closed r \<and> signature r = archiveSign m \<and>
    contents (rfile r) = (case data_files ienv (data_path env (archiveSign m)) of None \<Rightarrow> [] | Some b \<Rightarrow> b)"
  using assms MakeRadio_spec [of "data_files ienv (data_path env (archiveSign m))" "data_path env (archiveSign m)" "archiveSign m"]
  by (auto simp: Room_init_def room_identity_def healthy_init_def data_path_def Let_def)

text \<open>A room dumped to its database record and recovered from it is the same room on the same archive.\<close>

lemma recover_dump:
  assumes "info_ok (room_info m)" and "key m \<noteq> ''''" and "healthy_init ienv" and "listen_port ienv = Some (port m)"
  shows "\<exists>m' r. RecoverRoom ienv env (parseRoomRuntimeInfo (dumpRoom m)) = Done (m', None) \<and>
    room_info m' = room_info m \<and> room_clients m' = [] \<and> currentClientsCount m' = 0 \<and> \<not> GoingClose m' \<and>
    radio m' = Some r \<and> hub_inv r \<and> signature r = archiveSign m \<and>
    contents (rfile r) = (case data_files ienv (data_path env (archiveSign m)) of None \<Rightarrow> [] | Some b \<Rightarrow> b)"
proof -
  have info: "parseRoomRuntimeInfo (dumpRoom m) = room_info m"
    using assms(1) by (simp add: dumpRoom_def parse_ToJson)
  let ?m = "Room_zero\<lparr>port := port m, expiration := expiration m, archiveSign := archiveSign m, key := key m,
      Options := Options m, lastCheck := clock env\<rparr>"
  have "key ?m \<noteq> ''''"
    using assms(2) by simp
  from Room_init_known [OF assms(3) this assms(4), of env]
  show ?thesis
    by (auto simp: RecoverRoom_def info room_info_def init_result_def Room_zero_def)
qed

text \<open>A record without a key is recovered as a brand-new room.\<close>

lemma recover_without_key:
  assumes "info_Key info = ''''" and "healthy_init ienv" and "listen_port ienv = Some p"
  shows "\<exists>m'. RecoverRoom ienv env info = Done (m', None) \<and> port m' = p \<and>
    key m' = genSignedKey (ReadConfBytes (conf env) ''globalSaltHash'')
      (str_bytes (Name (info_Options info)) @ str_bytes (Password (info_Options info))) \<and>
    archiveSign m' = genArchiveSign (random63 env) (Name (info_Options info))"
proof -
  let ?sign = "genArchiveSign (random63 env) (Name (info_Options info))"
  show ?thesis
    using assms MakeRadio_spec [of "data_files ienv (data_path env ?sign)" "data_path env ?sign" ?sign]
    by (auto simp: RecoverRoom_def Room_init_def room_identity_def healthy_init_def data_path_def Let_def init_result_def)
qed

text \<open>A new room: its key, its signature and an archive of its own.\<close>

lemma ServeRoom_done:
  assumes "healthy_init ienv" and "listen_port ienv = Some p"
  shows "\<exists>m r. ServeRoom ienv env opt = Done (m, None) \<and> Options m = opt \<and> port m = p \<and>
    key m = genSignedKey (ReadConfBytes (conf env) ''globalSaltHash'') (str_bytes (Name opt) @ str_bytes (Password opt)) \<and>
    archiveSign m = genArchiveSign (random63 env) (Name opt) \<and> lastCheck m = clock env \<and>
    expiration m = ReadConfInt (conf env) ''expiration'' 0 \<and> room_clients m = [] \<and> currentClientsCount m = 0 \<and>
    radio m = Some r \<and> hub_inv r \<and> helpers r = [] \<and> clients r = [] \<and> \<not> closed r \<and> signature r = archiveSign m"
proof -
  let ?sign = "genArchiveSign (random63 env) (Name opt)"
  show ?thesis
    using assms MakeRadio_spec [of "data_files ienv (data_path env ?sign)" "data_path env ?sign" ?sign]
    by (auto simp: ServeRoom_def Room_init_def room_identity_def healthy_init_def data_path_def Let_def init_result_def
        Room_zero_def)
qed

text \<open>
  An archive that cannot be opened goes unnoticed: the room is served with the empty radio, every
  login that passes the checks panics half way and every answer through the radio waits for ever.
\<close>

lemma broken_archive_served:
  assumes "\<not> resolve_fails ienv" and "\<not> mkdir_fails ienv" and "radio_open_err ienv" and "listen_port ienv = Some p"
  shows "\<exists>m. ServeRoom ienv env opt = Done (m, None) \<and> radio m = None"
  using assms
  by (auto simp: ServeRoom_def Room_init_def room_identity_def Let_def init_result_def MakeRadio_def
      MakeBufferedFile_def make_ok_def openForRead_def Room_zero_def)

lemma broken_archive_hangs:
  assumes "radio (room w) = None"
  shows "sendCommandTo zw env resp c w = Blocks"
  using assms by (simp add: sendCommandTo_def sendTo_def hand_over_def)

section \<open>A connection's end\<close>

text \<open>
  A client goroutine whose write fails ends without giving its close callback back.  The later \<open>Close\<close>
  of the connection (by the read loop or a kick's timer) then waits for a receiver that is gone.
\<close>

lemma delete_removes: "(k, v) \<notin> set (AList.delete k al)"
  by (induction al) auto

lemma failed_write_stops:
  assumes "tick (Some k) pid r = Done r'" and "pid < length (procs r)"
    and "fetch_item (ReadAt (rfile r)) (tasks (procs r ! pid)) = Inr (q, Some data)"
  shows "\<not> alive (procs r' ! pid) \<and> pclient (procs r ! pid) \<notin> fst ` set (clients r')"
  using assms by (auto simp: tick_def stop_proc_def RemoveClient_def locked_def Let_def delete_removes split: if_splits)

lemma failed_write_blocks_close:
  assumes "radio (room w) = Some r" and "pid < length (procs r)" and "pclient (procs r ! pid) = c"
    and "fetch_item (ReadAt (rfile r)) (tasks (procs r ! pid)) = Inr (q, Some data)"
    and "tick (Some k) pid r = Done r'" and "closeFlag (socks w c) = OnceFresh"
    and "\<forall>p. listens env p \<longleftrightarrow> alive (procs r' ! p)"
  shows "close_sock env c (with_radio r' (processClient_starts pid r w)) = Blocks"
proof -
  let ?s = "RegisterCloseCallback pid (socks w c)"
  have "\<not> listens env pid"
    using failed_write_stops [OF assms(5,2,4)] assms(7) by simp
  then have "\<not> snd (run_callbacks (listens env) (closeCallbackList ?s))"
    by (simp add: run_callbacks_returns RegisterCloseCallback_def)
  moreover have "closeFlag ?s = OnceFresh"
    using assms(6) by (simp add: RegisterCloseCallback_def)
  ultimately show ?thesis
    using assms(3)
    by (auto simp: close_sock_def Socket_Close_def processClient_starts_def with_radio_def set_sock_def set_room_def
        Let_def split: prod.splits)
qed

text \<open>
  Otherwise closing the connection of a goroutine that serves it unregisters the client: the callback
  is received and the goroutine's reaction takes the client out of the radio.
\<close>

lemma close_unregisters:
  assumes "pid < length (procs r)" and "pclient (procs r ! pid) = c" and "\<not> stuck r"
    and "closeFlag (socks w c) = OnceFresh"
    and "\<forall>p \<in> set (closeCallbackList (socks w c)). listens env p" and "listens env pid"
  shows "\<exists>w' r'. close_sock env c (processClient_starts pid r w) = Done w' \<and>
    \<not> con_open (socks w' c) \<and> closeCallbackList (socks w' c) = [] \<and>
    pid \<in> set (fst (snd (Socket_Close (listens env) (RegisterCloseCallback pid (socks w c))))) \<and>
    stop_proc pid r = Done r' \<and> c \<notin> fst ` set (clients r')"
proof -
  have "run_callbacks (listens env) (closeCallbackList (socks w c) @ [pid]) = (closeCallbackList (socks w c) @ [pid], True)"
    by (rule run_callbacks_all) (use assms in auto)
  moreover have "stop_proc pid r = Done (r\<lparr>procs := (procs r)[pid := (procs r ! pid)\<lparr>alive := False\<rparr>],
      clients := AList.delete c (clients r)\<rparr>)"
    using assms(2,3) by (simp add: stop_proc_def RemoveClient_def locked_def)
  ultimately show ?thesis
    using assms(2,4)
    by (auto simp: close_sock_def Socket_Close_def processClient_starts_def set_sock_def RegisterCloseCallback_def Let_def
        delete_removes)
qed

end
