(* ===== verification/RoomStore.thy ===== *)
theory RoomStore
  imports Prelude
begin

text \<open>
  The database of the room manager.  The program calls goleveldb through \<open>Put\<close>, \<open>Delete\<close>, a
  \<open>Batch\<close> of both that \<open>Write\<close> applies in order, and an iterator over the entries whose key
  starts with \<open>room-\<close>.  The locale \<open>kv_store\<close> states what the program relies on: the entries are a
  finite map, put and delete change one key.  The model's store keeps the entries in key order, as
  the database does.
\<close>

locale kv_store =
  fixes put :: "bytes \<Rightarrow> bytes \<Rightarrow> 'd \<Rightarrow> 'd"
    and del :: "bytes \<Rightarrow> 'd \<Rightarrow> 'd"
    and entries :: "'d \<Rightarrow> (bytes \<times> bytes) list"
  assumes distinct_entries: "distinct (map fst (entries d))"
    and entries_put: "map_of (entries (put k v d)) = (map_of (entries d))(k \<mapsto> v)"
    and entries_del: "map_of (entries (del k d)) = (map_of (entries d))(k := None)"

section \<open>Batches\<close>

datatype batch_op = BatchPut bytes bytes | BatchDelete bytes

definition apply_op :: "(bytes \<Rightarrow> bytes \<Rightarrow> 'd \<Rightarrow> 'd) \<Rightarrow> (bytes \<Rightarrow> 'd \<Rightarrow> 'd) \<Rightarrow> batch_op \<Rightarrow> 'd \<Rightarrow> 'd" where
  "apply_op put del op d = (case op of BatchPut k v \<Rightarrow> put k v d | BatchDelete k \<Rightarrow> del k d)"

definition Write_batch :: "(bytes \<Rightarrow> bytes \<Rightarrow> 'd \<Rightarrow> 'd) \<Rightarrow> (bytes \<Rightarrow> 'd \<Rightarrow> 'd) \<Rightarrow> batch_op list \<Rightarrow> 'd \<Rightarrow> 'd" where
  "Write_batch put del ops d = fold (apply_op put del) ops d"

definition op_key :: "batch_op \<Rightarrow> bytes" where
  "op_key op = (case op of BatchPut k v \<Rightarrow> k | BatchDelete k \<Rightarrow> k)"

definition op_value :: "batch_op \<Rightarrow> bytes option" where
  "op_value op = (case op of BatchPut k v \<Rightarrow> Some v | BatchDelete k \<Rightarrow> None)"

definition has_prefix :: "bytes \<Rightarrow> bytes \<times> bytes \<Rightarrow> bool" where
  "has_prefix p kv \<longleftrightarrow> take (length p) (fst kv) = p"

lemma find_map: "find P (map g xs) = map_option g (find (\<lambda>x. P (g x)) xs)"
  by (induction xs) auto

lemma find_prefix:
  "find (\<lambda>kv. fst kv = k) (filter (has_prefix p) es) =
     (if take (length p) k = p then map_option (Pair k) (map_of es k) else None)"
  by (induction es) (auto simp: has_prefix_def)

definition rewrite_op :: "(bytes \<Rightarrow> bytes option) \<Rightarrow> bytes \<times> bytes \<Rightarrow> batch_op" where
  "rewrite_op f kv = (case f (snd kv) of Some v' \<Rightarrow> BatchPut (fst kv) v' | None \<Rightarrow> BatchDelete (fst kv))"

lemma rewrite_op_simps: "op_key (rewrite_op f kv) = fst kv" "op_value (rewrite_op f kv) = f (snd kv)"
  by (simp_all add: op_key_def op_value_def rewrite_op_def split: option.splits)

context kv_store begin

lemma entries_apply: "map_of (entries (apply_op put del op d)) = (map_of (entries d))(op_key op := op_value op)"
  by (cases op) (simp_all add: apply_op_def op_key_def op_value_def entries_put entries_del)

text \<open>A batch that names each key once: every key ends with what its operation says.\<close>

lemma Write_batch_lookup:
  "distinct (map op_key ops) \<Longrightarrow>
   map_of (entries (Write_batch put del ops d)) k =
     (case find (\<lambda>op. op_key op = k) ops of None \<Rightarrow> map_of (entries d) k | Some op \<Rightarrow> op_value op)"
proof (induction ops arbitrary: d)
  case (Cons op ops)
  have "op_key op = k \<Longrightarrow> find (\<lambda>op. op_key op = k) ops = None"
    using Cons.prems by (induction ops) auto
  then show ?case
    using Cons by (auto simp: Write_batch_def entries_apply split: option.splits)
qed (simp add: Write_batch_def)

text \<open>Rewriting every entry under a prefix: the batch of one operation per entry.\<close>

definition rewrite_prefix :: "bytes \<Rightarrow> (bytes \<Rightarrow> bytes option) \<Rightarrow> 'd \<Rightarrow> 'd" where
  "rewrite_prefix p f d =
     Write_batch put del (map (rewrite_op f) (filter (has_prefix p) (entries d))) d"

lemma rewrite_prefix_lookup:
  "map_of (entries (rewrite_prefix p f d)) k =
     (case map_of (entries d) k of
        None \<Rightarrow> None
      | Some v \<Rightarrow> if take (length p) k = p then f v else Some v)"
proof -
  let ?ops = "map (rewrite_op f) (filter (has_prefix p) (entries d))"
  have "map op_key ?ops = map fst (filter (has_prefix p) (entries d))"
    by (simp add: rewrite_op_simps o_def)
  then have "distinct (map op_key ?ops)"
    using distinct_map_filter [OF distinct_entries [of d], of "has_prefix p"] by (simp only:)
  moreover have "find (\<lambda>op. op_key op = k) ?ops = (if take (length p) k = p
      then map_option (\<lambda>v. rewrite_op f (k, v)) (map_of (entries d) k) else None)"
    by (simp add: find_map rewrite_op_simps find_prefix option.map_comp o_def)
  ultimately show ?thesis
    using Write_batch_lookup [of ?ops d k]
    by (simp add: rewrite_prefix_def rewrite_op_simps split: option.splits)
qed

end

section \<open>The store of the model\<close>

type_synonym db = "(bytes \<times> bytes) list"

text \<open>Byte-wise order of keys.\<close>

fun key_less :: "bytes \<Rightarrow> bytes \<Rightarrow> bool" where
  "key_less [] ys = (ys \<noteq> [])"
| "key_less (x # xs) [] = False"
| "key_less (x # xs) (y # ys) = (x < y \<or> x = y \<and> key_less xs ys)"

fun db_put :: "bytes \<Rightarrow> bytes \<Rightarrow> db \<Rightarrow> db" where
  "db_put k v [] = [(k, v)]"
| "db_put k v ((k', v') # d) =
     (if k = k' then (k, v) # d
      else if key_less k k' then (k, v) # (k', v') # d
      else (k', v') # db_put k v d)"

definition db_del :: "bytes \<Rightarrow> db \<Rightarrow> db" where
  "db_del k d = filter (\<lambda>kv. fst kv \<noteq> k) d"

fun ordered :: "db \<Rightarrow> bool" where
  "ordered [] = True"
| "ordered [kv] = True"
| "ordered (kv # kv' # d) = (key_less (fst kv) (fst kv') \<and> ordered (kv' # d))"

lemma key_less_Nil [simp]: "\<not> key_less xs []"
  by (cases xs) simp_all

lemma key_less_irrefl [simp]: "\<not> key_less k k"
  by (induction k) auto

lemma key_less_trans: "key_less a b \<Longrightarrow> key_less b c \<Longrightarrow> key_less a c"
proof (induction a b arbitrary: c rule: key_less.induct)
  case (3 x xs y ys)
  then show ?case
    by (cases c) auto
qed (case_tac c; auto)+

lemma key_less_total: "key_less a b \<or> a = b \<or> key_less b a"
  by (induction a b rule: key_less.induct) auto

lemma ordered_Cons: "ordered (kv # d) \<longleftrightarrow> ordered d \<and> (\<forall>x \<in> fst ` set d. key_less (fst kv) x)"
proof (induction d arbitrary: kv)
  case (Cons x d)
  then show ?case
    by (auto intro: key_less_trans)
qed simp

lemma keys_put: "fst ` set (db_put k v d) = insert k (fst ` set d)"
  by (induction k v d rule: db_put.induct) auto

lemma ordered_put: "ordered d \<Longrightarrow> ordered (db_put k v d)"
proof (induction k v d rule: db_put.induct)
  case (2 k v k' v' d)
  then show ?case
    using key_less_total [of k k'] by (auto simp: ordered_Cons keys_put intro: key_less_trans)
qed simp

lemma ordered_del: "ordered d \<Longrightarrow> ordered (db_del k d)"
  by (induction d) (auto simp: db_del_def ordered_Cons)

lemma ordered_distinct: "ordered d \<Longrightarrow> distinct (map fst d)"
  by (induction d) (auto simp: ordered_Cons)

lemma lookup_put: "ordered d \<Longrightarrow> map_of (db_put k v d) = (map_of d)(k \<mapsto> v)"
  by (induction k v d rule: db_put.induct) (auto simp: ordered_Cons)

lemma lookup_del: "map_of (db_del k d) = (map_of d)(k := None)"
  by (induction d) (auto simp: db_del_def)

typedef database = "{d. ordered d}"
  morphisms db_entries Abs_database
  by (rule exI [of _ "[]"]) simp

setup_lifting type_definition_database

text \<open>Databases are compared by their entries.\<close>

instantiation database :: equal
begin

definition equal_database :: "database \<Rightarrow> database \<Rightarrow> bool" where
  "equal_database d d' \<longleftrightarrow> db_entries d = db_entries d'"

instance
  by standard (simp add: equal_database_def db_entries_inject)

end

lift_definition empty_database :: database is "[]"
  by simp

lift_definition database_put :: "bytes \<Rightarrow> bytes \<Rightarrow> database \<Rightarrow> database" is db_put
  by (rule ordered_put)

lift_definition database_del :: "bytes \<Rightarrow> database \<Rightarrow> database" is db_del
  by (rule ordered_del)

interpretation leveldb: kv_store database_put database_del db_entries
proof unfold_locales
  show "distinct (map fst (db_entries d))" for d
    using db_entries [of d] by (simp add: ordered_distinct)
  show "map_of (db_entries (database_put k v d)) = (map_of (db_entries d))(k \<mapsto> v)" for k v d
    using db_entries [of d] by (simp add: database_put.rep_eq lookup_put)
  show "map_of (db_entries (database_del k d)) = (map_of (db_entries d))(k := None)" for k d
    by (simp add: database_del.rep_eq lookup_del)
qed

end
