(* ===== verification/Manager.thy ===== *)
theory Manager
  imports RoomLife RoomStore
begin

text \<open>
  \<open>src/src/server/pkg/RoomManager\<close>: the room manager.  It listens for clients, lists and creates
  rooms, keeps a record of every room in the database, recovers the rooms from it at start and lets
  the records expire.  The database operations are the parameters \<open>put\<close>, \<open>del\<close> and \<open>entries\<close> of
  the locale \<open>kv_store\<close>.
\<close>

section \<open>Messages (Requests.go, Responses.go)\<close>

record NewRoomRequest =
  new_request :: string
  new_info :: RoomOption

definition NewRoomRequest_zero :: NewRoomRequest where
  "NewRoomRequest_zero = \<lparr>new_request = '''', new_info = RoomOption_zero\<rparr>"

text \<open>\<open>NewRoomInfoForRequest\<close> and its \<open>NewRoomSize\<close>, decoded into the options they end up as.\<close>

definition NewRoomSize_fields :: "(string \<times> RoomOption setter) list" where
  "NewRoomSize_fields =
     [(''width'', set_int64 (\<lambda>n r. r\<lparr>Width := n\<rparr>)), (''height'', set_int64 (\<lambda>n r. r\<lparr>Height := n\<rparr>))]"

definition NewRoomInfo_fields :: "(string \<times> RoomOption setter) list" where
  "NewRoomInfo_fields =
     [(''name'', set_string (\<lambda>s r. r\<lparr>Name := s\<rparr>)),
      (''maxload'', set_int64 (\<lambda>n r. r\<lparr>MaxLoad := n\<rparr>)),
      (''welcomemsg'', set_string (\<lambda>s r. r\<lparr>WelcomeMsg := s\<rparr>)),
      (''emptyclose'', set_bool (\<lambda>b r. r\<lparr>EmptyClose := b\<rparr>)),
      (''size'', decode_struct NewRoomSize_fields),
      (''password'', set_string (\<lambda>s r. r\<lparr>Password := s\<rparr>))]"

definition NewRoomRequest_fields :: "(string \<times> NewRoomRequest setter) list" where
  "NewRoomRequest_fields =
     [(''request'', set_string (\<lambda>s r. r\<lparr>new_request := s\<rparr>)),
      (''info'', set_struct NewRoomInfo_fields new_info (\<lambda>x r. r\<lparr>new_info := x\<rparr>))]"

record RoomListRequest =
  list_request :: string

definition RoomListRequest_fields :: "(string \<times> RoomListRequest setter) list" where
  "RoomListRequest_fields = [(''request'', set_string (\<lambda>s r. r\<lparr>list_request := s\<rparr>))]"

definition RoomPublicInfo :: "Room \<Rightarrow> json" where
  "RoomPublicInfo m =
     JObj [(''name'', JStr (Name (Options m))), (''currentload'', JInt (CurrentLoad m)),
           (''maxload'', JInt (MaxLoad (Options m))), (''private'', JBool (length (Password (Options m)) > 0)),
           (''serveraddress'', JStr ''0.0.0.0''), (''port'', JInt (Port m))]"

definition RoomListResponse :: "bool \<Rightarrow> json list \<Rightarrow> int \<Rightarrow> json" where
  "RoomListResponse result roomlist errcode =
     JObj [(''response'', JStr ''roomlist''), (''result'', JBool result), (''roomlist'', JArr roomlist),
           (''errcode'', JInt errcode)]"

definition NewRoomInfoForReply :: "int \<Rightarrow> string \<Rightarrow> string \<Rightarrow> json" where
  "NewRoomInfoForReply p k pwd = JObj [(''port'', JInt p), (''key'', JStr k), (''password'', JStr pwd)]"

definition NewRoomResponse :: "bool \<Rightarrow> json \<Rightarrow> int \<Rightarrow> json" where
  "NewRoomResponse result info errcode =
     JObj [(''response'', JStr ''newroom''), (''result'', JBool result), (''info'', info),
           (''errcode'', JInt errcode)]"

section \<open>State\<close>

text \<open>
  \<open>rooms\<close> is the \<open>sync.Map\<close> from names to rooms, each with its present state; \<open>running\<close> lists the
  goroutines that run a room and then call \<open>waitRoomClosed\<close> with its name.
\<close>

record 'd RoomManager =
  manager_open :: bool
  manager_closing :: bool
  manager_readers :: nat
  rooms :: "(string \<times> Room) list"
  currentRoomCount :: int
  store :: 'd
  manager_socks :: "nat \<Rightarrow> SocketClient"
  running :: "string list"

record manager_env =
  room_env :: env
  room_init :: init_env
  put_fails :: bool

definition room_key :: "string \<Rightarrow> bytes" where
  "room_key name = str_bytes (''room-'' @ name)"

definition add_rooms :: "int \<Rightarrow> 'd RoomManager \<Rightarrow> 'd RoomManager" where
  "add_rooms d m = m\<lparr>currentRoomCount := wrap32 (currentRoomCount m + d)\<rparr>"

section \<open>Creating and listing rooms\<close>

definition limitRoomOption :: "confs \<Rightarrow> 'd RoomManager \<Rightarrow> RoomOption \<Rightarrow> int" where
  "limitRoomOption cf m opt =
     (let maxLoad = ReadConfInt cf ''max_load'' 8;
          canvasSize = wrap64 (Width opt * Height opt);
          nameLen = length (Name opt);
          maxRoomCount = ReadConfInt cf ''max_room_count'' 1000 in
      if MaxLoad opt > maxLoad \<or> MaxLoad opt < 1 then NEW_ROOM_INVALID_MAXLOAD
      else if canvasSize > 6998400 \<or> canvasSize \<le> 0 then NEW_ROOM_INVALID_CANVAS
      else if nameLen > 20 \<or> nameLen < 0 then NEW_ROOM_INVALID_NAME
      else if map_of (rooms m) (Name opt) \<noteq> None then NEW_ROOM_NAME_COLLISSION
      else if length (WelcomeMsg opt) > 40 then NEW_ROOM_INVALID_WELCMSG
      else if length (Password opt) > 16 then NEW_ROOM_INVALID_PWD
      else if currentRoomCount m \<ge> maxRoomCount then NEW_ROOM_TOO_MANY_ROOMS
      else 0)"

definition send_manager :: "(bytes \<Rightarrow> bytes) \<Rightarrow> env \<Rightarrow> json \<Rightarrow> nat \<Rightarrow> 'd RoomManager \<Rightarrow> 'd RoomManager \<times> string option" where
  "send_manager zw env resp client m =
     (case SendManagerPack zw (net_fault env client) (manager_socks m client) (Marshal resp) of
        (s, n, err) \<Rightarrow> (m\<lparr>manager_socks := (manager_socks m)(client := s)\<rparr>, err))"

definition close_client :: "env \<Rightarrow> nat \<Rightarrow> 'd RoomManager \<Rightarrow> 'd RoomManager exec" where
  "close_client env client m =
     (case Socket_Close (listens env) (manager_socks m client) of
        (s, done, returned) \<Rightarrow>
          if returned then Done (m\<lparr>manager_socks := (manager_socks m)(client := s)\<rparr>) else Blocks)"

definition send_or_panic :: "(bytes \<Rightarrow> bytes) \<Rightarrow> env \<Rightarrow> json \<Rightarrow> nat \<Rightarrow> 'd RoomManager \<Rightarrow> 'd RoomManager exec" where
  "send_or_panic zw env resp client m =
     (case send_manager zw env resp client m of
        (m', None) \<Rightarrow> Done m'
      | (m', Some err) \<Rightarrow> Panics (PanicError err) m')"

definition handleRoomList :: "(bytes \<Rightarrow> bytes) \<Rightarrow> env \<Rightarrow> bytes \<Rightarrow> nat \<Rightarrow> 'd RoomManager \<Rightarrow> 'd RoomManager exec" where
  "handleRoomList zw env data client m =
     (case send_manager zw env
             (RoomListResponse True (map (\<lambda>(name, r). RoomPublicInfo r) (rooms m)) 0) client m of
        (m', None) \<Rightarrow> Done m'
      | (m', Some err) \<Rightarrow> close_client env client m')"

text \<open>\<open>m.rooms.Store\<close>, the counter, and the goroutine that runs the room.\<close>

definition start_room :: "Room \<Rightarrow> 'd RoomManager \<Rightarrow> 'd RoomManager" where
  "start_room r m =
     add_rooms (- 1)
       (m\<lparr>rooms := AList.update (Name (Options r)) r (rooms m), running := running m @ [Name (Options r)]\<rparr>)"

text \<open>What \<open>handleNewRoom\<close> does once the options have passed.\<close>

definition create_room :: "(bytes \<Rightarrow> bytes \<Rightarrow> 'd \<Rightarrow> 'd) \<Rightarrow> (bytes \<Rightarrow> bytes) \<Rightarrow> manager_env \<Rightarrow> RoomOption \<Rightarrow> nat \<Rightarrow>
    'd RoomManager \<Rightarrow> 'd RoomManager exec" where
  "create_room put zw menv opt client m =
     (case ServeRoom (room_init menv) (room_env menv) opt of
        Blocks \<Rightarrow> Blocks
      | Panics p x \<Rightarrow> Panics p m
      | Done (r, Some err) \<Rightarrow> Panics (PanicError err) m
      | Done (r, None) \<Rightarrow>
          (let m1 = start_room r m;
               m2 = (if put_fails menv then m1
                     else m1\<lparr>store := put (room_key (Name (Options r))) (dumpRoom r) (store m1)\<rparr>)
           in send_or_panic zw (room_env menv)
                (NewRoomResponse True (NewRoomInfoForReply (Port r) (Key r) (Room_Password r)) 0) client m2))"

definition handleNewRoom :: "(bytes \<Rightarrow> bytes \<Rightarrow> 'd \<Rightarrow> 'd) \<Rightarrow> (bytes \<Rightarrow> bytes) \<Rightarrow> manager_env \<Rightarrow> bytes \<Rightarrow> nat \<Rightarrow>
    'd RoomManager \<Rightarrow> 'd RoomManager exec" where
  "handleNewRoom put zw menv data client m =
     (case Unmarshal NewRoomRequest_fields NewRoomRequest_zero data of
        (_, Some err) \<Rightarrow> Panics (PanicError err) m
      | (None, None) \<Rightarrow> Panics nil_dereference m
      | (Some req, None) \<Rightarrow>
          (let errcode = limitRoomOption (conf (room_env menv)) m (new_info req) in
           if errcode \<noteq> 0
           then send_or_panic zw (room_env menv)
                  (NewRoomResponse False (NewRoomInfoForReply 0 '''' '''') errcode) client m
           else create_room put zw menv (new_info req) client m))"

section \<open>The life of the rooms in the database\<close>

definition waitRoomClosed :: "(bytes \<Rightarrow> 'd \<Rightarrow> 'd) \<Rightarrow> string \<Rightarrow> 'd RoomManager \<Rightarrow> 'd RoomManager" where
  "waitRoomClosed del name m =
     add_rooms (- 1) (m\<lparr>store := del (room_key name) (store m), rooms := AList.delete name (rooms m)\<rparr>)"

text \<open>The goroutine of a room whose \<open>Run\<close> has returned.\<close>

definition room_ends :: "(bytes \<Rightarrow> 'd \<Rightarrow> 'd) \<Rightarrow> string \<Rightarrow> 'd RoomManager \<Rightarrow> 'd RoomManager" where
  "room_ends del name m = (waitRoomClosed del name m)\<lparr>running := remove1 name (running m)\<rparr>"

definition room_prefix :: bytes where
  "room_prefix = str_bytes ''room-''"

text \<open>
  One entry of the iterator in \<open>recovery\<close>; \<open>os\<close> gives the surroundings in which its room starts.
  A panic of \<open>RecoverRoom\<close> is not recovered.
\<close>

definition recover_entry :: "(RoomRuntimeInfo \<Rightarrow> init_env \<times> env) \<Rightarrow> bytes \<times> bytes \<Rightarrow> 'd RoomManager \<Rightarrow> 'd RoomManager exec" where
  "recover_entry os kv m =
     (let info = parseRoomRuntimeInfo (snd kv) in
      case RecoverRoom (fst (os info)) (snd (os info)) info of
        Blocks \<Rightarrow> Blocks
      | Panics p x \<Rightarrow> Panics p m
      | Done (r, Some err) \<Rightarrow> Done m
      | Done (r, None) \<Rightarrow> Done (start_room r m))"

definition recovery :: "('d \<Rightarrow> (bytes \<times> bytes) list) \<Rightarrow> confs \<Rightarrow> 'd option \<Rightarrow> (RoomRuntimeInfo \<Rightarrow> init_env \<times> env) \<Rightarrow>
    'd RoomManager \<Rightarrow> 'd RoomManager exec" where
  "recovery entries cf opened os m =
     (if ReadConfString cf ''db_dir'' '''' = '''' then Panics (PanicString ''db_dir does not present'') m
      else
        (case opened of
           None \<Rightarrow> Panics nil_dereference m
         | Some d \<Rightarrow>
             each (recover_entry os) (filter (has_prefix room_prefix) (entries d)) (m\<lparr>store := d\<rparr>)))"

text \<open>One hour of \<open>shortenRooms\<close>: the value an entry gets, the batch, the write.\<close>

definition shorten_value :: "bytes \<Rightarrow> bytes option" where
  "shorten_value v =
     (let info = parseRoomRuntimeInfo v in
      if info_Expiration info > 1
      then Some (ToJson (info\<lparr>info_Expiration := info_Expiration info - 1\<rparr>))
      else None)"

definition shorten_batch :: "(bytes \<times> bytes) list \<Rightarrow> batch_op list" where
  "shorten_batch es = map (rewrite_op shorten_value) (filter (has_prefix room_prefix) es)"

definition shortenRooms_round :: "(bytes \<Rightarrow> bytes \<Rightarrow> 'd \<Rightarrow> 'd) \<Rightarrow> (bytes \<Rightarrow> 'd \<Rightarrow> 'd) \<Rightarrow>
    ('d \<Rightarrow> (bytes \<times> bytes) list) \<Rightarrow> bool \<Rightarrow> 'd \<Rightarrow> 'd" where
  "shortenRooms_round put del entries write_fails d =
     (if write_fails then d else Write_batch put del (shorten_batch (entries d)) d)"

section \<open>Serving\<close>

text \<open>The listening loop of \<open>init\<close>: \<open>ok i\<close> says whether attempt \<open>i\<close> succeeds; the attempts made.\<close>

function listen_loop :: "(nat \<Rightarrow> bool) \<Rightarrow> nat \<Rightarrow> nat \<times> bool" where
  "listen_loop ok i = (if ok i then (i + 1, True) else if i \<ge> 19 then (i + 1, False) else listen_loop ok (i + 1))"
  by pat_completeness auto
termination by (relation "measure (\<lambda>(ok, i). 19 - i)") auto

declare listen_loop.simps [simp del]

definition manager_router :: "(bytes \<Rightarrow> bytes \<Rightarrow> 'd \<Rightarrow> 'd) \<Rightarrow> (bytes \<Rightarrow> bytes) \<Rightarrow> manager_env \<Rightarrow> nat \<Rightarrow> 'd RoomManager Router" where
  "manager_router put zw menv n =
     \<lparr>rkey = ''request'',
      table = [(''newroom'', handleNewRoom put zw menv), (''roomlist'', handleRoomList zw (room_env menv))],
      readers = n\<rparr>"

definition Manager_init :: "('d \<Rightarrow> (bytes \<times> bytes) list) \<Rightarrow> confs \<Rightarrow> bool \<Rightarrow> (nat \<Rightarrow> bool) \<Rightarrow> 'd option \<Rightarrow>
    (RoomRuntimeInfo \<Rightarrow> init_env \<times> env) \<Rightarrow> 'd RoomManager \<Rightarrow> ('d RoomManager \<times> string option) exec" where
  "Manager_init entries cf resolve_err ok opened os m0 =
     (let m = m0\<lparr>manager_closing := False, manager_readers := 0\<rparr> in
      if resolve_err then Done (m, Some ''resolve failed'')
      else if \<not> snd (listen_loop ok 0) then Done (m, Some ''listen failed'')
      else
        (case recovery entries cf opened os (m\<lparr>manager_open := True\<rparr>) of
           Done m' \<Rightarrow> Done (m', None)
         | Panics p m' \<Rightarrow> Panics p (m', None)
         | Blocks \<Rightarrow> Blocks))"

datatype manager_event = ManagerClosing | ManagerPackage Package | ManagerChannelClosed

definition manager_command :: "(bytes \<Rightarrow> bytes \<Rightarrow> 'd \<Rightarrow> 'd) \<Rightarrow> (bytes \<Rightarrow> bytes) \<Rightarrow> manager_env \<Rightarrow> bytes \<Rightarrow> nat \<Rightarrow>
    'd RoomManager \<Rightarrow> 'd RoomManager exec" where
  "manager_command put zw menv data client m =
     (case OnMessage (manager_router put zw menv (manager_readers m)) data client m of
        Done (r, m1, err) \<Rightarrow>
          (let m2 = m1\<lparr>manager_readers := readers r\<rparr>
           in if err \<noteq> None then close_client (room_env menv) client m2 else Done m2)
      | Panics p (r, m1, err) \<Rightarrow> Panics p m1
      | Blocks \<Rightarrow> Blocks)"

definition manager_step :: "(bytes \<Rightarrow> bytes \<Rightarrow> 'd \<Rightarrow> 'd) \<Rightarrow> (bytes \<Rightarrow> bytes) \<Rightarrow> manager_env \<Rightarrow> nat \<Rightarrow> manager_event \<Rightarrow>
    'd RoomManager \<Rightarrow> ('d RoomManager \<times> bool) exec" where
  "manager_step put zw menv client ev m =
     (case ev of
        ManagerClosing \<Rightarrow> Done (m, False)
      | ManagerChannelClosed \<Rightarrow> Done (m, False)
      | ManagerPackage pkg \<Rightarrow>
          if PackageType pkg = MANAGER then
            (case manager_command put zw menv (Unpacked pkg) client m of
               Done m' \<Rightarrow> Done (m', True)
             | Panics p m' \<Rightarrow> Panics p (m', False)
             | Blocks \<Rightarrow> Blocks)
          else Done (m, True))"

definition Manager_Close :: "'d RoomManager \<Rightarrow> 'd RoomManager exec" where
  "Manager_Close m =
     (if manager_closing m then Panics close_of_closed m
      else Done (m\<lparr>manager_closing := True, manager_open := False\<rparr>))"

definition manager_accept :: "nat \<Rightarrow> 'd RoomManager \<Rightarrow> 'd RoomManager" where
  "manager_accept client m = m\<lparr>manager_socks := (manager_socks m)(client := MakeSocketClient)\<rparr>"

definition ServeManager :: "'d \<Rightarrow> 'd RoomManager" where
  "ServeManager no_db =
     \<lparr>manager_open = False, manager_closing = False, manager_readers = 0, rooms = [], currentRoomCount = 0,
      store = no_db, manager_socks = (\<lambda>_. MakeSocketClient), running = []\<rparr>"

end
