(* ===== verification/ManagerFacts.thy ===== *)
theory ManagerFacts
  imports Manager
begin

text \<open>
  Facts about the room manager: what its checks guarantee, that its room counter only ever falls,
  that the records of the database describe the rooms and bring them back, how records expire, and
  how often it tries to listen.
\<close>

section \<open>The checks of a new room\<close>

lemmas room_codes = NEW_ROOM_INVALID_MAXLOAD_def NEW_ROOM_INVALID_CANVAS_def NEW_ROOM_INVALID_NAME_def
  NEW_ROOM_NAME_COLLISSION_def NEW_ROOM_INVALID_WELCMSG_def NEW_ROOM_INVALID_PWD_def NEW_ROOM_TOO_MANY_ROOMS_def

lemma limitRoomOption_ok:
  "limitRoomOption cf m opt = 0 \<longleftrightarrow>
     1 \<le> MaxLoad opt \<and> MaxLoad opt \<le> ReadConfInt cf ''max_load'' 8 \<and>
     0 < wrap64 (Width opt * Height opt) \<and> wrap64 (Width opt * Height opt) \<le> 6998400 \<and>
     length (Name opt) \<le> 20 \<and> map_of (rooms m) (Name opt) = None \<and> length (WelcomeMsg opt) \<le> 40 \<and>
     length (Password opt) \<le> 16 \<and> currentRoomCount m < ReadConfInt cf ''max_room_count'' 1000"
  by (auto simp: limitRoomOption_def Let_def room_codes)

text \<open>For sides that a 32-bit integer can hold the product is the area.\<close>

lemma wrap64_area: "\<bar>a\<bar> \<le> 2 ^ 31 \<Longrightarrow> \<bar>b\<bar> \<le> 2 ^ 31 \<Longrightarrow> wrap64 (a * b) = a * b"
proof -
  assume "\<bar>a\<bar> \<le> 2 ^ 31" "\<bar>b\<bar> \<le> 2 ^ 31"
  then have "\<bar>a * b\<bar> \<le> 2 ^ 31 * 2 ^ 31"
    unfolding abs_mult by (intro mult_mono) simp_all
  then show ?thesis
    by (intro wrap64_id) (simp_all add: abs_le_iff)
qed

lemma limit_too_many:
  "limitRoomOption cf m opt = NEW_ROOM_TOO_MANY_ROOMS \<Longrightarrow> currentRoomCount m \<ge> ReadConfInt cf ''max_room_count'' 1000"
  by (auto simp: limitRoomOption_def Let_def room_codes split: if_splits)

section \<open>What a step does to the table of rooms\<close>

lemma send_or_panic_keeps:
  "always (send_or_panic zw env resp c m) (\<lambda>m'. m' = m\<lparr>manager_socks := manager_socks m'\<rparr>)"
  by (auto simp: send_or_panic_def send_manager_def split: prod.splits option.splits)

lemma close_client_keeps:
  "always (close_client env c m) (\<lambda>m'. m' = m\<lparr>manager_socks := manager_socks m'\<rparr>)"
  by (auto simp: close_client_def split: prod.splits)

text \<open>The table, the goroutines and the counter: a step leaves them alone or starts one room of a new name.\<close>

definition book :: "'d RoomManager \<Rightarrow> (string \<times> Room) list \<times> string list \<times> int" where
  "book m = (rooms m, running m, currentRoomCount m)"

definition advances :: "'d RoomManager \<Rightarrow> 'd RoomManager \<Rightarrow> bool" where
  "advances m m' \<longleftrightarrow> book m' = book m \<or>
     (\<exists>r. map_of (rooms m) (Name (Options r)) = None \<and> book m' = book (start_room r m))"

lemma book_simps [simp]:
  "book (m\<lparr>manager_socks := s\<rparr>) = book m" "book (m\<lparr>store := d\<rparr>) = book m" "book (m\<lparr>manager_readers := k\<rparr>) = book m"
  by (simp_all add: book_def)

lemma advances_refl [simp]: "advances m m"
  by (simp add: advances_def)

lemma advances_same: "advances m m1 \<Longrightarrow> m2 = m1\<lparr>manager_socks := s\<rparr> \<Longrightarrow> advances m m2"
  by (simp add: advances_def)

lemma Room_init_options: "Room_init ienv env m = Done (m', err) \<Longrightarrow> Options m' = Options m"
  by (auto simp: Room_init_def room_identity_def Let_def split: if_splits sum.splits option.splits prod.splits)

lemma ServeRoom_options: "ServeRoom ienv env opt = Done (r, None) \<Longrightarrow> Options r = opt"
  by (auto simp: ServeRoom_def init_result_def dest: Room_init_options split: exec.splits option.splits prod.splits)

lemma sends_advance: "advances m m1 \<Longrightarrow> always (send_or_panic zw env resp c m1) (advances m)"
  by (rule always_mono [OF send_or_panic_keeps]) (metis advances_same)

lemma closes_advance: "advances m m1 \<Longrightarrow> always (close_client env c m1) (advances m)"
  by (rule always_mono [OF close_client_keeps]) (metis advances_same)

lemma create_room_advances:
  assumes "map_of (rooms m) (Name opt) = None"
  shows "always (create_room put zw menv opt c m) (advances m)"
proof -
  have "advances m (start_room r m)" "advances m ((start_room r m)\<lparr>store := d\<rparr>)" if "Options r = opt" for r d
    using assms that by (auto simp: advances_def)
  then show ?thesis
    by (auto simp: create_room_def Let_def intro!: sends_advance dest: ServeRoom_options
        split: exec.splits prod.splits option.splits)
qed

lemma handleNewRoom_advances: "always (handleNewRoom put zw menv data c m) (advances m)"
  using create_room_advances [of m] sends_advance [OF advances_refl]
  by (auto simp: handleNewRoom_def Let_def limitRoomOption_ok split: prod.splits option.splits)

lemma handleRoomList_advances: "always (handleRoomList zw env data c m) (advances m)"
  by (auto simp: handleRoomList_def send_manager_def advances_def intro!: closes_advance split: prod.splits option.splits)

lemma manager_command_advances: "always (manager_command put zw menv data c m) (advances m)"
proof -
  have msg: "always (OnMessage (manager_router put zw menv (manager_readers m)) data c m) (\<lambda>x. advances m (fst (snd x)))"
    using handleNewRoom_advances [of put zw menv data c m] handleRoomList_advances [of zw "room_env menv" data c m]
    by (auto simp: OnMessage_def dispatch_def manager_router_def always_def
        split: sum.splits option.splits exec.splits panic.splits if_splits)
  show ?thesis
  proof (cases "OnMessage (manager_router put zw menv (manager_readers m)) data c m")
    case (Done x)
    then obtain r m1 err where "x = (r, m1, err)" "advances m m1"
      using msg by (cases x) auto
    then show ?thesis
      using Done closes_advance [of m "m1\<lparr>manager_readers := readers r\<rparr>"]
      by (simp add: manager_command_def Let_def advances_def)
  qed (use msg in \<open>auto simp: manager_command_def\<close>)
qed

lemma manager_step_advances: "manager_step put zw menv c ev m = Done (m', b) \<Longrightarrow> advances m m'"
  using manager_command_advances [of put zw menv _ c m]
  by (fastforce simp: manager_step_def always_def split: manager_event.splits if_splits exec.splits)

section \<open>Runs of the manager\<close>

text \<open>Runs with the number of their steps; recovering may start a room of a name that is taken.\<close>

inductive manager_run :: "(bytes \<Rightarrow> bytes \<Rightarrow> 'd \<Rightarrow> 'd) \<Rightarrow> (bytes \<Rightarrow> 'd \<Rightarrow> 'd) \<Rightarrow> nat \<Rightarrow> 'd RoomManager \<Rightarrow> bool"
  for put del where
  start: "manager_run put del 0 (ServeManager d)"
| recovers: "manager_run put del n m \<Longrightarrow> recover_entry os kv m = Done m' \<Longrightarrow> manager_run put del (Suc n) m'"
| serves: "manager_run put del n m \<Longrightarrow> manager_step put zw menv c ev m = Done (m', b) \<Longrightarrow>
    manager_run put del (Suc n) m'"
| accepts: "manager_run put del n m \<Longrightarrow> manager_run put del (Suc n) (manager_accept c m)"
| ends: "manager_run put del n m \<Longrightarrow> name \<in> set (running m) \<Longrightarrow> manager_run put del (Suc n) (room_ends del name m)"

lemma recover_entry_book: "recover_entry os kv m = Done m' \<Longrightarrow> book m' = book m \<or> (\<exists>r. book m' = book (start_room r m))"
  by (auto simp: recover_entry_def Let_def split: exec.splits prod.splits option.splits)

text \<open>An invariant of the book that every new room and every end of a room keeps is one of all runs.\<close>

lemma manager_run_book:
  fixes m :: "'d RoomManager"
  assumes "manager_run put del n m" and "P 0 ([], [], 0)"
    and "\<And>n (m :: 'd RoomManager). P n (book m) \<Longrightarrow> P (Suc n) (book m)"
    and "\<And>n (m :: 'd RoomManager) r. P n (book m) \<Longrightarrow> P (Suc n) (book (start_room r m))"
    and "\<And>n m name. P n (book m) \<Longrightarrow> P (Suc n) (book (room_ends del name m))"
  shows "P n (book m)"
  using assms(1)
proof (induction rule: manager_run.induct)
  case (start d)
  then show ?case using assms(2) by (simp add: ServeManager_def book_def)
next
  case (recovers n m os kv m')
  then show ?case using recover_entry_book [OF recovers.hyps(2)] assms(3,4) by auto
next
  case (serves n m zw menv c ev m' b)
  then show ?case using manager_step_advances [OF serves.hyps(2)] assms(3,4) by (auto simp: advances_def)
next
  case (accepts n m c)
  then show ?case using assms(3) by (simp add: manager_accept_def)
qed (rule assms(5))

lemma manager_run_count:
  fixes m :: "'d RoomManager"
  assumes "manager_run put del n m" and "n < 2 ^ 31"
  shows "- int n \<le> currentRoomCount m \<and> currentRoomCount m \<le> 0"
proof -
  let ?P = "\<lambda>n (rs, run, k). n < 2 ^ 31 \<longrightarrow> - int n \<le> k \<and> k \<le> 0"
  have "?P n (book m)"
    using assms(1)
  proof (rule manager_run_book)
    show "?P (Suc n) (book (start_room r m))" if "?P n (book m)" for n and m :: "'d RoomManager" and r
      using that by (auto simp: book_def start_room_def add_rooms_def wrap32_id)
    show "?P (Suc n) (book (room_ends del name m))" if "?P n (book m)" for n m name
      using that by (auto simp: book_def room_ends_def waitRoomClosed_def add_rooms_def wrap32_id)
  qed (auto simp: book_def)
  then show ?thesis
    using assms(2) by (simp add: book_def)
qed

text \<open>Names are unique, every room is filed under its own name, and its goroutine runs.\<close>

definition filed :: "(string \<times> Room) list \<Rightarrow> string list \<Rightarrow> bool" where
  "filed rs run \<longleftrightarrow> distinct (map fst rs) \<and> (\<forall>(name, r) \<in> set rs. Name (Options r) = name \<and> name \<in> set run)"

lemma filed_start: "filed rs run \<Longrightarrow> filed (AList.update (Name (Options r)) r rs) (run @ [Name (Options r)])"
  using set_alist_update [of "Name (Options r)" r rs] by (fastforce simp: filed_def distinct_update)

lemma filed_end:
  assumes "filed rs run"
  shows "filed (AList.delete name rs) (remove1 name run)"
proof -
  have "name' \<noteq> name \<and> (name', r) \<in> set rs" if "(name', r) \<in> set (AList.delete name rs)" for name' r
    using that delete_notin_dom [of name rs] set_alist_delete [of name rs] by force
  then show ?thesis
    using assms by (fastforce simp: filed_def distinct_delete)
qed

lemma manager_run_filed:
  fixes m :: "'d RoomManager"
  assumes "manager_run put del n m"
  shows "filed (rooms m) (running m)"
proof -
  have "(\<lambda>n (rs, run, k). filed rs run) n (book m)"
    using assms
  proof (rule manager_run_book)
    show "(\<lambda>n (rs, run, k). filed rs run) (Suc n) (book (start_room r m))"
      if "(\<lambda>n (rs, run, k). filed rs run) n (book m)" for n and m :: "'d RoomManager" and r
      using that filed_start by (simp add: book_def start_room_def add_rooms_def)
    show "(\<lambda>n (rs, run, k). filed rs run) (Suc n) (book (room_ends del name m))"
      if "(\<lambda>n (rs, run, k). filed rs run) n (book m)" for n m name
      using that filed_end by (simp add: book_def room_ends_def waitRoomClosed_def add_rooms_def)
  qed (auto simp: book_def filed_def)
  then show ?thesis by (simp add: book_def)
qed

lemma advances_keeps_rooms:
  "advances m m' \<Longrightarrow> map_of (rooms m) name = Some r \<Longrightarrow> map_of (rooms m') name = Some r"
  by (auto simp: advances_def book_def start_room_def add_rooms_def map_of_alist_update)

section \<open>Listening\<close>

text \<open>Attempts are made until one succeeds, twenty at most.\<close>

lemma listen_loop_spec:
  assumes "i \<le> 19"
  shows "listen_loop ok i =
    (case find ok [i..<20] of Some j \<Rightarrow> (j + 1, True) | None \<Rightarrow> (20, False))"
  using assms
proof (induction ok i rule: listen_loop.induct)
  case (1 ok i)
  have "[i..<20] = i # [i + 1..<20]"
    using "1.prems" by (simp add: upt_rec)
  moreover have "i = 19 \<Longrightarrow> [i + 1..<20] = []"
    by simp
  ultimately show ?case
    using "1.IH" "1.prems" by (subst listen_loop.simps) auto
qed

section \<open>Records in the database\<close>

text \<open>The record of a room: well-formed, with a key, filed under the room's name.\<close>

definition record_ok :: "bytes \<Rightarrow> bytes \<Rightarrow> bool" where
  "record_ok k v \<longleftrightarrow> (\<exists>i. v = ToJson i \<and> info_ok i \<and> info_Key i \<noteq> '''' \<and> k = room_key (Name (info_Options i)))"

definition store_ok :: "(bytes \<times> bytes) list \<Rightarrow> bool" where
  "store_ok es \<longleftrightarrow> (\<forall>(k, v) \<in> set (filter (has_prefix room_prefix) es). record_ok k v)"

lemma room_key_inject [simp]: "room_key a = room_key b \<longleftrightarrow> a = b"
  by (simp add: room_key_def str_bytes_inj)

lemma room_key_prefix: "take (length room_prefix) (room_key name) = room_prefix"
  by (simp add: room_key_def room_prefix_def str_bytes_def)

lemma record_okD:
  "record_ok k v \<Longrightarrow> v = ToJson (parseRoomRuntimeInfo v) \<and> info_ok (parseRoomRuntimeInfo v) \<and>
     info_Key (parseRoomRuntimeInfo v) \<noteq> '''' \<and> k = room_key (Name (info_Options (parseRoomRuntimeInfo v)))"
  by (auto simp: record_ok_def parse_ToJson)

section \<open>Recovery\<close>

text \<open>Surroundings in which every recorded room gets its port back and its files open.\<close>

definition good_start :: "(RoomRuntimeInfo \<Rightarrow> init_env \<times> env) \<Rightarrow> bool" where
  "good_start os \<longleftrightarrow> (\<forall>i. healthy_init (fst (os i)) \<and> listen_port (fst (os i)) = Some (info_Port i))"

lemma recover_entry_ok:
  assumes "record_ok k v" and "good_start os"
  shows "\<exists>r. recover_entry os (k, v) m = Done (start_room r m) \<and> room_info r = parseRoomRuntimeInfo v"
proof -
  obtain i where i: "v = ToJson i" "info_ok i" "info_Key i \<noteq> []"
    using assms(1) by (auto simp: record_ok_def)
  then have v: "parseRoomRuntimeInfo v = i"
    by (simp add: parse_ToJson)
  let ?m = "Room_zero\<lparr>port := info_Port i, expiration := info_Expiration i, archiveSign := info_ArchiveSign i,
      key := info_Key i, Options := info_Options i\<rparr>"
  have m: "room_info ?m = i"
    by (cases i) (simp add: room_info_def)
  then have "parseRoomRuntimeInfo (dumpRoom ?m) = i"
    using i by (simp only: dumpRoom_def parse_ToJson)
  then show ?thesis
    using recover_dump [of ?m "fst (os i)" "snd (os i)"] i v m assms(2)
    by (auto simp: recover_entry_def good_start_def Let_def)
qed

lemma start_room_simps [simp]:
  "map_of (rooms (start_room r m)) = (map_of (rooms m))(Name (Options r) \<mapsto> r)"
  "running (start_room r m) = running m @ [Name (Options r)]"
  "store (start_room r m) = store m"
  by (simp_all add: start_room_def add_rooms_def map_of_alist_update)

lemma room_info_name: "Name (Options r) = Name (info_Options (room_info r))"
  by (simp add: room_info_def)

lemma each_recover:
  assumes "\<forall>(k, v) \<in> set es. record_ok k v" and "distinct (map fst es)" and "good_start os"
  shows "\<exists>m'. each (recover_entry os) es m = Done m' \<and> store m' = store m \<and>
    (\<forall>name. case map_of es (room_key name) of
       Some v \<Rightarrow> (\<exists>r. map_of (rooms m') name = Some r \<and> room_info r = parseRoomRuntimeInfo v)
     | None \<Rightarrow> map_of (rooms m') name = map_of (rooms m) name) \<and>
    map room_key (running m') = map room_key (running m) @ map fst es"
  using assms(1,2)
proof (induction es arbitrary: m)
  case (Cons kv es)
  obtain k v where kv: "kv = (k, v)" by force
  then have ok: "record_ok k v" using Cons.prems(1) by simp
  let ?i = "parseRoomRuntimeInfo v"
  obtain r where r: "recover_entry os (k, v) m = Done (start_room r m)" "room_info r = ?i"
    using recover_entry_ok [OF ok assms(3)] by blast
  have name: "k = room_key (Name (Options r))"
    using record_okD [OF ok] r(2) by (simp add: room_info_name)
  obtain m' where m': "each (recover_entry os) es (start_room r m) = Done m'" "store m' = store m"
    "\<forall>name. case map_of es (room_key name) of
       Some v \<Rightarrow> (\<exists>r. map_of (rooms m') name = Some r \<and> room_info r = parseRoomRuntimeInfo v)
     | None \<Rightarrow> map_of (rooms m') name = map_of (rooms (start_room r m)) name"
    "map room_key (running m') = map room_key (running (start_room r m)) @ map fst es"
    using Cons.IH [of "start_room r m"] Cons.prems by auto
  have "map_of es k = None"
    using Cons.prems(2) kv by (simp add: map_of_eq_None_iff)
  then have "case map_of (kv # es) (room_key n) of
       Some v \<Rightarrow> (\<exists>r. map_of (rooms m') n = Some r \<and> room_info r = parseRoomRuntimeInfo v)
     | None \<Rightarrow> map_of (rooms m') n = map_of (rooms m) n" for n
    using m'(3) [rule_format, of n] r(2) kv name by (cases "n = Name (Options r)") (auto split: option.splits)
  then show ?case
    using m' r kv name by simp
qed simp

text \<open>Recovery brings back one room per record, each with its recorded key, port, signature and options.\<close>

lemma map_of_prefix: "take (length p) k = p \<Longrightarrow> map_of (filter (has_prefix p) es) k = map_of es k"
  by (induction es) (auto simp: has_prefix_def)

lemma recovery_spec:
  assumes "store_ok (entries d)" and "distinct (map fst (entries d))" and "good_start os"
    and "ReadConfString cf ''db_dir'' '''' \<noteq> ''''" and "rooms m = []" and "running m = []"
  shows "\<exists>m'. recovery entries cf (Some d) os m = Done m' \<and> store m' = d \<and>
    (\<forall>name. case map_of (entries d) (room_key name) of
       Some v \<Rightarrow> (\<exists>r. map_of (rooms m') name = Some r \<and> room_info r = parseRoomRuntimeInfo v)
     | None \<Rightarrow> map_of (rooms m') name = None) \<and>
    map room_key (running m') = map fst (filter (has_prefix room_prefix) (entries d))"
proof -
  let ?es = "filter (has_prefix room_prefix) (entries d)"
  have "map_of ?es (room_key name) = map_of (entries d) (room_key name)" for name
    by (rule map_of_prefix [OF room_key_prefix])
  moreover have "distinct (map fst ?es)"
    by (rule distinct_map_filter [OF assms(2)])
  ultimately show ?thesis
    using each_recover [of ?es os "m\<lparr>store := d\<rparr>"] assms by (simp add: recovery_def store_ok_def cong: option.case_cong)
qed

section \<open>Expiry of the records\<close>

text \<open>A record after \<open>n\<close> more hours.\<close>

definition older :: "nat \<Rightarrow> RoomRuntimeInfo \<Rightarrow> RoomRuntimeInfo" where
  "older n i = i\<lparr>info_Expiration := info_Expiration i - int n\<rparr>"

lemma older_0 [simp]: "older 0 i = i"
  by (simp add: older_def)

lemma info_ok_older: "info_ok i \<Longrightarrow> int n < info_Expiration i \<Longrightarrow> info_ok (older n i)"
  by (simp add: info_ok_def older_def int64_def)

lemma shorten_value_ToJson:
  "info_ok i \<Longrightarrow> shorten_value (ToJson i) = (if info_Expiration i > 1 then Some (ToJson (older 1 i)) else None)"
  by (simp add: shorten_value_def parse_ToJson older_def)

context kv_store begin

lemma shortenRooms_lookup:
  "map_of (entries (shortenRooms_round put del entries False d)) k =
     (case map_of (entries d) k of
        None \<Rightarrow> None
      | Some v \<Rightarrow> if take (length room_prefix) k = room_prefix then shorten_value v else Some v)"
  using rewrite_prefix_lookup [of room_prefix shorten_value d k]
  by (simp add: shortenRooms_round_def shorten_batch_def rewrite_prefix_def)

text \<open>A record lives as many hours as its expiration says, one at least, and only that changes in it.\<close>

lemma shortenRooms_hours:
  assumes "map_of (entries d) (room_key name) = Some (ToJson i)" and "info_ok i"
  shows "map_of (entries ((shortenRooms_round put del entries False ^^ n) d)) (room_key name) =
    (if n = 0 \<or> int n < info_Expiration i then Some (ToJson (older n i)) else None)"
proof (induction n)
  case 0
  then show ?case using assms(1) by simp
next
  case (Suc n)
  let ?d = "(shortenRooms_round put del entries False ^^ n) d"
  have step: "map_of (entries ((shortenRooms_round put del entries False ^^ Suc n) d)) (room_key name) =
      (case map_of (entries ?d) (room_key name) of None \<Rightarrow> None | Some v \<Rightarrow> shorten_value v)"
    by (simp add: shortenRooms_lookup room_key_prefix split: option.splits)
  show ?case
  proof (cases "n = 0 \<or> int n < info_Expiration i")
    case True
    then have ok: "info_ok (older n i)"
      using assms(2) info_ok_older by auto
    have "info_Expiration (older n i) = info_Expiration i - int n" "older 1 (older n i) = older (Suc n) i"
      by (simp_all add: older_def)
    then show ?thesis
      using step Suc.IH True shorten_value_ToJson [OF ok] by auto
  next
    case False
    then show ?thesis
      using step Suc.IH by auto
  qed
qed

text \<open>The hourly round keeps the records in order.\<close>

lemma shortenRooms_keeps_ok:
  assumes "store_ok (entries d)"
  shows "store_ok (entries (shortenRooms_round put del entries b d))"
proof (cases b)
  case False
  have "record_ok k v" if mem: "(k, v) \<in> set (entries (shortenRooms_round put del entries False d))"
      and pre: "has_prefix room_prefix (k, v)" for k v
  proof -
    have "map_of (entries (shortenRooms_round put del entries False d)) k = Some v"
      using mem distinct_entries by (simp add: map_of_is_SomeI)
    then obtain v0 where v0: "map_of (entries d) k = Some v0" "shorten_value v0 = Some v"
      using pre by (auto simp: shortenRooms_lookup has_prefix_def split: option.splits)
    then have "record_ok k v0"
      using assms pre map_of_SomeD [OF v0(1)] by (auto simp: store_ok_def has_prefix_def)
    then obtain i where i: "v0 = ToJson i" "info_ok i" "info_Key i \<noteq> []" "k = room_key (Name (info_Options i))"
      by (auto simp: record_ok_def)
    then have "v = ToJson (older 1 i)" "1 < info_Expiration i"
      using v0(2) shorten_value_ToJson by (auto split: if_splits)
    then show ?thesis
      using i info_ok_older [of i 1] by (auto simp: record_ok_def older_def intro!: exI [of _ "older 1 i"])
  qed
  then show ?thesis
    using False by (auto simp: store_ok_def)
qed (use assms in \<open>simp add: shortenRooms_round_def\<close>)

lemma store_ok_put:
  assumes "store_ok (entries d)" and "record_ok k v"
  shows "store_ok (entries (put k v d))"
proof -
  have "(k', v') \<in> set (entries (put k v d)) \<Longrightarrow> (k', v') = (k, v) \<or> (k', v') \<in> set (entries d)" for k' v'
    using distinct_entries [of "put k v d"] entries_put [of k v d]
    by (metis fun_upd_other fun_upd_same map_of_SomeD map_of_is_SomeI option.inject)
  then show ?thesis
    using assms by (auto simp: store_ok_def)
qed

lemma store_ok_del:
  assumes "store_ok (entries d)"
  shows "store_ok (entries (del k d))"
proof -
  have "(k', v') \<in> set (entries (del k d)) \<Longrightarrow> (k', v') \<in> set (entries d)" for k' v'
    using distinct_entries [of "del k d"] entries_del [of k d]
    by (metis fun_upd_apply map_of_SomeD map_of_is_SomeI option.distinct(1))
  then show ?thesis
    using assms by (auto simp: store_ok_def)
qed

end

section \<open>Creating a room\<close>

text \<open>The strings and numbers of a decoded request are those the Go struct can hold.\<close>

lemma option_setters: "setters_keep clean option_ok NewRoomInfo_fields"
proof -
  have "setters_keep clean option_ok NewRoomSize_fields"
    by (auto simp: setters_keep_def NewRoomSize_fields_def set_int_def option_ok_def int64_def split: json.splits)
  then have sz: "clean v \<Longrightarrow> option_ok r \<Longrightarrow> option_ok (fst (decode_struct NewRoomSize_fields v r))" for v r
    by (rule decode_struct_keeps) (auto simp: list_all_iff)
  show ?thesis
    by (auto simp: setters_keep_def NewRoomInfo_fields_def sz)
      (auto simp: set_int_def set_string_def set_bool_def option_ok_def int64_def split: json.splits)
qed

lemma decoded_options_ok:
  assumes "fst (Unmarshal NewRoomRequest_fields NewRoomRequest_zero data) = Some req"
  shows "option_ok (new_info req)"
proof -
  let ?P = "\<lambda>r. option_ok (new_info r)"
  have zero: "?P NewRoomRequest_zero"
    by (simp add: NewRoomRequest_zero_def RoomOption_zero_def option_ok_def int64_def utf8.simps)
  have "clean v \<Longrightarrow> option_ok r \<Longrightarrow> option_ok (fst (decode_struct NewRoomInfo_fields v r))" for v r
    by (rule decode_struct_keeps [OF option_setters]) (auto simp: list_all_iff)
  then have "setters_keep clean ?P NewRoomRequest_fields"
    by (auto simp: setters_keep_def NewRoomRequest_fields_def set_struct_def set_string_def
        split: json.splits prod.splits) (metis fst_conv)
  then have keep: "clean v \<Longrightarrow> ?P (fst (decode_struct NewRoomRequest_fields v NewRoomRequest_zero))" for v
    by (rule decode_struct_keeps) (use zero in \<open>auto simp: list_all_iff\<close>)
  show ?thesis
  proof (cases "unm data")
    case None
    then show ?thesis
      using assms zero by (simp add: Unmarshal_def)
  next
    case (Some v)
    then have "req = fst (decode_struct NewRoomRequest_fields v NewRoomRequest_zero)"
      using assms by (auto simp: Unmarshal_def split: json.splits prod.splits)
    then show ?thesis
      using keep [OF unm_clean [OF Some]] by simp
  qed
qed

lemma digit32_ascii: "d < 32 \<Longrightarrow> code (digit32 d) < 128"
proof -
  have "\<forall>d \<in> set [0..<32]. code (digit32 d) < 128"
    by code_simp
  then show "d < 32 \<Longrightarrow> code (digit32 d) < 128"
    by simp
qed

lemma FormatUint32_utf8: "utf8 (FormatUint32 n)"
proof (induction n rule: FormatUint32.induct)
  case (1 n)
  then show ?case
    by (subst FormatUint32.simps) (simp add: utf8_append utf8_ascii digit32_ascii)
qed

lemma create_room_spec:
  assumes "healthy_init (room_init menv)" and "listen_port (room_init menv) = Some p" and "0 \<le> p" and "p \<le> 65535"
    and "option_ok opt" and "int64 (ReadConfInt (conf (room_env menv)) ''expiration'' 0)" and "\<not> put_fails menv"
    and "con_open (manager_socks m c)" and "net_fault (room_env menv) c = None"
  shows "\<exists>m' r. create_room put zw menv opt c m = Done m' \<and> Options r = opt \<and>
    map_of (rooms m') = (map_of (rooms m))(Name opt \<mapsto> r) \<and>
    store m' = put (room_key (Name opt)) (dumpRoom r) (store m) \<and> record_ok (room_key (Name opt)) (dumpRoom r) \<and> info_ok (room_info r) \<and>
    con_out (manager_socks m' c) = con_out (manager_socks m c) @
      frame zw MANAGER (NewRoomResponse True (NewRoomInfoForReply p (key r) (Password opt)) 0)"
proof -
  obtain r ra where r: "ServeRoom (room_init menv) (room_env menv) opt = Done (r, None)" "Options r = opt" "port r = p"
    "key r = genSignedKey (ReadConfBytes (conf (room_env menv)) ''globalSaltHash'') (str_bytes (Name opt) @ str_bytes (Password opt))"
    "archiveSign r = genArchiveSign (random63 (room_env menv)) (Name opt)"
    "expiration r = ReadConfInt (conf (room_env menv)) ''expiration'' 0"
    using ServeRoom_done [OF assms(1,2), of "room_env menv" opt] by blast
  have good: "info_ok (room_info r)"
    using r assms by (simp add: info_ok_def room_info_def genSignedKey_def genArchiveSign_def Let_def FormatUint32_utf8)
  moreover have "key r \<noteq> []"
    using r(4) genSignedKey_nonempty by simp
  ultimately have rec: "record_ok (room_key (Name opt)) (dumpRoom r)"
    using r(2) by (auto simp: record_ok_def dumpRoom_def room_info_def)
  let ?m1 = "(start_room r m)\<lparr>store := put (room_key (Name opt)) (dumpRoom r) (store m)\<rparr>"
  have sock: "manager_socks ?m1 = manager_socks m"
    by (simp add: start_room_def add_rooms_def)
  show ?thesis
    using r rec good assms(7,8,9) sock
    by (auto simp: create_room_def Let_def send_or_panic_def send_manager_def SendManagerPack_def send_typed_out
        Port_def Key_def Room_Password_def)
qed

text \<open>A new-room request that passes the checks.\<close>

lemma handleNewRoom_accepts:
  assumes "Unmarshal NewRoomRequest_fields NewRoomRequest_zero data = (Some req, None)"
    and "limitRoomOption (conf (room_env menv)) m (new_info req) = 0"
  shows "handleNewRoom put zw menv data c m = create_room put zw menv (new_info req) c m"
  using assms by (simp add: handleNewRoom_def)

lemma handleNewRoom_rejects:
  assumes "Unmarshal NewRoomRequest_fields NewRoomRequest_zero data = (Some req, None)"
    and "limitRoomOption (conf (room_env menv)) m (new_info req) \<noteq> 0"
    and "con_open (manager_socks m c)" and "net_fault (room_env menv) c = None"
  shows "\<exists>s. handleNewRoom put zw menv data c m = Done (m\<lparr>manager_socks := (manager_socks m)(c := s)\<rparr>) \<and>
    con_out s = con_out (manager_socks m c) @ frame zw MANAGER
      (NewRoomResponse False (NewRoomInfoForReply 0 '''' '''') (limitRoomOption (conf (room_env menv)) m (new_info req)))"
  using assms
  by (auto simp: handleNewRoom_def Let_def send_or_panic_def send_manager_def SendManagerPack_def send_typed_out)

context kv_store begin

text \<open>The room of an accepted request survives a restart: recovery from the database brings it back.\<close>

lemma restart_restores:
  assumes "create_room put zw menv opt c m = Done m'"
    and "healthy_init (room_init menv)" and "listen_port (room_init menv) = Some p" and "0 \<le> p" and "p \<le> 65535"
    and "option_ok opt" and "int64 (ReadConfInt (conf (room_env menv)) ''expiration'' 0)" and "\<not> put_fails menv"
    and "con_open (manager_socks m c)" and "net_fault (room_env menv) c = None"
    and "store_ok (entries (store m))" and "good_start os" and "ReadConfString cf ''db_dir'' '''' \<noteq> ''''"
  shows "\<exists>m'' r r'. recovery entries cf (Some (store m')) os (ServeManager no_db) = Done m'' \<and>
    map_of (rooms m') (Name opt) = Some r \<and> map_of (rooms m'') (Name opt) = Some r' \<and> room_info r' = room_info r \<and>
    store_ok (entries (store m'))"
proof -
  obtain r where r: "Options r = opt" "map_of (rooms m') = (map_of (rooms m))(Name opt \<mapsto> r)"
    "store m' = put (room_key (Name opt)) (dumpRoom r) (store m)" "record_ok (room_key (Name opt)) (dumpRoom r)"
    "info_ok (room_info r)"
    using create_room_spec [OF assms(2-10), of put zw] assms(1) by auto
  have ok: "store_ok (entries (store m'))"
    using store_ok_put [OF assms(11) r(4)] r(3) by simp
  have info: "parseRoomRuntimeInfo (dumpRoom r) = room_info r" if "info_ok (room_info r)"
    using that by (simp add: dumpRoom_def parse_ToJson)
  have lookup: "map_of (entries (store m')) (room_key (Name opt)) = Some (dumpRoom r)"
    using r(3) by (simp add: entries_put)
  have rec: "\<exists>m''. recovery entries cf (Some (store m')) os (ServeManager no_db) = Done m'' \<and> store m'' = store m' \<and>
    (\<forall>name. case map_of (entries (store m')) (room_key name) of
       Some v \<Rightarrow> (\<exists>r. map_of (rooms m'') name = Some r \<and> room_info r = parseRoomRuntimeInfo v)
     | None \<Rightarrow> map_of (rooms m'') name = None) \<and>
    map room_key (running m'') = map fst (filter (has_prefix room_prefix) (entries (store m')))"
    using ok distinct_entries assms(12,13) by (intro recovery_spec) (simp_all add: ServeManager_def)
  then obtain m'' where m'': "recovery entries cf (Some (store m')) os (ServeManager no_db) = Done m''"
    "\<forall>name. case map_of (entries (store m')) (room_key name) of
       Some v \<Rightarrow> (\<exists>r. map_of (rooms m'') name = Some r \<and> room_info r = parseRoomRuntimeInfo v)
     | None \<Rightarrow> map_of (rooms m'') name = None"
    by blast
  then obtain r' where r': "map_of (rooms m'') (Name opt) = Some r'" "room_info r' = parseRoomRuntimeInfo (dumpRoom r)"
    using spec [OF m''(2), of "Name opt"] lookup by auto
  then show ?thesis
    using m'' r' r(2,5) info ok by auto
qed

end

text \<open>The area is computed in 64 bits and only its sign and size are looked at.\<close>

lemma odd_canvas_accepted:
  assumes "(x, y) \<in> {(- 10, - 10), (3, 6148914691236517206)}"
  shows "limitRoomOption Map.empty (ServeManager d)
    \<lparr>MaxLoad = 1, Width = x, Height = y, Password = [], WelcomeMsg = [], Name = ''a'', EmptyClose = False\<rparr> = 0"
  using assms
  by (auto simp: limitRoomOption_ok ServeManager_def ReadConfInt_def Load_def wrap64_def)

end
