(* ===== verification/WatchDog.thy ===== *)
theory WatchDog
  imports ManagerFacts ConfigReader
begin

text \<open>
  The two programs: \<open>src/src/server/painttyServer.go\<close>, which loads the configuration, runs the manager and
  reloads the configuration on a timer, and \<open>src/src/watchDog/watchDog.go\<close>, which starts the server, asks
  it for the list of rooms every ten seconds and restarts it when it has been silent for thirty.
\<close>

section \<open>The server\<close>

record 'd server =
  conf_of :: Config
  manager_of :: "'d RoomManager"

text \<open>
  \<open>main\<close> up to the serving loop: \<open>InitConf\<close>, \<open>ServeManager\<close> and the \<open>init\<close> of \<open>Run\<close>, whose error ends the
  program in \<open>log.Fatalln\<close>.
\<close>

definition server_main :: "('d \<Rightarrow> (bytes \<times> bytes) list) \<Rightarrow> (bytes \<Rightarrow> string + yaml_doc) \<Rightarrow> (bytes \<Rightarrow> bytes) \<Rightarrow> os_env \<Rightarrow>
    bool \<Rightarrow> (nat \<Rightarrow> bool) \<Rightarrow> 'd option \<Rightarrow> (RoomRuntimeInfo \<Rightarrow> init_env \<times> env) \<Rightarrow> 'd \<Rightarrow> Config \<Rightarrow>
    ('d server \<times> string option) exec" where
  "server_main entries yaml sha512 os resolve_err ok opened rooms_start no_db c0 =
     (case InitConf yaml sha512 os c0 of
        Done c \<Rightarrow>
          (case Manager_init entries (confMap c) resolve_err ok opened rooms_start (ServeManager no_db) of
             Done (m, err) \<Rightarrow> Done (\<lparr>conf_of = c, manager_of = m\<rparr>, err)
           | Panics p (m, err) \<Rightarrow> Panics p (\<lparr>conf_of = c, manager_of = m\<rparr>, err)
           | Blocks \<Rightarrow> Blocks)
      | Panics p c \<Rightarrow> Panics p (\<lparr>conf_of = c, manager_of = ServeManager no_db\<rparr>, None)
      | Blocks \<Rightarrow> Blocks)"

text \<open>The ten minutes' tick; a panic in it is not recovered.\<close>

definition server_reload :: "(bytes \<Rightarrow> string + yaml_doc) \<Rightarrow> os_env \<Rightarrow> 'd server \<Rightarrow> 'd server exec" where
  "server_reload yaml os s =
     (case ReloadConf yaml os (conf_of s) of
        Done c \<Rightarrow> Done (s\<lparr>conf_of := c\<rparr>)
      | Panics p c \<Rightarrow> Panics p (s\<lparr>conf_of := c\<rparr>)
      | Blocks \<Rightarrow> Blocks)"

section \<open>The watch dog\<close>

text \<open>
  \<open>asking\<close> and \<open>reading\<close> say whether the two goroutines of \<open>loop\<close> run, \<open>watching\<close> whether the main
  goroutine waits in \<open>watch\<close>.
\<close>

record dog =
  dog_con :: SocketClient
  asking :: bool
  reading :: bool
  watching :: bool
  server_up :: bool

definition startProc :: "bool \<Rightarrow> bool go" where
  "startProc runs = (if runs then Inr True else Inl (PanicString ''start failed''))"

definition dial :: "bool \<Rightarrow> bool \<Rightarrow> SocketClient go" where
  "dial resolves connects =
     (if \<not> resolves then Inl PanicNil
      else if \<not> connects then Inl (PanicError ''connection refused'')
      else Inr MakeSocketClient)"

definition RoomListRequest_json :: json where
  "RoomListRequest_json = JObj [(''request'', JStr ''roomlist'')]"

definition sendMessage :: "(bytes \<Rightarrow> bytes) \<Rightarrow> nat option \<Rightarrow> SocketClient \<Rightarrow> SocketClient" where
  "sendMessage zw fault client = fst (SendManagerPack zw fault client (Marshal RoomListRequest_json))"

text \<open>One pass of \<open>main\<close> until it waits in \<open>watch\<close>; the callback is number 0.\<close>

definition dog_round :: "bool \<Rightarrow> bool \<Rightarrow> bool \<Rightarrow> dog go" where
  "dog_round runs resolves connects =
     (case startProc runs of
        Inl p \<Rightarrow> Inl p
      | Inr up \<Rightarrow>
          (case dial resolves connects of
             Inl p \<Rightarrow> Inl p
           | Inr client \<Rightarrow>
               Inr \<lparr>dog_con = RegisterCloseCallback 0 client, asking = True, reading = True, watching = True,
                    server_up = up\<rparr>))"

datatype ask_event = AskTimer | AskClosed

definition ask_step :: "(bytes \<Rightarrow> bytes) \<Rightarrow> nat option \<Rightarrow> ask_event \<Rightarrow> dog \<Rightarrow> dog" where
  "ask_step zw fault ev d =
     (case ev of
        AskTimer \<Rightarrow> d\<lparr>dog_con := sendMessage zw fault (dog_con d)\<rparr>
      | AskClosed \<Rightarrow> d\<lparr>asking := False\<rparr>)"

text \<open>\<open>client.Close\<close>: its callback waits for the asking goroutine, which then ends.\<close>

definition dog_close :: "dog \<Rightarrow> dog exec" where
  "dog_close d =
     (case Socket_Close (\<lambda>_. asking d) (dog_con d) of
        (con, done, returned) \<Rightarrow>
          if returned then Done (d\<lparr>dog_con := con, asking := asking d \<and> done = []\<rparr>) else Blocks)"

datatype read_event = ReadPackage Package | ReadClosed | ReadSilence

definition read_step :: "read_event \<Rightarrow> dog \<Rightarrow> dog exec" where
  "read_step ev d =
     (case ev of
        ReadClosed \<Rightarrow> Done (d\<lparr>reading := False\<rparr>)
      | ReadPackage pkg \<Rightarrow>
          if PackageType pkg = MANAGER then
            (case OnMessage (MakeRouter ''response'') (Unpacked pkg) 0 d of
               Done (r, d', err) \<Rightarrow> if err \<noteq> None then dog_close d' else Done d'
             | Panics p (r, d', err) \<Rightarrow> Panics p d'
             | Blocks \<Rightarrow> Blocks)
          else Done d
      | ReadSilence \<Rightarrow> if watching d then Done (d\<lparr>watching := False, server_up := False\<rparr>) else Blocks)"

text \<open>\<open>watch\<close> ends as well when the server does.\<close>

definition server_exits :: "dog \<Rightarrow> dog" where
  "server_exits d = d\<lparr>watching := False, server_up := False\<rparr>"

section \<open>Lemmas\<close>

lemma carries_Marshal:
  assumes "clean (JObj kvs)" and "\<not> float_overflow (JObj kvs)" and "map_of (rev kvs) field = Some (JStr req)"
  shows "carries field (Marshal (JObj kvs)) req"
  using assms unm_Marshal [OF assms(1)] by (simp add: carries_def unmarshal_map_def request_of_def)

lemma ascii_names:
  "utf8 ''request''" "utf8 ''roomlist''" "utf8 ''response''" "utf8 ''result''" "utf8 ''errcode''" "utf8 ''name''"
  "utf8 ''currentload''" "utf8 ''maxload''" "utf8 ''private''" "utf8 ''serveraddress''" "utf8 ''0.0.0.0''" "utf8 ''port''"
  by (simp_all add: utf8_ascii)

lemma small_int: "int64 n \<Longrightarrow> \<not> float_overflow (JInt n)"
proof -
  assume "int64 n"
  then have "\<bar>n\<bar> \<le> 2 ^ 63"
    by (simp add: int64_def abs_le_iff)
  moreover have "2 ^ 63 < float_limit"
    by (simp add: float_limit_def)
  ultimately show ?thesis by simp
qed

definition listable :: "'d RoomManager \<Rightarrow> bool" where
  "listable m \<longleftrightarrow> (\<forall>(name, r) \<in> set (rooms m). info_ok (room_info r) \<and> int64 (CurrentLoad r))"

lemma room_list_understood:
  assumes "listable m"
  shows "carries ''response''
    (Marshal (RoomListResponse True (map (\<lambda>(name, r). RoomPublicInfo r) (rooms m)) 0)) ''roomlist''"
  unfolding RoomListResponse_def
proof (rule carries_Marshal)
  have "list_all clean (map (\<lambda>(name, r). RoomPublicInfo r) (rooms m))"
    using assms
    by (auto simp: list_all_iff RoomPublicInfo_def ascii_names listable_def info_ok_def option_ok_def room_info_def)
  then show "clean (JObj [(''response'', JStr ''roomlist''), (''result'', JBool True),
      (''roomlist'', JArr (map (\<lambda>(name, r). RoomPublicInfo r) (rooms m))), (''errcode'', JInt 0)])"
    by (simp add: ascii_names)
  have "\<forall>x \<in> set (map (\<lambda>(name, r). RoomPublicInfo r) (rooms m)). \<not> float_overflow x"
    using assms small_int
    by (force simp del: float_overflow.simps(1)
        simp: RoomPublicInfo_def listable_def info_ok_def option_ok_def room_info_def Port_def int64_def)
  then show "\<not> float_overflow (JObj [(''response'', JStr ''roomlist''), (''result'', JBool True),
      (''roomlist'', JArr (map (\<lambda>(name, r). RoomPublicInfo r) (rooms m))), (''errcode'', JInt 0)])"
    by (auto simp: list_ex_iff float_limit_def)
qed simp

lemma request_understood: "carries ''request'' (Marshal RoomListRequest_json) ''roomlist''"
  unfolding RoomListRequest_json_def by (rule carries_Marshal) (simp_all add: ascii_names)

lemma sendMessage_out:
  "con_open s \<Longrightarrow> con_out (sendMessage zw None s) = con_out s @ frame zw MANAGER RoomListRequest_json"
  by (simp add: sendMessage_def SendManagerPack_def send_typed_out)

lemma handleRoomList_answers:
  assumes "con_open (manager_socks m c)" and "net_fault env c = None"
  shows "\<exists>s. handleRoomList zw env data c m = Done (m\<lparr>manager_socks := (manager_socks m)(c := s)\<rparr>) \<and>
    con_out s = con_out (manager_socks m c) @
      frame zw MANAGER (RoomListResponse True (map (\<lambda>(name, r). RoomPublicInfo r) (rooms m)) 0)"
  using assms by (auto simp: handleRoomList_def send_manager_def SendManagerPack_def send_typed_out)

lemma manager_serves_request:
  assumes "carries ''request'' (Unpacked pkg) ''roomlist''" and "PackageType pkg = MANAGER"
    and "handleRoomList zw (room_env menv) (Unpacked pkg) c m = Done m'" and "manager_readers m' = manager_readers m"
  shows "manager_step put zw menv c (ManagerPackage pkg) m = Done (m', True)"
proof -
  let ?r = "manager_router put zw menv (manager_readers m)"
  have "OnMessage ?r (Unpacked pkg) c m = Done (?r, m', None)"
    by (rule OnMessage_runs [where req = "''roomlist''" and handler = "handleRoomList zw (room_env menv)"])
      (simp_all add: manager_router_def assms)
  moreover have "m'\<lparr>manager_readers := manager_readers m\<rparr> = m'"
    using assms(4) by simp
  ultimately show ?thesis
    using assms(2) by (simp add: manager_step_def manager_command_def manager_router_def)
qed

lemma dog_keeps_connection:
  "carries ''response'' (Unpacked pkg) req \<Longrightarrow> PackageType pkg = MANAGER \<Longrightarrow> read_step (ReadPackage pkg) d = Done d"
  using OnMessage_unknown [of "MakeRouter ''response''" "Unpacked pkg" req 0 d]
  by (simp add: read_step_def MakeRouter_def)

text \<open>The goroutines of the watch dog, and what happens when the reading one has ended.\<close>

inductive dog_step :: "(bytes \<Rightarrow> bytes) \<Rightarrow> dog \<Rightarrow> dog \<Rightarrow> bool" for zw where
  asks: "asking d \<Longrightarrow> dog_step zw d (ask_step zw fault ev d)"
| reads: "reading d \<Longrightarrow> read_step ev d = Done d' \<Longrightarrow> dog_step zw d d'"

inductive_cases dog_stepE: "dog_step zw d d'"

lemma silence_kills: "reading d \<Longrightarrow> watching d \<Longrightarrow> \<exists>d'. dog_step zw d d' \<and> \<not> server_up d' \<and> \<not> watching d'"
  using dog_step.reads [of d ReadSilence] by (fastforce simp: read_step_def)

lemma blind_after_close:
  assumes "(dog_step zw)\<^sup>*\<^sup>* d d'" and "\<not> reading d"
  shows "\<not> reading d' \<and> watching d' = watching d \<and> server_up d' = server_up d"
  using assms
proof (induction rule: rtranclp_induct)
  case (step y z)
  then show ?case
    by (auto elim!: dog_stepE simp: ask_step_def split: ask_event.splits)
qed simp

section \<open>Starting the server\<close>

lemma Manager_init_starts:
  assumes "store_ok (entries d)" and "distinct (map fst (entries d))" and "good_start os"
    and "ReadConfString cf ''db_dir'' '''' \<noteq> ''''" and "snd (listen_loop ok 0)"
  shows "\<exists>m. Manager_init entries cf False ok (Some d) os (ServeManager no_db) = Done (m, None) \<and> store m = d \<and>
    (\<forall>name. case map_of (entries d) (room_key name) of
       Some v \<Rightarrow> (\<exists>r. map_of (rooms m) name = Some r \<and> room_info r = parseRoomRuntimeInfo v)
     | None \<Rightarrow> map_of (rooms m) name = None)"
proof -
  let ?m = "(ServeManager no_db)\<lparr>manager_closing := False, manager_readers := 0, manager_open := True\<rparr>"
  obtain m where "recovery entries cf (Some d) os ?m = Done m" "store m = d"
    "\<forall>name. case map_of (entries d) (room_key name) of
       Some v \<Rightarrow> (\<exists>r. map_of (rooms m) name = Some r \<and> room_info r = parseRoomRuntimeInfo v)
     | None \<Rightarrow> map_of (rooms m) name = None"
    using recovery_spec [where entries = entries and d = d, OF assms(1-4), of ?m] by (auto simp: ServeManager_def)
  then show ?thesis
    using assms(5) by (simp add: Manager_init_def Let_def)
qed

lemma listen_loop_succeeds: "snd (listen_loop ok 0) \<longleftrightarrow> (\<exists>i < 20. ok i)"
  using listen_loop_spec [of 0 ok] by (auto simp: find_None_iff find_Some_iff split: option.splits)

end
