(* ===== verification/Samples.thy ===== *)
theory Samples
  imports ManagerFacts
begin

text \<open>
  Small concrete states on which the properties of the root theory are applied: an archive of three
  bytes, a radio with one client, a room with one user logged in and one connection that is not, and
  a manager on an empty database.
\<close>

definition sample_file :: BufferedFile where
  "sample_file = \<lparr>option = \<lparr>FileName = ''a'', WriteCycle = 0, BufferSize = 4\<rparr>, fbuffer = [9, 0, 0, 0],
     waterMark = 1, fileSize = 2, wholeSize = 3, disk = [7, 8], fpos = 2, fopen = True, linked = True,
     goingClose = False\<rparr>"

definition sample_radio :: Radio where
  "sample_radio = \<lparr>clients = [(7, 0)], procs = [\<lparr>pclient = 7, tasks = [FileChunk 1 2], alive = True, sent = []\<rparr>],
     helpers = [], rfile = sample_file, closed = False, signature = ''s'', stuck = False\<rparr>"

definition sample_options :: RoomOption where
  "sample_options = \<lparr>MaxLoad = 2, Width = 100, Height = 100, Password = '''', WelcomeMsg = '''',
     Name = ''room'', EmptyClose = False\<rparr>"

definition sample_room :: Room where
  "sample_room = \<lparr>ln_open = True, GoingClose = False, router_readers = 0, radio = Some sample_radio,
     room_clients = [(7, \<lparr>clientId = ''u'', nickName = ''ann''\<rparr>), (8, \<lparr>clientId = '''', nickName = ''''\<rparr>)],
     currentClientsCount = 2, expiration = 48, key = ''k'', archiveSign = ''s'', port = 4000,
     Options = sample_options, lastCheck = 0\<rparr>"

definition sample_world :: world where
  "sample_world = \<lparr>room = sample_room, inbox = [], socks = (\<lambda>_. MakeSocketClient), greetings = [], closers = [],
     serving = [7, 8]\<rparr>"

definition sample_env :: env where
  "sample_env = \<lparr>clock = 0, clock_bytes = Some [1], conf = Map.empty, net_fault = (\<lambda>_. None),
     listens = (\<lambda>_. True), meets = (\<lambda>_. True), prompt = True, accepts = True, trunc_fails = False,
     random63 = int, disk_faults = healthy, write_fault = None\<rparr>"

definition sample_init :: init_env where
  "sample_init = \<lparr>resolve_fails = False, mkdir_fails = False, radio_open_err = False, radio_stat_err = False,
     data_files = Map.empty, listen_port = Some 4000\<rparr>"

definition sample_manager :: "database RoomManager" where
  "sample_manager = ServeManager empty_database"

definition sample_manager_env :: manager_env where
  "sample_manager_env = \<lparr>room_env = sample_env, room_init = sample_init, put_fails = False\<rparr>"

lemmas sample_defs = sample_file_def sample_radio_def sample_options_def sample_room_def sample_world_def
  sample_env_def sample_init_def sample_manager_env_def

lemma sample_file_inv: "bf_inv sample_file" "contents sample_file = [7, 8, 9]" "WholeSize sample_file = 3"
    "fbuffer sample_file = [9, 0, 0, 0]" "\<not> goingClose sample_file" "waterMark sample_file = 1"
  by (simp_all add: bf_inv_def contents_def WholeSize_def sample_file_def)

lemma sample_radio_simps: "clients sample_radio = [(7, 0)]" "helpers sample_radio = []" "rfile sample_radio = sample_file"
    "\<not> closed sample_radio" "\<not> stuck sample_radio" "signature sample_radio = ''s''" "length (procs sample_radio) = 1"
    "procs sample_radio ! 0 = \<lparr>pclient = 7, tasks = [FileChunk 1 2], alive = True, sent = []\<rparr>"
  by (simp_all add: sample_radio_def)

lemma sample_radio_inv: "hub_inv sample_radio"
  by (simp add: hub_inv_def sample_radio_simps sample_file_inv) 

lemma sample_world_simps:
  "room sample_world = sample_room" "inbox sample_world = []" "socks sample_world = (\<lambda>_. MakeSocketClient)"
  "greetings sample_world = []" "closers sample_world = []" "serving sample_world = [7, 8]"
  "radio sample_room = Some sample_radio" "currentClientsCount sample_room = 2" "\<not> GoingClose sample_room"
  "key sample_room = ''k''" "Options sample_room = sample_options" "archiveSign sample_room = ''s''"
  "port sample_room = 4000" "expiration sample_room = 48" "lastCheck sample_room = 0"
  "room_clients sample_room = [(7, \<lparr>clientId = ''u'', nickName = ''ann''\<rparr>), (8, \<lparr>clientId = '''', nickName = ''''\<rparr>)]"
  by (simp_all add: sample_world_def sample_room_def)

lemma sample_reachable: "reachable_sock sample_env sample_world c"
  by (simp add: reachable_sock_def sample_world_def sample_env_def MakeSocketClient_def)

lemma sample_env_simps: "\<not> trunc_fails sample_env" "meets sample_env c" "prompt sample_env" "accepts sample_env"
    "disk_faults sample_env = healthy" "write_fault sample_env = None" "clock sample_env = 0" "net_fault sample_env c = None"
  by (simp_all add: sample_env_def)

lemma sample_users: "hasUser sample_world 7" "\<not> hasUser sample_world 8"
  by (simp_all add: hasUser_def sample_world_simps)

lemma sample_info_ok: "info_ok (room_info sample_room)"
  by (simp add: info_ok_def room_info_def option_ok_def int64_def sample_room_def sample_options_def utf8_ascii)

lemma sample_init_healthy: "healthy_init sample_init" "listen_port sample_init = Some 4000"
  by (simp_all add: healthy_init_def sample_init_def)

lemma sample_manager_simps: "con_open (manager_socks sample_manager c)" "store sample_manager = empty_database"
    "rooms sample_manager = []" "currentRoomCount sample_manager = 0" "store_ok (db_entries empty_database)"
    "room_env sample_manager_env = sample_env" "room_init sample_manager_env = sample_init"
    "\<not> put_fails sample_manager_env" "conf sample_env = Map.empty"
  by (simp_all add: sample_manager_def ServeManager_def MakeSocketClient_def sample_manager_env_def sample_env_def
      store_ok_def empty_database.rep_eq)

lemma stored_sendable: "PackType h \<in> {0..3} \<Longrightarrow> length d \<le> 65535 \<Longrightarrow> sendable zlib_store (h, d)"
  by (simp add: sendable_def bufferToPack_def QCompress_header zlib_store_def stored_blocks.simps [of d] stored_block_def)

end
