(* ===== verification/ArchiveProperties.thy ===== *)
theory ArchiveProperties
  imports Samples
begin

text \<open>
  What the archive file, the radio's queues, the reader of a connection and its delivery promise:
  the properties of the components below the room, each applied to a small state of Samples.
\<close>

section \<open>The buffered file\<close>

text \<open>
  C11.  A buffered file is a log: after opening, any sequence of writes, syncs, clears and restarts (closing
  and opening again) on a healthy disk leaves the contents, the size and every read inside the file as in
  a plain byte list that is appended to and emptied, whatever the buffer and the disk hold in between.
\<close>

theorem buffered_file_is_a_log:
  assumes "MakeBufferedFile False False existing opt = Inr (f, None)"
    and "0 \<le> BufferSize opt" and "BufferSize opt \<le> 2 ^ 48"
    and "log = foldl log_step (case existing of None \<Rightarrow> [] | Some b \<Rightarrow> b) ops" and "length log \<le> 2 ^ 48"
    and "k + n \<le> length log"
  shows "contents (foldl bf_step f ops) = log \<and> WholeSize (foldl bf_step f ops) = int (length log) \<and>
    ReadAt (foldl bf_step f ops) (replicate n 0) (int k) = Inr (slice k n log, int n, None)"
proof -
  have "bf_live f" "contents f = (case existing of None \<Rightarrow> [] | Some b \<Rightarrow> b)"
    using MakeBufferedFile_spec [OF assms(2,3), of existing] assms(1-3) by (auto simp: bf_live_def)
  then have run: "bf_inv (foldl bf_step f ops)" "contents (foldl bf_step f ops) = log"
    using bf_run_refines [of f ops] assms(4) by (simp_all add: bf_live_def)
  then show ?thesis
    using bfile.size_law [OF run(1)] bfile.read_law [OF run(1), of k "replicate n 0"] assms(5,6) by simp
qed

theorem buffered_file_is_a_log_witness:
  "\<exists>f. MakeBufferedFile False False (Some [1, 2]) \<lparr>FileName = ''a'', WriteCycle = 0, BufferSize = 4\<rparr> = Inr (f, None) \<and>
    ReadAt (foldl bf_step f [OpWrite [3], OpReopen, OpWrite [4, 5]]) (replicate 3 0) (int 1) = Inr ([2, 3, 4], int 3, None)"
proof -
  let ?opt = "\<lparr>FileName = ''a'', WriteCycle = 0, BufferSize = 4\<rparr> :: BufferedFileOption"
  obtain f where f: "MakeBufferedFile False False (Some [1, 2]) ?opt = Inr (f, None)"
    using MakeBufferedFile_spec [of ?opt "Some [1, 2]"] by auto
  show ?thesis
    using buffered_file_is_a_log [OF f, of "[1, 2, 3, 4, 5]" "[OpWrite [3], OpReopen, OpWrite [4, 5]]" 1 3] f
    by (auto simp: slice_def)
qed

text \<open>
  C27.  Whatever the disk does, in every run of a buffered file the water mark stays inside the buffer
  and the whole size is the file size plus the water mark.
\<close>

theorem counters_survive_faults:
  assumes "marks_ok f"
  shows "marks_ok (foldl faulty_step f ops)"
  using assms by (induction ops arbitrary: f) (simp_all add: marks_ok_faulty_step)

theorem counters_survive_faults_witness:
  "marks_ok (foldl faulty_step sample_file
     [(OpSync, \<lparr>wfault = Some 0, oerr = True\<rparr>, None), (OpWrite [1, 2, 3, 4, 5], healthy, Some 2)])"
  by (rule counters_survive_faults) (simp add: marks_ok_def sample_file_def)

text \<open>
  C28.  A sync whose write stops short loses data: the buffer is given up and the file size grows by the
  whole mark all the same, so the sizes claim bytes that are nowhere.
\<close>

theorem failed_sync_loses_data:
  assumes "bf_inv f" and "k < waterMark f"
  shows "\<exists>f'. Sync \<lparr>wfault = Some k, oerr = False\<rparr> f = (f', Some ''write failed'') \<and>
    WholeSize f' = WholeSize f \<and> waterMark f' = 0 \<and>
    disk f' = disk f @ take k (fbuffer f) \<and> length (contents f') < nat (WholeSize f')"
  using assms
  by (auto simp: Sync_def bf_inv_def os_write_def contents_def WholeSize_def Let_def min_def)

theorem failed_sync_loses_data_witness:
  "\<exists>f'. Sync \<lparr>wfault = Some 0, oerr = False\<rparr> sample_file = (f', Some ''write failed'') \<and>
    length (contents f') < nat (WholeSize f')"
  using failed_sync_loses_data [of sample_file 0] by (auto simp: sample_file_inv)

section \<open>Reading from a connection\<close>

text \<open>
  C24.  However a stream is cut into reads, the reader hands over the same packets with the same status as
  when it gets the stream in one read, failures included, and while nothing fails it ends in the same
  state.
\<close>

theorem chunks_do_not_matter:
  assumes "waiting zr r" and "OnData zr r (concat cs) = (r1, ps, st)"
  shows "\<exists>r2. OnData_reads zr r cs = (r2, ps, st) \<and> (st = ReadOk \<longrightarrow> r2 = r1)"
  using assms
proof (induction cs arbitrary: r ps)
  case Nil
  then show ?case by (simp add: OnData_Nil)
next
  case (Cons c cs)
  obtain ra psa sta where ra: "OnData zr r c = (ra, psa, sta)" by (cases "OnData zr r c")
  show ?case
  proof (cases "sta = ReadOk")
    case True
    obtain rb psb stb where rb: "OnData zr ra (concat cs) = (rb, psb, stb)" by (cases "OnData zr ra (concat cs)")
    show ?thesis
      using Cons.IH [OF OnData_waiting [OF ra [unfolded True]] ] rb Cons.prems(2) ra True
      by (auto simp: OnData_append)
  next
    case False
    then show ?thesis
      using Cons.prems(2) ra by (cases sta) (auto simp: OnData_append)
  qed
qed

theorem chunks_do_not_matter_witness:
  "\<exists>r1 ps st r2. OnData (\<lambda>_. None) (RegisterHandler NewSocketReader) [0, 0, 0, 2, 4, 9, 0] = (r1, ps, st) \<and>
    OnData_reads (\<lambda>_. None) (RegisterHandler NewSocketReader) [[0, 0, 0], [2, 4], [9, 0]] = (r2, ps, st)"
proof -
  obtain r1 ps st where "OnData (\<lambda>_. None) (RegisterHandler NewSocketReader) (concat [[0, 0, 0], [2, 4], [9, 0]]) = (r1, ps, st)"
    by (metis prod.exhaust)
  then show ?thesis
    using chunks_do_not_matter [OF waiting_New] by fastforce
qed

text \<open>
  C25.  The bytes the reader keeps for relaying are the bytes that came in: as long as nothing fails,
  the repacked packets it has handed over, followed by what it still holds, are the stream.
\<close>

theorem packets_are_relayed_verbatim:
  assumes "OnData_reads zr r cs = (r', ps, ReadOk)" and "handler r"
  shows "held (dataSize r) (buffer r) @ concat cs = concat (map Repacked ps) @ held (dataSize r') (buffer r')"
  using assms
proof (induction cs arbitrary: r ps)
  case Nil
  then show ?case by simp
next
  case (Cons c cs)
  then obtain r1 ps1 ps2 where r1: "OnData zr r c = (r1, ps1, ReadOk)"
    and rest: "OnData_reads zr r1 cs = (r', ps2, ReadOk)" and ps: "ps = ps1 @ ps2"
    by (auto split: prod.splits read_status.splits)
  have "held (dataSize r) (buffer r @ c) = concat (map Repacked ps1) @ held (dataSize r1) (buffer r1)"
    using r1 Cons.prems(2) by (auto simp: OnData_def split: prod.splits dest: read_loop_held)
  then show ?case
    using Cons.IH [OF rest] OnData_handler [OF r1] Cons.prems(2) ps
    by (simp add: held_append) (metis append_assoc)
qed

theorem packets_are_relayed_verbatim_witness:
  "\<exists>r' ps. OnData_reads (\<lambda>_. None) (RegisterHandler NewSocketReader) [[0, 0], [0, 2, 4, 9]] = (r', ps, ReadOk) \<and>
    [0, 0, 0, 2, 4, 9] = concat (map Repacked ps) @ held (dataSize r') (buffer r')"
proof -
  have "snd (snd (OnData_reads (\<lambda>_. None) (RegisterHandler NewSocketReader) [[0, 0], [0, 2, 4, 9]])) = ReadOk"
    by code_simp
  then obtain r' ps where r: "OnData_reads (\<lambda>_. None) (RegisterHandler NewSocketReader) [[0, 0], [0, 2, 4, 9]] = (r', ps, ReadOk)"
    by (metis prod.collapse)
  show ?thesis
    using packets_are_relayed_verbatim [OF r] r by (simp add: RegisterHandler_def NewSocketReader_def)
qed

text \<open>
  C26.  A frame of length zero crashes the process: whatever well-formed packets came before, the four
  zero bytes of a package size at a frame boundary make the reading goroutine panic, and nothing
  recovers it.
\<close>

theorem empty_frame_crashes:
  assumes "OnData_reads zr (RegisterHandler r) cs = (r', ps, ReadOk)" and "[] \<notin> set cs"
    and "dataSize r' = 0" and "buffer r' = []"
  shows "\<exists>r2. RunReadLoop zr listening r c (map ReadGot cs @ [ReadGot [0, 0, 0, 0]]) =
    (r2, c, ps, LoopCrashed index_out_of_range)"
  using assms(3,4) read_events_ok [OF assms(1,2), of listening c "[ReadGot [0, 0, 0, 0]]"]
  by (simp add: RunReadLoop_def OnData_def read_loop.simps [of zr 0 "[0, 0, 0, 0]"] read_frame_def read_size_def
      GET_PACKAGE_SIZE_def un_be32_def unpack_def)

theorem empty_frame_crashes_witness:
  "\<exists>r2. RunReadLoop (\<lambda>_. None) (\<lambda>_. True) NewSocketReader MakeSocketClient (map ReadGot [] @ [ReadGot [0, 0, 0, 0]]) =
    (r2, MakeSocketClient, [], LoopCrashed index_out_of_range)"
  using empty_frame_crashes [of "\<lambda>_. None" NewSocketReader "[]" "RegisterHandler NewSocketReader" "[]"]
  by (simp add: RegisterHandler_def NewSocketReader_def)


section \<open>Signatures\<close>

text \<open>
  C23.  Hashing a stream piece by piece with the digest's buffer and block rounds gives the same value as
  hashing the whole in one call, for any way of cutting it.
\<close>

theorem streaming_hash_is_one_shot:
  "xxh_Sum64 (foldl xxh_Write xxh_New bs) = Sum64 (concat bs)"
  using xxh_Sum64_absorbed [OF absorbed_Writes [OF absorbed_New, of bs]] by simp

section \<open>The queues of the radio\<close>

text \<open>
  C21.  Cutting a range of the archive into chunks loses nothing: the chunks tile the range without gap or
  overlap, their bytes are the bytes of the range, and there are at most 2049 of them, however large it is.
\<close>

theorem chunks_tile_the_range:
  assumes "0 \<le> start" and "0 \<le> len" and "start + len < 2 ^ 63"
  shows "tiles start (splitChunk start len) (start + len) \<and> length (splitChunk start len) \<le> 2049 \<and>
    pending_bytes log (splitChunk start len) = slice (nat start) (nat len) log"
  using splitChunk_tiles [OF assms] splitChunk_bytes [OF assms] by simp

theorem chunks_tile_the_range_witness:
  "tiles 5 (splitChunk 5 1000000000) (5 + 1000000000) \<and> length (splitChunk 5 1000000000) \<le> 2049"
  using chunks_tile_the_range [of 5 1000000000] by simp

text \<open>
  C22.  Appending a chunk to a client's queue, merging it with the last one or splitting it as need be,
  appends exactly the chunk's bytes to what the queue still has to send.
\<close>

theorem queueing_appends_the_bytes:
  assumes "queue_ok (length log) queue" and "in_log (length log) chunk" and "int (length log) < 2 ^ 63"
  shows "\<exists>q. appendToPendings chunk queue = Inr q \<and> queue_ok (length log) q \<and>
    pending_bytes log q = pending_bytes log queue @ chunk_bytes log chunk"
  using appendToPendings_spec [OF assms(1,2) refl assms(3)] by blast

theorem queueing_appends_the_bytes_witness:
  "\<exists>q. appendToPendings (FileChunk 2 1) [RAMChunk [9], FileChunk 0 2] = Inr q \<and>
    pending_bytes [4, 5, 6] q = [9, 4, 5, 6]"
  using queueing_appends_the_bytes [of "[4, 5, 6]" "[RAMChunk [9], FileChunk 0 2]" "FileChunk 2 1"]
  by (auto simp: queue_ok_def in_log_def slice_def)

text \<open>
  C20.  Everything queued is sent: if nothing new arrives, ticking a client's goroutine as often as its
  queue is long empties the queue, and the client has got everything it was owed, in order.
\<close>

theorem queue_is_drained:
  assumes "hub_inv r" and "pid < length (procs r)" and "length (contents (rfile r)) \<le> 2 ^ 48"
  shows "\<exists>r'. hub_run (replicate (length (tasks (procs r ! pid))) (Tick pid)) r = Done r' \<and> hub_inv r' \<and>
    tasks (procs r' ! pid) = [] \<and> sent (procs r' ! pid) = feed r pid"
  by (rule drain_spec [OF assms refl])

theorem queue_is_drained_witness:
  "\<exists>r'. hub_run [Tick 0] sample_radio = Done r' \<and> tasks (procs r' ! 0) = [] \<and> sent (procs r' ! 0) = [8, 9]"
  using queue_is_drained [of sample_radio 0]
  by (auto simp: sample_radio_inv sample_radio_simps sample_file_inv feed_def slice_def)

section \<open>Where the radio goes wrong\<close>

text \<open>
  C38.  Order is lost between packets: every packet is offered to the clients by a goroutine of its own, so
  two packets written one after the other can reach a client in the other order, while the archive keeps
  the right one.
\<close>

theorem packets_can_swap:
  assumes "hub_inv r" and "helpers r = []" and "clients r = [(c, pid)]"
    and "int (length (contents (rfile r)) + length d1 + length d2) < 2 ^ 63"
  shows "\<exists>r1 r2 r3 r4. radio_write healthy None d1 r = Done r1 \<and> radio_write healthy None d2 r1 = Done r2 \<and>
    helper_meets 1 r2 = Done r3 \<and> helper_meets 0 r3 = Done r4 \<and> helpers r4 = [] \<and>
    contents (rfile r4) = contents (rfile r) @ d1 @ d2 \<and> feed r4 pid = feed r pid @ d2 @ d1"
proof -
  let ?log = "contents (rfile r)"
  let ?c1 = "FileChunk (int (length ?log)) (int (length d1))"
  let ?c2 = "FileChunk (int (length ?log + length d1)) (int (length d2))"
  have pid: "pid < length (procs r)" "alive (procs r ! pid)"
    using assms(1,3) by (auto simp: hub_inv_def)
  have sz: "WholeSize f = int (length (contents f))" if "bf_inv f" for f
    using that by (simp add: length_contents)
  obtain f1 where w1: "radio_write healthy None d1 r = Done (r\<lparr>rfile := f1, helpers := helpers_for ?c1 [(c, pid)]\<rparr>)"
    and f1: "bf_inv f1" "contents f1 = ?log @ d1"
    using write_spec [OF assms(1), of d1] assms sz by (auto simp: hub_inv_def)
  let ?r1 = "r\<lparr>rfile := f1, helpers := helpers_for ?c1 [(c, pid)]\<rparr>"
  have i1: "hub_inv ?r1" and fd1: "feed ?r1 pid = feed r pid"
    using grow_file [OF assms(1) f1] pid by blast+
  obtain f2 where w2: "radio_write healthy None d2 ?r1 =
      Done (?r1\<lparr>rfile := f2, helpers := helpers_for ?c1 [(c, pid)] @ helpers_for ?c2 [(c, pid)]\<rparr>)"
    and f2: "bf_inv f2" "contents f2 = contents (rfile ?r1) @ d2"
    using write_spec [OF i1, of d2] assms(3) f1 sz by auto
  let ?r2 = "?r1\<lparr>rfile := f2, helpers := helpers_for ?c1 [(c, pid)] @ helpers_for ?c2 [(c, pid)]\<rparr>"
  have i2: "hub_inv ?r2" and fd2: "feed ?r2 pid = feed r pid"
    using grow_file [OF i1 f2] pid fd1 by auto
  obtain q3 where m3: "receive_chunk pid ?c2 (drop_helper 1 ?r2) = Done (set_tasks pid q3 (drop_helper 1 ?r2))"
    and i3: "hub_inv (set_tasks pid q3 (drop_helper 1 ?r2))"
    and fd3: "feed (set_tasks pid q3 (drop_helper 1 ?r2)) pid = feed r pid @ d2"
    using receive_chunk_spec [of "drop_helper 1 ?r2" pid ?c2] i2 fd2 pid f1 f2 assms(4)
    by (auto simp: slice_def)
  let ?r3 = "set_tasks pid q3 (drop_helper 1 ?r2)"
  have h3: "helpers ?r3 = helpers_for ?c1 [(c, pid)]"
    by (simp add: drop_helper_def helpers_for_def)
  obtain q4 where m4: "receive_chunk pid ?c1 (drop_helper 0 ?r3) = Done (set_tasks pid q4 (drop_helper 0 ?r3))"
    and fd4: "feed (set_tasks pid q4 (drop_helper 0 ?r3)) pid = feed r pid @ d2 @ d1"
    using receive_chunk_spec [of "drop_helper 0 ?r3" pid ?c1] i3 fd3 pid f1 f2 assms(4)
    by (auto simp: slice_def)
  have "helper_meets 1 ?r2 = Done ?r3"
    using m3 pid by (simp add: helper_meets_def helpers_for_def)
  moreover have "helper_meets 0 ?r3 = Done (set_tasks pid q4 (drop_helper 0 ?r3))"
    using m4 pid h3 by (simp add: helper_meets_def helpers_for_def nth_set_tasks)
  moreover have "helpers (set_tasks pid q4 (drop_helper 0 ?r3)) = []"
    using h3 by (simp add: drop_helper_def helpers_for_def)
  ultimately show ?thesis
    using w1 w2 fd4 f1 f2 by auto
qed

theorem packets_can_swap_witness:
  "\<exists>r1 r2 r3 r4. radio_write healthy None [1] sample_radio = Done r1 \<and> radio_write healthy None [2] r1 = Done r2 \<and>
    helper_meets 1 r2 = Done r3 \<and> helper_meets 0 r3 = Done r4 \<and> contents (rfile r4) = [7, 8, 9, 1, 2] \<and>
    feed r4 0 = feed sample_radio 0 @ [2, 1]"
  using packets_can_swap [of sample_radio 7 0 "[1]" "[2]"]
  by (auto simp: sample_radio_inv sample_radio_simps sample_file_inv)

text \<open>
  C39.  A client that joins between the write to the file and the broadcast gets the packet twice: its first
  queue already covers it, and the broadcast queues it once more.
\<close>

theorem joiner_gets_packet_twice:
  assumes "hub_inv r" and "helpers r = []" and "clients r = []"
    and "int (length (contents (rfile r)) + length d) < 2 ^ 63"
  shows "\<exists>r1 old r2 r3 r4. write_file healthy None d r = Done (r1, old) \<and>
    AddClient c 0 0 r1 = Done r2 \<and> write_bcast old d r2 = Done r3 \<and> helper_meets 0 r3 = Done r4 \<and>
    contents (rfile r4) = contents (rfile r) @ d \<and>
    feed r4 (length (procs r)) = contents (rfile r) @ d @ d"
proof -
  let ?n = "length (procs r)" and ?log = "contents (rfile r)"
  have old: "WholeSize (rfile r) = int (length ?log)"
    using assms(1) by (simp add: hub_inv_def length_contents)
  obtain f where w: "write_file healthy None d r = Done (r\<lparr>rfile := f\<rparr>, WholeSize (rfile r))"
    and f: "bf_inv f" "contents f = ?log @ d"
    using write_spec [OF assms(1), of d] by blast
  let ?r1 = "r\<lparr>rfile := f\<rparr>"
  have i1: "hub_inv ?r1"
    using grow_file(1) [OF assms(1) f, of "[]"] by (simp add: hub_inv_def)
  have size: "WholeSize f = int (length ?log + length d)"
    using f by (simp add: length_contents [symmetric])
  let ?q = "initial_tasks (WholeSize f) 0 0"
  let ?r2 = "?r1\<lparr>clients := [(c, ?n)], procs := procs r @ [\<lparr>pclient = c, tasks = ?q, alive = True, sent = []\<rparr>]\<rparr>"
  have a: "AddClient c 0 0 ?r1 = Done ?r2"
    using i1 assms(3) by (simp add: AddClient_def locked_def hub_inv_def)
  have i2: "hub_inv ?r2" and fd2: "feed ?r2 ?n = ?log @ d"
    using AddClient_archive [OF i1, of 0 0 c] a f size assms(4) by auto
  let ?c = "FileChunk (int (length ?log)) (int (length d))"
  let ?r3 = "?r2\<lparr>helpers := helpers_for ?c [(c, ?n)]\<rparr>"
  have b: "write_bcast (WholeSize (rfile r)) d ?r2 = Done ?r3"
    using i2 assms(2) old by (simp add: write_bcast_def locked_def hub_inv_def helpers_for_def)
  have i3: "hub_inv ?r3" and fd3: "feed ?r3 ?n = ?log @ d"
    using i2 fd2 by (simp_all add: hub_inv_def feed_def)
  obtain q where m: "receive_chunk ?n ?c (drop_helper 0 ?r3) = Done (set_tasks ?n q (drop_helper 0 ?r3))"
    and fd4: "feed (set_tasks ?n q (drop_helper 0 ?r3)) ?n = ?log @ d @ d"
    using receive_chunk_spec [of "drop_helper 0 ?r3" ?n ?c] i3 fd3 f assms(4)
    by (auto simp: slice_def)
  have "helper_meets 0 ?r3 = Done (set_tasks ?n q (drop_helper 0 ?r3))"
    using m by (simp add: helper_meets_def helpers_for_def)
  with w a b fd4 f show ?thesis by auto
qed

theorem joiner_gets_packet_twice_witness:
  "\<exists>r1 old r2 r3 r4. write_file healthy None [5] (sample_radio\<lparr>clients := []\<rparr>) = Done (r1, old) \<and>
    AddClient 9 0 0 r1 = Done r2 \<and> write_bcast old [5] r2 = Done r3 \<and> helper_meets 0 r3 = Done r4 \<and>
    feed r4 1 = [7, 8, 9] @ [5] @ [5]"
proof -
  have "hub_inv (sample_radio\<lparr>clients := []\<rparr>)"
    using sample_radio_inv by (simp add: hub_inv_def)
  then show ?thesis
    using joiner_gets_packet_twice [of "sample_radio\<lparr>clients := []\<rparr>" "[5]" 9]
    by (auto simp: sample_radio_simps sample_file_inv)
qed



text \<open>
  C40.  A client that asks for an absurd length of the archive kills the server: the request is accepted,
  and its goroutine panics when it makes the slice for the first chunk.
\<close>

theorem huge_request_kills_the_server:
  assumes "hub_inv r" and "WholeSize (rfile r) < 2 ^ 62"
  shows "\<exists>r'. AddClient c 0 (2 ^ 62) r = Done r' \<and>
    tick fault (length (procs r)) r' = Panics makeslice_out_of_range r'"
proof -
  obtain rest where "initial_tasks (WholeSize (rfile r)) 0 (2 ^ 62) = FileChunk 0 3518437208883200 # rest"
    using initial_tasks_huge [of "WholeSize (rfile r)"] assms(2) by (auto simp: WholeSize_def)
  then show ?thesis
    using assms(1)
    by (simp add: AddClient_def locked_def hub_inv_def tick_def Let_def nth_append fetch_huge make_ok_def)
qed

theorem huge_request_kills_the_server_witness:
  "\<exists>r'. AddClient 9 0 (2 ^ 62) sample_radio = Done r' \<and> tick None 1 r' = Panics makeslice_out_of_range r'"
  using huge_request_kills_the_server [of sample_radio 9 None]
  by (simp add: sample_radio_inv sample_radio_simps sample_file_inv)

end
