(* ===== verification/RoomProperties.thy ===== *)
theory RoomProperties
  imports Samples
begin

text \<open>
  Properties of a single room and of the command router it shares with the manager, each applied to
  the room of Samples.
\<close>

section \<open>Requests\<close>

text \<open>
  C17.  A clear request with the room's key, sent by a user: it succeeds, the archive is empty afterwards,
  room and radio share the new signature, and exactly the logged-in clients are told it.
\<close>

theorem clear_empties_the_archive:
  assumes "hasUser w c" and "fst (Unmarshal ClearAllRequest_fields KeyRequest_zero data) = Some req"
    and "key_key req = key (room w)" and "radio (room w) = Some r" and "hub_inv r" and "\<not> trunc_fails env"
    and "inbox w = []" and "distinct (map fst (room_clients (room w)))"
    and "\<forall>(k, u) \<in> set (room_clients (room w)). clientId u \<noteq> '''' \<longrightarrow> reachable_sock env w k"
    and "\<not> closed r" and "meets env c"
  shows "\<exists>w' sign r'. handleClearAll zw env data c w = Done w' \<and> radio (room w') = Some r' \<and> sign = genArchiveSign (random63 env) (signature r) \<and>
    archiveSign (room w') = sign \<and> signature r' = sign \<and> contents (rfile r') = [] \<and>
    (\<forall>k. con_out (socks w' k) = con_out (socks w k) @
       (if hasUser w k then frame zw COMMAND (ClearAllAction sign) else []))"
proof -
  let ?sign = "genArchiveSign (random63 env) (signature r)"
  obtain r1 where r1: "Prune False (random63 env) r = Done r1" "contents (rfile r1) = []" "signature r1 = ?sign"
    and like: "clients r1 = clients r" "stuck r1 = stuck r" "closed r1 = closed r" "\<And>k. alive (procs r1 ! k) = alive (procs r ! k)"
    using Prune_spec [OF assms(5), of "random63 env"] by (metis proc.select_convs(3) proc.surjective proc.update_convs(2))
  let ?w1 = "with_radio r1 w"
  let ?w2 = "set_room (\<lambda>m. m\<lparr>archiveSign := ?sign\<rparr>) ?w1"
  have "radio_Prune env w = Done ?w1"
    using r1(1) assms(4,6) unfolding radio_Prune_def by (intro on_radio_Done) simp_all
  moreover have "radio_Signature ?w1 = ?sign" "radio_Signature ?w2 = ?sign"
    using r1(3) by (simp_all add: radio_Signature_def Signature_def with_radio_def set_room_def)
  ultimately have run: "handleClearAll zw env data c w =
      andThen (sendCommandTo zw env (ClearAllResponse True) c ?w2) (broadcastCommand zw env (ClearAllAction ?sign))"
    using assms(1-3) by (simp add: handleClearAll_def if_user_def with_request_def Key_def)
  have "inbox ?w2 = []"
    using assms(7) by (simp add: set_room_def with_radio_def)
  have "alive (procs r1 ! pid)" if "map_of (clients r1) c = Some pid" for pid
    using assms(5) map_of_SomeD [OF that] like by (auto simp: hub_inv_def)
  then obtain w3 where w3: "sendCommandTo zw env (ClearAllResponse True) c ?w2 = Done w3"
    using sendCommandTo_ready [of ?w2 r1 env c zw "ClearAllResponse True"] assms(5,10,11) like \<open>inbox ?w2 = []\<close>
    by (auto simp: set_room_def with_radio_def hub_inv_def)
  then have same_file: "radio_file w3 = radio_file ?w2"
    using single_send_file [OF \<open>inbox ?w2 = []\<close>] w3 by (auto simp: sendCommandTo_def sendTo_def ensures_def)
  have "same_but_radio ?w2 w3"
    using sendCommandTo_same [of zw env "ClearAllResponse True" c ?w2] w3 by simp
  then obtain x where x: "room w3 = (room ?w2)\<lparr>radio := x\<rparr>" "radio_like (radio (room ?w2)) x" "socks w3 = socks w"
    by (auto simp: same_but_radio_def set_room_def with_radio_def)
  then obtain r3 where r3: "x = Some r3" "signature r3 = ?sign" "rfile r3 = rfile r1"
    using same_file r1(3) by (auto simp: radio_like_def radio_kept_def radio_file_def set_room_def with_radio_def
        split: option.splits)
  have clients3: "room_clients (room w3) = room_clients (room w)" "archiveSign (room w3) = ?sign"
    using x(1) by (simp_all add: set_room_def with_radio_def)
  have hu: "hasUser w3 k = hasUser w k" for k
    using clients3 by (simp add: hasUser_def)
  have reach: "reachable_sock env w3 k = reachable_sock env w k" for k
    using x(3) by (simp add: reachable_sock_def)
  obtain w4 where "broadcastCommand zw env (ClearAllAction ?sign) w3 = Done w4" "room w4 = room w3"
    "\<forall>k. con_out (socks w4 k) = con_out (socks w3 k) @ (if hasUser w3 k then frame zw COMMAND (ClearAllAction ?sign) else [])"
    using broadcastCommand_spec [of w3 env zw "ClearAllAction ?sign"] assms(8,9) clients3 reach by auto
  then show ?thesis
    using run w3 x r3 clients3 hu r1(2) by simp
qed

lemma sample_clear_request:
  "fst (Unmarshal ClearAllRequest_fields KeyRequest_zero (Marshal (JObj [(''key'', JStr ''k'')]))) =
     Some \<lparr>key_request = '''', key_key = ''k''\<rparr>"
  by code_simp

theorem clear_empties_the_archive_witness:
  "\<exists>w' r'. handleClearAll zlib_store sample_env (Marshal (JObj [(''key'', JStr ''k'')])) 7 sample_world = Done w' \<and>
    radio (room w') = Some r' \<and> contents (rfile r') = [] \<and> con_out (socks w' 8) = con_out (socks sample_world 8)"
  using clear_empties_the_archive [OF sample_users(1) sample_clear_request, of sample_radio sample_env zlib_store]
  by (auto simp: sample_world_simps sample_radio_inv sample_radio_simps sample_reachable sample_env_simps sample_users)

text \<open>
  C18.  A user who asks for a part of the archive that is there is told the length of everything from the
  start it named, and its stream then holds exactly those bytes; the other clients' streams are untouched.
\<close>

theorem archive_is_served_from_start:
  assumes "hasUser w c" and "fst (Unmarshal ArchiveRequest_fields ArchiveRequest_zero data) = Some req"
    and "reachable_sock env w c" and "radio (room w) = Some r" and "hub_inv r"
    and "0 \<le> archive_start req" and "0 \<le> archive_datalength req"
    and "archive_start req + archive_datalength req \<le> FileSize r" and "FileSize r < 2 ^ 63"
  shows "\<exists>r'. handleArchive zw env data c w = Done (with_radio r'
      (receives c (frame zw COMMAND (ArchiveResponse True (signature r) (FileSize r - archive_start req) 0)) w)) \<and>
    hub_inv r' \<and> registered r' (length (procs r)) \<and> rfile r' = rfile r \<and>
    feed r' (length (procs r)) = drop (nat (archive_start req)) (contents (rfile r)) \<and>
    (\<forall>k < length (procs r). feed r' k = feed r k)"
proof -
  let ?start = "archive_start req" and ?w = "receives c (frame zw COMMAND (ArchiveResponse True (signature r) (FileSize r - archive_start req) 0)) w"
  have fs: "FileSize r = WholeSize (rfile r)"
    by (simp add: FileSize_def)
  have l: "archive_length (FileSize r) ?start (archive_datalength req) = FileSize r - ?start"
    using assms by (intro archive_length_inside)
  obtain r' where r': "AddClient c ?start (FileSize r - ?start) r = Done r'" "hub_inv r'"
    "rfile r' = rfile r" "registered r' (length (procs r))"
    "feed r' (length (procs r)) = drop (nat ?start) (contents (rfile r))"
    "\<forall>k < length (procs r). feed r' k = feed r k"
    using AddClient_archive [OF assms(5,6), of "FileSize r - ?start" c] assms fs by auto
  have "radio_AddClient c ?start (FileSize r - ?start) ?w = Done (with_radio r' ?w)"
    unfolding radio_AddClient_def by (rule on_radio_Done [where r = r]) (simp_all add: assms(4) r'(1))
  then have "handleArchive zw env data c w = Done (with_radio r' ?w)"
    using assms(1-4) l
    by (simp add: handleArchive_def if_user_def with_request_def with_FileSize_def directSendCommand_ok
        radio_Signature_def Signature_def)
  then show ?thesis
    using r' by blast
qed

lemma sample_archive_request:
  "fst (Unmarshal ArchiveRequest_fields ArchiveRequest_zero
     (Marshal (JObj [(''start'', JInt 1), (''datalength'', JInt 1)]))) =
   Some \<lparr>archive_request = '''', archive_start = 1, archive_datalength = 1\<rparr>"
  by code_simp

theorem archive_is_served_from_start_witness:
  "\<exists>r'. handleArchive zlib_store sample_env (Marshal (JObj [(''start'', JInt 1), (''datalength'', JInt 1)])) 7 sample_world =
      Done (with_radio r' (receives 7 (frame zlib_store COMMAND (ArchiveResponse True ''s'' 2 0)) sample_world)) \<and>
    feed r' 1 = [8, 9]"
  using archive_is_served_from_start [OF sample_users(1) sample_archive_request sample_reachable, of sample_radio zlib_store]
  by (auto simp: sample_world_simps sample_radio_inv sample_radio_simps sample_file_inv FileSize_def)

text \<open>
  C19.  A client that has not logged in gets nothing done: for it, every request that needs a login leaves
  the whole world as it was.
\<close>

theorem strangers_get_nothing_done:
  assumes "\<not> hasUser w c" and "carries ''request'' data req" and "req \<in> needs_login"
  shows "on_command zw env data c w = Done w"
proof -
  obtain h where h: "map_of (rev (room_handlers zw env)) req = Some h"
    using handler_exists [OF assms(3)] by blast
  show ?thesis
    by (rule on_command_runs [OF assms(2) h handler_without_login [OF assms(3) h assms(1)] refl])
qed

theorem strangers_get_nothing_done_witness:
  "on_command zlib_store sample_env (Marshal (JObj [(''request'', JStr ''close''), (''key'', JStr ''k'')])) 8 sample_world =
    Done sample_world"
proof (rule strangers_get_nothing_done [where req = "''close''"])
  show "carries ''request'' (Marshal (JObj [(''request'', JStr ''close''), (''key'', JStr ''k'')])) ''close''"
    by code_simp
qed (simp_all add: sample_users needs_login_def)

text \<open>
  C16.  The counter of clients falls with every malformed command: each of them removes the client again
  and lowers the counter by one, though the client is only in the table once and stays connected, so a
  client can make room for any number of others.
\<close>

theorem malformed_commands_lower_the_count:
  assumes "\<forall>ev \<in> set evs. malformed ev" and "radio_free w" and "evs \<noteq> []"
  shows "\<exists>w'. client_run zw env c evs w = Done (w', True) \<and> radio_free w' \<and>
    currentClientsCount (room w') = wrap32 (currentClientsCount (room w) - int (length evs)) \<and>
    room_clients (room w') = AList.delete c (room_clients (room w)) \<and> Options (room w') = Options (room w)"
  using assms
proof (induction evs arbitrary: w)
  case (Cons ev evs)
  obtain w1 where w1: "client_step zw env c ev w = Done (w1, True)" "radio_free w1"
    "currentClientsCount (room w1) = wrap32 (currentClientsCount (room w) - 1)"
    "room_clients (room w1) = AList.delete c (room_clients (room w))" "Options (room w1) = Options (room w)"
    using malformed_step [of ev w zw env c] Cons.prems by auto
  show ?case
  proof (cases "evs = []")
    case True
    then show ?thesis
      using w1 by simp
  next
    case False
    then obtain w2 where "client_run zw env c evs w1 = Done (w2, True)" "radio_free w2"
      "currentClientsCount (room w2) = wrap32 (currentClientsCount (room w1) - int (length evs))"
      "room_clients (room w2) = AList.delete c (room_clients (room w1))" "Options (room w2) = Options (room w1)"
      using Cons.IH [of w1] Cons.prems w1 by auto
    then show ?thesis
      using w1 by (simp add: delete_delete wrap32_again algebra_simps)
  qed
qed simp

theorem malformed_commands_lower_the_count_witness:
  "\<exists>w'. client_run zlib_store sample_env 8 (replicate 5 (GotPackage \<lparr>PackageType = COMMAND, Unpacked = [], Repacked = []\<rparr>))
      sample_world = Done (w', True) \<and> currentClientsCount (room w') = - 3"
proof -
  have "\<not> carries ''request'' [] req" for req
  proof -
    have "case unmarshal_map [] of Inl _ \<Rightarrow> True | Inr _ \<Rightarrow> False" by code_simp
    then show ?thesis by (simp add: carries_def split: sum.splits)
  qed
  then show ?thesis
    using malformed_commands_lower_the_count [of "replicate 5 (GotPackage \<lparr>PackageType = COMMAND, Unpacked = [], Repacked = []\<rparr>)"
        sample_world zlib_store sample_env 8]
    by (auto simp: malformed_def radio_free_def sample_world_simps sample_radio_simps wrap32_def)
qed

section \<open>The life of a room\<close>

text \<open>
  C29.  A room outlives the server: recovering the record it writes to the database, on its old port, gives
  back its options, key, port, lifetime, check time and signature, with the archive read from its data
  file and nobody connected.
\<close>

theorem room_survives_restart:
  assumes "info_ok (room_info m)" and "key m \<noteq> ''''" and "healthy_init ienv" and "listen_port ienv = Some (port m)"
  shows "\<exists>m' r. RecoverRoom ienv env (parseRoomRuntimeInfo (dumpRoom m)) = Done (m', None) \<and>
    room_info m' = room_info m \<and> room_clients m' = [] \<and> currentClientsCount m' = 0 \<and> \<not> GoingClose m' \<and>
    radio m' = Some r \<and> hub_inv r \<and> signature r = archiveSign m \<and>
    contents (rfile r) = (case data_files ienv (data_path env (archiveSign m)) of None \<Rightarrow> [] | Some b \<Rightarrow> b)"
  by (rule recover_dump [OF assms])

theorem room_survives_restart_witness:
  "\<exists>m'. RecoverRoom sample_init sample_env (parseRoomRuntimeInfo (dumpRoom sample_room)) = Done (m', None) \<and>
    room_info m' = room_info sample_room"
  using room_survives_restart [OF sample_info_ok _ sample_init_healthy(1)]
  by (auto simp: sample_world_simps sample_init_healthy)

text \<open>
  C30.  When the last client leaves a room that closes when empty, the room closes: it stops listening, its
  radio is closed and its data file is removed.
\<close>

theorem last_leave_closes_the_room:
  assumes "currentClientsCount (room w) = 1" and "EmptyClose (Options (room w))" and "\<not> GoingClose (room w)"
    and "radio (room w) = Some r" and "\<not> closed r" and "\<not> stuck r" and "\<not> goingClose (rfile r)"
  shows "\<exists>w'. client_step zw env c ChannelClosed w = Done (w', False) \<and> room_closed w'"
proof -
  let ?r = "r\<lparr>clients := AList.delete c (clients r)\<rparr>"
  let ?w1 = "with_radio ?r (set_room (\<lambda>m. add_count (- 1) (m\<lparr>room_clients := AList.delete c (room_clients m)\<rparr>)) w)"
  have r1: "removeClient c w = Done ?w1"
    unfolding removeClient_def radio_RemoveClient_def
    by (rule on_radio_Done [where r = r])
      (simp_all add: assms RemoveClient_def locked_def set_room_def add_count_def)
  have "\<exists>w'. Room_Close env ?w1 = Done w' \<and> room_closed w' \<and> room_clients (room w') = room_clients (room ?w1)"
    by (rule Room_Close_done [where r = ?r])
      (simp_all add: assms with_radio_def set_room_def add_count_def)
  then obtain w' where w': "Room_Close env ?w1 = Done w'" "room_closed w'"
    by blast
  have "currentClientsCount (room ?w1) = 0" "EmptyClose (Options (room ?w1))"
    by (simp_all add: assms with_radio_def set_room_def add_count_def)
  then have "processEmptyClose env ?w1 = Done w'"
    using w' by (simp add: processEmptyClose_def)
  then show ?thesis
    using r1 w' by (simp add: client_step_def goes_def)
qed

theorem last_leave_closes_the_room_witness:
  "\<exists>w'. client_step zlib_store sample_env 7 ChannelClosed
      (set_room (\<lambda>m. m\<lparr>currentClientsCount := 1, Options := sample_options\<lparr>EmptyClose := True\<rparr>\<rparr>) sample_world) =
      Done (w', False) \<and> room_closed w'"
proof (rule last_leave_closes_the_room [where r = sample_radio])
  show "\<not> goingClose (rfile sample_radio)"
    by (simp add: sample_radio_simps sample_file_inv)
qed (simp_all add: set_room_def sample_world_simps sample_radio_simps)

text \<open>
  C31.  The hourly check: as long as the last checkout is no longer ago than the room's lifetime it does
  nothing; after that it closes a room without clients at once, and marks any other one to close when it
  is empty.
\<close>

theorem hourly_check:
  assumes "\<not> GoingClose (room w)" and "0 \<le> expiration (room w)" and "expiration (room w) < 2 ^ 21"
    and "lastCheck (room w) \<le> clock env" and "radio (room w) = Some r" and "\<not> closed r" and "\<not> stuck r"
    and "\<not> goingClose (rfile r)"
  shows "if clock env - lastCheck (room w) \<le> hour * expiration (room w) then processExpire_round env w = Done (w, True)
    else \<exists>w'. processExpire_round env w = Done (w', True) \<and>
      (if currentClientsCount (room w) = 0 then room_closed w'
       else w' = set_room (\<lambda>m. m\<lparr>Options := (Options m)\<lparr>EmptyClose := True\<rparr>\<rparr>) w)"
  using expire_early [OF assms(1-4)] expire_late [OF assms(1-3) _ assms(5-8)] by (simp add: not_le)

theorem hourly_check_witness:
  "\<exists>w'. processExpire_round (sample_env\<lparr>clock := hour * 49\<rparr>) sample_world = Done (w', True) \<and>
    EmptyClose (Options (room w'))"
  using hourly_check [of sample_world "sample_env\<lparr>clock := hour * 49\<rparr>" sample_radio]
  by (simp add: sample_world_simps sample_radio_simps sample_file_inv hour_def set_room_def)

section \<open>The command router\<close>

text \<open>
  C34.  A message reaches a handler only if it is a JSON object whose request is a string that is
  registered: anything else changes neither the router nor the state, and only the malformed ones are
  reported.
\<close>

theorem only_known_requests_reach_a_handler:
  assumes "\<And>req. carries (rkey r) data req \<Longrightarrow> map_of (table r) req = None"
  shows "\<exists>err. OnMessage r data client w = Done (r, w, err) \<and> (err = None \<longleftrightarrow> (\<exists>req. carries (rkey r) data req))"
proof (cases "\<exists>req. carries (rkey r) data req")
  case True
  then show ?thesis
    using OnMessage_unknown assms by fastforce
next
  case False
  then show ?thesis
    using OnMessage_malformed [of r data client w] by fastforce
qed

theorem only_known_requests_reach_a_handler_witness:
  "\<exists>err. OnMessage (MakeRouter ''request'') (Marshal (JObj [(''request'', JStr ''x'')])) 7 sample_world =
    (Done (MakeRouter ''request'', sample_world, err) :: (world Router \<times> world \<times> string option) exec)"
  using only_known_requests_reach_a_handler [of "MakeRouter ''request'' :: world Router"]
  by (force simp: MakeRouter_def)

text \<open>
  C35.  A handler that panics with an error leaves the router's read lock held: the message is reported, but
  registering a handler later waits for ever.
\<close>

theorem panicking_handler_keeps_the_lock:
  assumes "carries (rkey r) data req" and "map_of (table r) req = Some f"
    and "f data client w = Panics (PanicError e) w'"
    and "OnMessage r data client w = Done (r', w'', err)"
  shows "err = Some e \<and> Register name h r' = Blocks"
  using assms OnMessage_panic [OF assms(1,2,3)] by (auto simp: Register_def Let_def)

lemma sample_bad_newroom:
  "carries ''request'' (Marshal (JObj [(''request'', JStr ''newroom''), (''info'', JInt 3)])) ''newroom''"
  "snd (Unmarshal NewRoomRequest_fields NewRoomRequest_zero
     (Marshal (JObj [(''request'', JStr ''newroom''), (''info'', JInt 3)]))) \<noteq> None"
  by code_simp+

theorem panicking_handler_keeps_the_lock_witness:
  "\<exists>r' w'' err. OnMessage (manager_router database_put zlib_store sample_manager_env 0)
      (Marshal (JObj [(''request'', JStr ''newroom''), (''info'', JInt 3)])) 1 sample_manager = Done (r', w'', err) \<and>
    Register ''x'' (\<lambda>_ _. Done) r' = Blocks"
proof -
  let ?r = "manager_router database_put zlib_store sample_manager_env 0"
  let ?d = "Marshal (JObj [(''request'', JStr ''newroom''), (''info'', JInt 3)])"
  have c: "carries (rkey ?r) ?d ''newroom''"
    using sample_bad_newroom(1) by (simp add: manager_router_def)
  have t: "map_of (table ?r) ''newroom'' = Some (handleNewRoom database_put zlib_store sample_manager_env)"
    by (simp add: manager_router_def)
  obtain x e where u: "Unmarshal NewRoomRequest_fields NewRoomRequest_zero ?d = (x, Some e)"
    using sample_bad_newroom(2) by (metis option.exhaust prod.collapse)
  have h: "handleNewRoom database_put zlib_store sample_manager_env ?d 1 sample_manager = Panics (PanicError e) sample_manager"
    using u by (cases x) (simp_all add: handleNewRoom_def)
  have "\<exists>r' w'' err. OnMessage ?r ?d 1 sample_manager = Done (r', w'', err)"
    using OnMessage_panic [OF c t h] by (simp add: Let_def)
  then show ?thesis
    using panicking_handler_keeps_the_lock [OF c t h] by blast
qed

end
