(* ===== verification/ManagerProperties.thy ===== *)
theory ManagerProperties
  imports Samples
begin

text \<open>
  Properties of the room manager, of the records it keeps in the database, and of the configuration
  they both depend on.
\<close>

section \<open>Which rooms are accepted\<close>



text \<open>
  C15.  The limit on the number of rooms is never reached: in every run of the manager of fewer than 2^31
  steps its counter only falls, so with a positive limit no request is ever refused for too many rooms.
\<close>

theorem room_limit_is_never_reached:
  assumes "manager_run put del n m" and "n < 2 ^ 31" and "0 < ReadConfInt cf ''max_room_count'' 1000"
  shows "- int n \<le> currentRoomCount m \<and> currentRoomCount m \<le> 0 \<and> limitRoomOption cf m opt \<noteq> NEW_ROOM_TOO_MANY_ROOMS"
  using manager_run_count [OF assms(1,2)] limit_too_many [of cf m opt] assms(3) by fastforce

theorem room_limit_is_never_reached_witness:
  "limitRoomOption Map.empty (manager_accept 1 sample_manager) sample_options \<noteq> NEW_ROOM_TOO_MANY_ROOMS"
proof -
  have "manager_run database_put database_del 1 (manager_accept 1 sample_manager)"
    using manager_run.accepts [OF manager_run.start] by (simp add: sample_manager_def)
  then show ?thesis
    using room_limit_is_never_reached [of _ _ 1 "manager_accept 1 sample_manager" Map.empty sample_options]
    by (simp add: ReadConfInt_def Load_def)
qed



section \<open>The records of the rooms\<close>

text \<open>
  C12.  A room's record lives as long as its lifetime says: after \<open>n\<close> hourly rounds it is still there with
  \<open>n\<close> hours less as long as hours are left, and it is gone from then on; records of other rooms do not
  matter.
\<close>

theorem records_expire_by_the_hour:
  assumes "map_of (db_entries d) (room_key name) = Some (ToJson i)" and "info_ok i"
  shows "map_of (db_entries ((shortenRooms_round database_put database_del db_entries False ^^ n) d)) (room_key name) =
    (if n = 0 \<or> int n < info_Expiration i then Some (ToJson (older n i)) else None)"
  by (rule leveldb.shortenRooms_hours [OF assms])

theorem records_expire_by_the_hour_witness:
  "let d = database_put (room_key ''room'') (dumpRoom sample_room) empty_database;
       round = shortenRooms_round database_put database_del db_entries False
   in map_of (db_entries ((round ^^ 47) d)) (room_key ''room'') = Some (ToJson (older 47 (room_info sample_room))) \<and>
      map_of (db_entries ((round ^^ 48) d)) (room_key ''room'') = None"
proof -
  have d: "map_of (db_entries (database_put (room_key ''room'') (dumpRoom sample_room) empty_database)) (room_key ''room'') =
      Some (ToJson (room_info sample_room))"
    by (simp add: leveldb.entries_put dumpRoom_def)
  have "info_Expiration (room_info sample_room) = 48"
    by (simp add: room_info_def sample_world_simps)
  then show ?thesis
    using records_expire_by_the_hour [OF d sample_info_ok, of 47] records_expire_by_the_hour [OF d sample_info_ok, of 48]
    by (simp add: Let_def)
qed

section \<open>The configuration\<close>


definition sample_os :: os_env where
  "sample_os = \<lparr>getwd = Some ''/w'', open_fails = (\<lambda>_. False), create_fails = (\<lambda>_. False), stat_fails = (\<lambda>_. False),
     read_fails = (\<lambda>_. False), write_takes = (\<lambda>_. None), entropy = int\<rparr>"

definition sample_config :: Config where
  "sample_config = \<lparr>confMap = Map.empty, fs = [''/w/config.yml'' \<mapsto> [1]]\<rparr>"

definition sample_yaml :: "(conf_key \<times> conf_value) list" where
  "sample_yaml = [(KeyString ''expiration'', CString ''x''), (KeyString ''salt'', CString ''./data/salt.key''),
    (KeyString ''db_dir'', CString ''db'')]"

lemma sample_startable: "startable (\<lambda>_. Inr (YMap sample_yaml)) sample_os sample_config ''/w'' sample_yaml"
  by (simp add: startable_def sample_os_def sample_config_def Join_def)




end
