(* ===== verification/Spec2Isabelle.thy ===== *)
theory Spec2Isabelle
  imports WatchDog ArchiveProperties RoomProperties ManagerProperties
begin

text \<open>
  A model of \<^emph>\<open>painttyServer\<close>, a server for shared drawing rooms written in Go (\<open>src/src/server\<close>).

  \<^bold>\<open>The program.\<close>  A room manager listens on one port, lists and creates rooms and keeps a record of each
  room in a LevelDB database.  Every room listens on a port of its own.  Its clients send framed packets:
  commands (JSON requests, dispatched by a router to handlers), and data and message packets, which are
  relayed unread.  The room hands data and messages to its radio.  The radio appends data packets to the
  archive, a buffered file, and offers every packet to a goroutine per client, which queues chunks (byte
  strings or ranges of the archive) and sends them on a timer.  A client asks for the archive to be
  registered with the radio; clearing the archive gives it a new signature.  Rooms expire by the hour.

  \<^bold>\<open>Theories and sources\<close> (paths under \<open>src/src/server/pkg\<close>):

    \<^item> \<open>Prelude\<close>: bytes, Go's run-time panics, 64-bit wrap-around, slices; the outcome type \<open>exec\<close> (done,
      panicked with the state reached, blocked for ever) with sequencing \<open>andThen\<close>, \<open>each\<close> and the
      conditions \<open>ensures\<close> and \<open>always\<close> on outcomes.
    \<^item> \<open>Compression\<close>: \<open>Common/Common.go\<close>; zlib is a parameter with the law of the locale \<open>zlib_codec\<close>, which
      is interpreted on a zlib of stored blocks.
    \<^item> \<open>Wire\<close>: \<open>Socket/Utils.go\<close>, \<open>Socket/SocketReader.go\<close>, the frames and the incremental reader.
    \<^item> \<open>Connection\<close>: \<open>Socket/Socket.go\<close>, sending, closing, the read loop; \<open>delivers\<close> is the hand-over of
      packets by one goroutine each.
    \<^item> \<open>BufFile\<close>: \<open>BufferedFile/BufferedFile.go\<close>, with the locale \<open>byte_log\<close> the radio relies on.
    \<^item> \<open>RadioQueue\<close>, \<open>RadioHub\<close>: \<open>Radio/Utils.go\<close>, \<open>Radio/Radio.go\<close>.  A goroutine that waits to hand a chunk
      to a client is an element of \<open>helpers\<close>; \<open>helper_meets\<close> and \<open>helper_times_out\<close> are its two ends,
      \<open>tick\<close> is the 100 ms timer of a client's goroutine.
    \<^item> \<open>Hashing\<close>: the vendored xxhash and randbo as far as the server uses them, and the generators of keys,
      client ids and signatures in \<open>Room/Utils.go\<close> and \<open>Radio/Utils.go\<close>.
    \<^item> \<open>Json\<close>, \<open>JsonText\<close>: \<open>encoding/json\<close> as the server uses it: decoding into tagged structs (case folding,
      ignored mismatches) and the text format itself, printed and parsed.
    \<^item> \<open>Router\<close>: \<open>Router/Router.go\<close>.  \<open>ConfigReader\<close>: \<open>Config/ConfigReader.go\<close>.
    \<^item> \<open>RoomMessages\<close>: the requests, answers and actions of \<open>Room\<close> and the record of a room.
    \<^item> \<open>RoomState\<close>, \<open>RoomHandlers\<close>: \<open>Room/Room.go\<close>, \<open>Room/Utils.go\<close>, \<open>Room/Handlers.go\<close>.  A \<open>world\<close> is a room
      with its connections, the message its radio is working on and the timers it has set; \<open>env\<close> is what
      the surroundings do (clock, faults, whether a peer is ready).  \<open>client_step\<close> is one round of a client's
      goroutine.
    \<^item> \<open>RoomFacts\<close>, \<open>RoomInvariants\<close>, \<open>RoomLife\<close>: functional lemmas of the handlers; the step relation of a
      room with one preservation lemma per operation; opening, serving, expiring, closing, recovering.
    \<^item> \<open>RoomStore\<close>: the locale \<open>kv_store\<close> of the database and batches, interpreted on an ordered association
      list.  \<open>Manager\<close>, \<open>ManagerFacts\<close>: \<open>RoomManager\<close> and what it does to the database.
    \<^item> \<open>WatchDog\<close>: the two programs, \<open>src/src/server/painttyServer.go\<close> (configuration, manager, reloading) and
      \<open>src/src/watchDog/watchDog.go\<close>, which starts the server and asks it for the room list.
    \<^item> \<open>Samples\<close>: small concrete states.  \<open>ArchiveProperties\<close>, \<open>RoomProperties\<close>, \<open>ManagerProperties\<close> and this
      theory: the properties C1 to C40, each with a concrete instance.

  \<^bold>\<open>What is shown.\<close>  Streams: packets survive any cutting of the stream, are relayed byte for byte and reach
  every registered client in the order the helpers meet them.  The archive refines a byte log.  Rooms:
  identity and signature are invariant, logins, keys, clear and archive requests do what they should,
  closing and expiry happen when they should, a room survives a restart through its record.  Manager: the
  limits of rooms, its table, the life of records, starting up, answering the watch dog.  Configuration: types of the values.  Where the
  code goes wrong, a theorem shows how: empty frames, lost order, the packet a joining client gets twice,
  the deadlock of a single send, huge archive requests, failed syncs, counters that only fall.

  \<^bold>\<open>Bounds.\<close>  File sizes and positions are Go's 64-bit integers: \<open>wrap64\<close> is applied wherever the code adds
  or multiplies them, and the positive theorems assume sizes for which nothing wraps (up to 2^63, and 2^48
  where a slice of that size has to be made, which is what the run-time allows).  Recursion is structural
  or has a termination proof; the JSON parser's fuel is the length of its input, and \<open>parse_mar\<close> shows that
  it is enough for everything the server prints.

  \<^bold>\<open>Not modelled.\<close>  Logging, the pprof server, command-line flags, socket
  options, Go's scheduler beyond the interleavings that the steps allow, data races on unlocked fields, and
  the insides of zlib, YAML, SHA-512 and LevelDB, which are parameters.  Times are integers in
  nanoseconds read from \<open>env\<close>.
\<close>

section \<open>From one client to all others\<close>

text \<open>
  C1.  Whatever list of packets one side writes and however the network cuts the bytes, the reader of
  the other side hands over exactly those packets, in order, with their type and content, and is left
  with an empty buffer.
\<close>

theorem packets_survive_the_stream:
  assumes "\<And>d. zr (zw d) = Some d" and "\<forall>m \<in> set ms. sendable zw m" and "concat cs = stream_of zw ms"
  shows "OnData_reads zr (RegisterHandler NewSocketReader) cs =
    (RegisterHandler NewSocketReader, map (arrives_as zw) ms, ReadOk)"
proof -
  have "zlib_codec zw zr"
    by (rule zlib_codec.intro) (rule assms(1))
  then show ?thesis
    using assms(2,3) by (rule zlib_codec.OnData_reads_stream)
qed

lemma sendable_sample: "sendable zlib_store (\<lparr>Compress = True, PackType = DATA\<rparr>, [1, 2])"
  by (simp add: stored_sendable DATA_def)

theorem packets_survive_the_stream_witness:
  "let m = (\<lparr>Compress = True, PackType = DATA\<rparr>, [1, 2]); s = stream_of zlib_store [m] in
   OnData_reads zlib_unstore (RegisterHandler NewSocketReader) [take 3 s, drop 3 s] =
     (RegisterHandler NewSocketReader, [arrives_as zlib_store m], ReadOk)"
  using packets_survive_the_stream [of zlib_unstore zlib_store "[(\<lparr>Compress = True, PackType = DATA\<rparr>, [1, 2])]"
      "let s = stream_of zlib_store [(\<lparr>Compress = True, PackType = DATA\<rparr>, [1, 2])] in [take 3 s, drop 3 s]"]
  by (simp add: stored.reader_writer sendable_sample Let_def)



text \<open>
  C3.  What a logged-in client draws reaches the programs of all others: the data packet it writes,
  however the network cuts it, is read as one package, which goes into the archive byte for byte; once the
  radio's helpers have met their clients and a client's goroutine has worked through its queue, every
  registered client has been sent what it was owed and then the packet, and its reader, at the boundary
  of the packets before, reads the same package.
\<close>

theorem drawing_reaches_everyone:
  assumes "\<And>b. zr (zw b) = Some b" and "sendable zw (h, drawing)" and "PackType h = DATA"
    and "concat cs = AssamblePack zw h drawing"
    and "hasUser w c" and "accepts env" and "prompt env" and "inbox w = []"
    and "disk_faults env = healthy" and "write_fault env = None"
    and "radio (room w) = Some r" and "\<not> closed r" and "hub_inv r" and "helpers r = []"
    and "length (contents (rfile r)) + length (AssamblePack zw h drawing) \<le> 2 ^ 48"
  shows "\<exists>pkg r1 r2. OnData_reads zr (RegisterHandler NewSocketReader) cs = (RegisterHandler NewSocketReader, [pkg], ReadOk) \<and>
    Unpacked pkg = drawing \<and>
    client_step zw env c (GotPackage pkg) w = Done (with_radio r1 w, True) \<and>
    deliver_all (length (helpers r1)) r1 = Done r2 \<and>
    contents (rfile r2) = contents (rfile r) @ concat cs \<and>
    (\<forall>k. registered r k \<longrightarrow>
      (\<exists>r3. hub_run (replicate (length (tasks (procs r2 ! k))) (Tick k)) r2 = Done r3 \<and>
        sent (procs r3 ! k) = feed r k @ concat cs \<and>
        OnData_reads zr (RegisterHandler NewSocketReader) [drop (length (feed r k)) (sent (procs r3 ! k))] =
          (RegisterHandler NewSocketReader, [pkg], ReadOk)))"
proof -
  let ?pkg = "arrives_as zw (h, drawing)"
  have codec: "zlib_codec zw zr"
    by (rule zlib_codec.intro) (rule assms(1))
  have reads: "OnData_reads zr (RegisterHandler NewSocketReader) ds = (RegisterHandler NewSocketReader, [?pkg], ReadOk)"
    if "concat ds = AssamblePack zw h drawing" for ds
    using zlib_codec.OnData_reads_stream [OF codec, of "[(h, drawing)]" ds] assms(2) that by (simp add: stream_of_def)
  have pkg: "PackageType ?pkg = DATA" "Repacked ?pkg = concat cs"
    using assms(3,4) by (simp_all add: arrives_as_def)
  obtain r1 r2 where r1: "client_step zw env c (GotPackage ?pkg) w = Done (with_radio r1 w, True)"
    and r2: "deliver_all (length (helpers r1)) r1 = Done r2" "hub_inv r2" "length (procs r2) = length (procs r)"
      "contents (rfile r2) = contents (rfile r) @ concat cs"
      "\<forall>k < length (procs r). feed r2 k = feed r k @ to_registered r k (concat cs)"
    using data_packet_delivered [OF assms(5) pkg(1) assms(6-14), of zw] pkg(2) assms(4,15) by auto
  have drained: "\<exists>r3. hub_run (replicate (length (tasks (procs r2 ! k))) (Tick k)) r2 = Done r3 \<and>
      sent (procs r3 ! k) = feed r k @ concat cs" if "registered r k" for k
    using drain_spec [OF r2(2) _ _ refl, of k] registered_less [OF assms(13) that] r2(3-5) assms(4,15) that
    by (auto simp: to_registered_def)
  have received: "\<forall>k. registered r k \<longrightarrow>
      (\<exists>r3. hub_run (replicate (length (tasks (procs r2 ! k))) (Tick k)) r2 = Done r3 \<and>
        sent (procs r3 ! k) = feed r k @ concat cs \<and>
        OnData_reads zr (RegisterHandler NewSocketReader) [drop (length (feed r k)) (sent (procs r3 ! k))] =
          (RegisterHandler NewSocketReader, [?pkg], ReadOk))"
    using drained reads [of "[concat cs]"] assms(4) by fastforce
  have "Unpacked ?pkg = drawing"
    by (simp add: arrives_as_def)
  with reads [OF assms(4)] r1 r2(1,4) received show ?thesis
    by blast
qed

theorem drawing_reaches_everyone_witness:
  "let h = \<lparr>Compress = True, PackType = DATA\<rparr>; packet = AssamblePack zlib_store h [1, 2] in
   \<exists>pkg r1 r2 r3. client_step zlib_store sample_env 7 (GotPackage pkg) sample_world = Done (with_radio r1 sample_world, True) \<and>
    Unpacked pkg = [1, 2] \<and> deliver_all (length (helpers r1)) r1 = Done r2 \<and>
    contents (rfile r2) = [7, 8, 9] @ packet \<and>
    hub_run (replicate (length (tasks (procs r2 ! 0))) (Tick 0)) r2 = Done r3 \<and>
    OnData_reads zlib_unstore (RegisterHandler NewSocketReader) [drop (length (feed sample_radio 0)) (sent (procs r3 ! 0))] =
      (RegisterHandler NewSocketReader, [pkg], ReadOk)"
proof -
  let ?h = "\<lparr>Compress = True, PackType = DATA\<rparr>"
  have "registered sample_radio 0"
    by (simp add: registered_def sample_radio_simps)
  moreover have "length (AssamblePack zlib_store ?h [1, 2]) \<le> 30"
    by (simp add: AssamblePack_def bufferToPack_def QCompress_header zlib_store_def stored_blocks.simps [of "[1, 2]"]
        stored_block_def)
  ultimately show ?thesis
    using drawing_reaches_everyone [of zlib_unstore zlib_store ?h "[1, 2]" "[AssamblePack zlib_store ?h [1, 2]]"
        sample_world 7 sample_env sample_radio]
    by (fastforce simp: Let_def stored.reader_writer sendable_sample sample_users sample_env_simps sample_world_simps
        sample_radio_inv sample_radio_simps sample_file_inv)
qed

section \<open>Rooms\<close>



text \<open>
  C5.  As long as nobody is kicked, the counter of clients is the number of connections and never more
  users are logged in than the room admits.
\<close>

theorem load_is_respected:
  assumes "(calm_step zw)\<^sup>*\<^sup>* w w'" and "within_load w"
  shows "currentClientsCount (room w') = int (length (room_clients (room w'))) \<and>
    int (crowd w') \<le> MaxLoad (Options (room w'))"
  using calm_run_within_load [OF assms] by (simp add: within_load_def)

theorem load_is_respected_witness:
  "int (crowd (accept_client 9 sample_world)) \<le> MaxLoad (Options (room (accept_client 9 sample_world)))"
proof -
  have "calm_step zlib_store sample_world (accept_client 9 sample_world)"
    by (rule calm_step.accepts) (simp_all add: sample_world_simps)
  moreover have "within_load sample_world"
    by (simp add: within_load_def crowd_def sample_world_simps sample_options_def)
  ultimately show ?thesis
    using load_is_respected [of zlib_store sample_world "accept_client 9 sample_world"] by blast
qed

text \<open>
  C6.  A login succeeds exactly when the password is right, the room is not over its load, the name has
  1 to 32 bytes and the connection is still one of the room's.  Then the client has a user, gets the
  room's data and its greeting is scheduled; otherwise it gets one of the four error codes and nothing
  else changes.
\<close>

theorem login_exactly_when_admitted:
  assumes "fst (Unmarshal JoinRoomRequest_fields JoinRoomRequest_zero data) = Some req"
    and "reachable_sock env w c" and "radio (room w) = Some r"
  shows "if admitted (room w) c req
    then \<exists>w'. handleJoin zw env data c w = Done w' \<and> (\<forall>k. hasUser w' k \<longleftrightarrow> k = c \<or> hasUser w k) \<and>
      greetings w' = greetings w @ [c] \<and>
      con_out (socks w' c) = con_out (socks w c) @ frame zw COMMAND (join_reply env (room w) r)
    else \<exists>errcode \<in> {LOGIN_PWD_INCORRECT, LOGIN_ROOM_IS_FULL, LOGIN_INVALID_NAME, LOGIN_UNKOWN}.
      handleJoin zw env data c w = Done (receives c (frame zw COMMAND (JoinRefused errcode)) w)"
proof (cases "admitted (room w) c req")
  case True
  let ?w = "(set_room (logged_in env c (join_name req)) w)\<lparr>greetings := greetings w @ [c]\<rparr>"
  have "socks ?w = socks w"
    by (simp add: set_room_def)
  then show ?thesis
    using handleJoin_admitted [OF assms(1,2) True assms(3)] hasUser_logged_in True by simp
next
  case False
  then show ?thesis
    using handleJoin_refused [OF assms(1,2) False] by simp
qed

lemma sample_login:
  "fst (Unmarshal JoinRoomRequest_fields JoinRoomRequest_zero
     (Marshal (JObj [(''request'', JStr ''login''), (''name'', JStr ''bob'')]))) =
   Some \<lparr>join_request = ''login'', join_password = '''', join_name = ''bob''\<rparr>"
  by code_simp

theorem login_exactly_when_admitted_witness:
  "\<exists>w'. handleJoin zlib_store sample_env
      (Marshal (JObj [(''request'', JStr ''login''), (''name'', JStr ''bob'')])) 8 sample_world = Done w' \<and>
    hasUser w' 8 \<and> greetings w' = [8]"
proof -
  have "admitted sample_room 8 \<lparr>join_request = ''login'', join_password = '''', join_name = ''bob''\<rparr>"
    by (simp add: admitted_def sample_world_simps sample_options_def CurrentLoad_def)
  then show ?thesis
    using login_exactly_when_admitted [OF sample_login sample_reachable, where c = 8 and zw = zlib_store and r = sample_radio]
    by (auto simp: sample_world_simps)
qed

text \<open>
  C7.  A clear, checkout, kick or close request that does not carry the room's key changes nothing but
  what the radio has under way: users, counter, options, check time, signature, registered clients,
  connections and timers are as before.
\<close>

theorem foreign_key_is_harmless:
  assumes "\<And>q. fst (Unmarshal ClearAllRequest_fields KeyRequest_zero data) = Some q \<Longrightarrow> key_key q \<noteq> key (room w)"
    and "\<And>q. fst (Unmarshal CheckoutRequest_fields KeyRequest_zero data) = Some q \<Longrightarrow> key_key q \<noteq> key (room w)"
    and "\<And>q. fst (Unmarshal KickRequest_fields KickRequest_zero data) = Some q \<Longrightarrow> kick_key q \<noteq> key (room w)"
    and "\<And>q. fst (Unmarshal CloseRequest_fields KeyRequest_zero data) = Some q \<Longrightarrow> key_key q \<noteq> key (room w)"
    and "h \<in> {handleClearAll zw env, handleCheckout zw env, handleKick zw env, handleClose zw env}"
  shows "ensures (h data c w) (same_but_radio w)"
  by (rule wrong_key_harmless [OF assms])

lemma sample_foreign_key:
  "fst (Unmarshal ClearAllRequest_fields KeyRequest_zero (Marshal (JObj [(''key'', JStr ''x'')]))) =
     Some \<lparr>key_request = '''', key_key = ''x''\<rparr>"
  "fst (Unmarshal CheckoutRequest_fields KeyRequest_zero (Marshal (JObj [(''key'', JStr ''x'')]))) =
     Some \<lparr>key_request = '''', key_key = ''x''\<rparr>"
  "fst (Unmarshal KickRequest_fields KickRequest_zero (Marshal (JObj [(''key'', JStr ''x'')]))) =
     Some \<lparr>kick_request = '''', kick_key = ''x'', kick_clientId = ''''\<rparr>"
  "fst (Unmarshal CloseRequest_fields KeyRequest_zero (Marshal (JObj [(''key'', JStr ''x'')]))) =
     Some \<lparr>key_request = '''', key_key = ''x''\<rparr>"
  by code_simp+

theorem foreign_key_is_harmless_witness:
  "ensures (handleClose zlib_store sample_env (Marshal (JObj [(''key'', JStr ''x'')])) 7 sample_world)
     (same_but_radio sample_world)"
  by (rule foreign_key_is_harmless [where zw = zlib_store and env = sample_env])
    (simp_all add: sample_foreign_key sample_world_simps)

section \<open>Rooms and the database\<close>

text \<open>
  C8.  A room that a client creates survives a restart of the server: the request within the limits makes
  the room and its record, and a manager that starts on the database left behind has a room of that name
  with the same options, key, port, lifetime, check time and signature.
\<close>

theorem created_room_survives_restart:
  assumes "Unmarshal NewRoomRequest_fields NewRoomRequest_zero data = (Some req, None)"
    and "limitRoomOption (conf (room_env menv)) m (new_info req) = 0"
    and "healthy_init (room_init menv)" and "listen_port (room_init menv) = Some p" and "0 \<le> p" and "p \<le> 65535"
    and "int64 (ReadConfInt (conf (room_env menv)) ''expiration'' 0)" and "\<not> put_fails menv"
    and "con_open (manager_socks m c)" and "net_fault (room_env menv) c = None"
    and "store_ok (db_entries (store m))" and "good_start os" and "ReadConfString cf ''db_dir'' '''' \<noteq> ''''"
  shows "\<exists>m' m'' r r'. handleNewRoom database_put zw menv data c m = Done m' \<and>
    map_of (rooms m') (Name (new_info req)) = Some r \<and> Options r = new_info req \<and>
    recovery db_entries cf (Some (store m')) os (ServeManager empty_database) = Done m'' \<and>
    map_of (rooms m'') (Name (new_info req)) = Some r' \<and> room_info r' = room_info r"
proof -
  have ok: "option_ok (new_info req)"
    using decoded_options_ok [of data req] assms(1) by simp
  obtain m' r where m': "create_room database_put zw menv (new_info req) c m = Done m'" "Options r = new_info req"
    "map_of (rooms m') = (map_of (rooms m))(Name (new_info req) \<mapsto> r)"
    using create_room_spec [OF assms(3-6) ok assms(7-10)] by blast
  have run: "handleNewRoom database_put zw menv data c m = Done m'"
    using handleNewRoom_accepts [OF assms(1,2)] m'(1) by simp
  show ?thesis
    using leveldb.restart_restores [OF m'(1) assms(3-6) ok assms(7-13)] run m'(2,3) by fastforce
qed

lemma sample_newroom:
  "Unmarshal NewRoomRequest_fields NewRoomRequest_zero (Marshal (JObj [(''info'', JObj [(''name'', JStr ''room''),
     (''maxload'', JInt 2), (''size'', JObj [(''width'', JInt 10), (''height'', JInt 10)])])])) =
   (Some \<lparr>new_request = '''', new_info = \<lparr>MaxLoad = 2, Width = 10, Height = 10, Password = '''', WelcomeMsg = '''',
     Name = ''room'', EmptyClose = False\<rparr>\<rparr>, None)"
  by code_simp

theorem created_room_survives_restart_witness:
  "\<exists>m' m'' r r'. handleNewRoom database_put zlib_store sample_manager_env (Marshal (JObj [(''info'', JObj [(''name'', JStr ''room''),
      (''maxload'', JInt 2), (''size'', JObj [(''width'', JInt 10), (''height'', JInt 10)])])])) 1 sample_manager = Done m' \<and>
    map_of (rooms m') ''room'' = Some r \<and>
    recovery db_entries [KeyString ''db_dir'' \<mapsto> CString ''db''] (Some (store m'))
      (\<lambda>i. (sample_init\<lparr>listen_port := Some (info_Port i)\<rparr>, sample_env)) (ServeManager empty_database) = Done m'' \<and>
    map_of (rooms m'') ''room'' = Some r' \<and> room_info r' = room_info r"
proof -
  have init: "good_start (\<lambda>i. (sample_init\<lparr>listen_port := Some (info_Port i)\<rparr>, sample_env))"
    by (simp add: good_start_def healthy_init_def sample_init_def)
  show ?thesis
    using created_room_survives_restart [OF sample_newroom, of sample_manager_env sample_manager 4000 1,
        where os = "\<lambda>i. (sample_init\<lparr>listen_port := Some (info_Port i)\<rparr>, sample_env)"
          and cf = "[KeyString ''db_dir'' \<mapsto> CString ''db'']" and zw = zlib_store] init
    by (simp add: sample_manager_simps sample_init_healthy sample_env_simps limitRoomOption_ok
        ReadConfInt_def ReadConfString_def Load_def int64_def wrap64_def) blast
qed

text \<open>
  C10.  The server starts, or gives up in time: with a usable configuration that names a database, an intact
  database and free ports for its rooms, it runs as soon as one of twenty attempts to listen succeeds, with
  a typed configuration and exactly the rooms on record; if none does it ends with an error.
\<close>

theorem server_starts_with_its_rooms:
  assumes "startable yaml os c wd kvs" and "map_of (rev kvs) (KeyString ''db_dir'') = Some (CString dir)" and "dir \<noteq> ''''"
    and "store_ok (db_entries d)" and "good_start rooms_start"
  shows "\<exists>s err. server_main db_entries yaml sha512 os False ok (Some d) rooms_start empty_database c = Done (s, err) \<and>
    typed (confMap (conf_of s)) \<and>
    (if \<exists>i < 20. ok i
     then err = None \<and> store (manager_of s) = d \<and>
       (\<forall>name. case map_of (db_entries d) (room_key name) of
          Some v \<Rightarrow> (\<exists>r. map_of (rooms (manager_of s)) name = Some r \<and> room_info r = parseRoomRuntimeInfo v)
        | None \<Rightarrow> map_of (rooms (manager_of s)) name = None)
     else err = Some ''listen failed'')"
proof -
  obtain c' where c': "InitConf yaml sha512 os c = Done c'" "typed (confMap c')"
    using InitConf_returns [OF assms(1)] InitConf_typed by blast
  have "Load (confMap c') ''db_dir'' = Some (CString dir)"
    by (rule InitConf_loads [OF assms(1) c'(1) assms(2)]) simp
  then have db: "ReadConfString (confMap c') ''db_dir'' '''' \<noteq> ''''"
    using assms(3) by (simp add: ReadConfString_def)
  show ?thesis
  proof (cases "\<exists>i < 20. ok i")
    case True
    then have "snd (listen_loop ok 0)"
      by (simp add: listen_loop_succeeds)
    then obtain m where m: "Manager_init db_entries (confMap c') False ok (Some d) rooms_start (ServeManager empty_database) = Done (m, None)"
      "store m = d"
      "\<forall>name. case map_of (db_entries d) (room_key name) of
         Some v \<Rightarrow> (\<exists>r. map_of (rooms m) name = Some r \<and> room_info r = parseRoomRuntimeInfo v)
       | None \<Rightarrow> map_of (rooms m) name = None"
      using Manager_init_starts [where entries = db_entries and d = d, OF assms(4) leveldb.distinct_entries assms(5) db] by blast
    then show ?thesis
      using True c' by (intro exI [of _ "\<lparr>conf_of = c', manager_of = m\<rparr>"] exI [of _ None]) (simp add: server_main_def cong: option.case_cong)
  next
    case False
    then show ?thesis
      using c' by (auto simp: server_main_def Manager_init_def Let_def listen_loop_succeeds)
  qed
qed

theorem server_starts_with_its_rooms_witness:
  "let d = database_put (room_key ''room'') (dumpRoom sample_room) empty_database in
   \<exists>s r. server_main db_entries (\<lambda>_. Inr (YMap sample_yaml)) (\<lambda>b. b) sample_os False (\<lambda>i. i = 3) (Some d)
      (\<lambda>i. (sample_init\<lparr>listen_port := Some (info_Port i)\<rparr>, sample_env)) empty_database sample_config = Done (s, None) \<and>
    map_of (rooms (manager_of s)) ''room'' = Some r \<and> room_info r = room_info sample_room"
proof -
  let ?d = "database_put (room_key ''room'') (dumpRoom sample_room) empty_database"
  have "record_ok (room_key ''room'') (dumpRoom sample_room)"
    unfolding record_ok_def dumpRoom_def using sample_info_ok
    by (intro exI [of _ "room_info sample_room"]) (simp add: room_info_def sample_world_simps sample_options_def)
  then have "store_ok (db_entries ?d)"
    using leveldb.store_ok_put sample_manager_simps(5) by blast
  moreover have "good_start (\<lambda>i. (sample_init\<lparr>listen_port := Some (info_Port i)\<rparr>, sample_env))"
    by (simp add: good_start_def healthy_init_def sample_init_def)
  moreover have "map_of (rev sample_yaml) (KeyString ''db_dir'') = Some (CString ''db'')"
    by (simp add: sample_yaml_def)
  ultimately obtain s where s: "server_main db_entries (\<lambda>_. Inr (YMap sample_yaml)) (\<lambda>b. b) sample_os False (\<lambda>i. i = 3) (Some ?d)
      (\<lambda>i. (sample_init\<lparr>listen_port := Some (info_Port i)\<rparr>, sample_env)) empty_database sample_config = Done (s, None)"
    "\<forall>name. case map_of (db_entries ?d) (room_key name) of
       Some v \<Rightarrow> (\<exists>r. map_of (rooms (manager_of s)) name = Some r \<and> room_info r = parseRoomRuntimeInfo v)
     | None \<Rightarrow> map_of (rooms (manager_of s)) name = None"
    using server_starts_with_its_rooms [OF sample_startable, of "''db''" ?d
        "\<lambda>i. (sample_init\<lparr>listen_port := Some (info_Port i)\<rparr>, sample_env)" "\<lambda>b. b" "\<lambda>i. i = 3"] by auto
  moreover have "map_of (db_entries ?d) (room_key ''room'') = Some (ToJson (room_info sample_room))"
    by (simp add: leveldb.entries_put dumpRoom_def)
  ultimately show ?thesis
    using spec [OF s(2), of "''room''"] parse_ToJson [OF sample_info_ok] by (auto simp: Let_def)
qed

section \<open>The watch dog and the server\<close>

text \<open>
  C9.  The watch dog and the server understand each other: what the watch dog writes is read by the
  manager as one request for the room list, the manager answers with one packet and changes nothing else,
  and the watch dog reads the answer without closing the connection.
\<close>

theorem watchdog_is_answered:
  assumes "\<And>b. zr (zw b) = Some b" and "listable m"
    and "con_open (manager_socks m c)" and "net_fault (room_env menv) c = None"
    and "con_open (dog_con d)" and "con_out (dog_con d) = []"
    and "sendable zw (\<lparr>Compress = True, PackType = MANAGER\<rparr>, Marshal RoomListRequest_json)"
    and "sendable zw (\<lparr>Compress = True, PackType = MANAGER\<rparr>,
      Marshal (RoomListResponse True (map (\<lambda>(name, r). RoomPublicInfo r) (rooms m)) 0))"
  shows "\<exists>request s ans answer.
    OnData_reads zr (RegisterHandler NewSocketReader) [con_out (dog_con (ask_step zw None AskTimer d))] =
      (RegisterHandler NewSocketReader, [request], ReadOk) \<and>
    manager_step put zw menv c (ManagerPackage request) m =
      Done (m\<lparr>manager_socks := (manager_socks m)(c := s)\<rparr>, True) \<and>
    con_out s = con_out (manager_socks m c) @ ans \<and>
    OnData_reads zr (RegisterHandler NewSocketReader) [ans] = (RegisterHandler NewSocketReader, [answer], ReadOk) \<and>
    read_step (ReadPackage answer) d = Done d"
proof -
  let ?h = "\<lparr>Compress = True, PackType = MANAGER\<rparr>"
  let ?resp = "RoomListResponse True (map (\<lambda>(name, r). RoomPublicInfo r) (rooms m)) 0"
  have codec: "zlib_codec zw zr"
    by (rule zlib_codec.intro) (rule assms(1))
  have one: "OnData_reads zr (RegisterHandler NewSocketReader) [frame zw MANAGER j] =
      (RegisterHandler NewSocketReader, [arrives_as zw (?h, Marshal j)], ReadOk)" if "sendable zw (?h, Marshal j)" for j
    using zlib_codec.OnData_reads_stream [OF codec, of "[(?h, Marshal j)]" "[frame zw MANAGER j]"] that
    by (simp add: stream_of_def)
  obtain s where s: "handleRoomList zw (room_env menv) (Marshal RoomListRequest_json) c m =
      Done (m\<lparr>manager_socks := (manager_socks m)(c := s)\<rparr>)"
    and out: "con_out s = con_out (manager_socks m c) @ frame zw MANAGER ?resp"
    using handleRoomList_answers [OF assms(3,4)] by blast
  have "manager_step put zw menv c (ManagerPackage (arrives_as zw (?h, Marshal RoomListRequest_json))) m =
      Done (m\<lparr>manager_socks := (manager_socks m)(c := s)\<rparr>, True)"
    by (rule manager_serves_request) (simp_all add: arrives_as_def request_understood s)
  moreover have "read_step (ReadPackage (arrives_as zw (?h, Marshal ?resp))) d = Done d"
    by (rule dog_keeps_connection [where req = "''roomlist''"])
      (simp_all add: arrives_as_def room_list_understood [OF assms(2)])
  moreover have "con_out (dog_con (ask_step zw None AskTimer d)) = frame zw MANAGER RoomListRequest_json"
    using sendMessage_out [OF assms(5), of zw] assms(6) by (simp add: ask_step_def)
  ultimately show ?thesis
    using one [OF assms(7)] one [OF assms(8)] out by fastforce
qed

lemma sendable_small:
  "sendable zlib_store (\<lparr>Compress = True, PackType = MANAGER\<rparr>, Marshal RoomListRequest_json)"
  "sendable zlib_store (\<lparr>Compress = True, PackType = MANAGER\<rparr>, Marshal (RoomListResponse True [] 0))"
proof -
  have "length (Marshal RoomListRequest_json) < 100" "length (Marshal (RoomListResponse True [] 0)) < 100"
    by code_simp+
  then show "sendable zlib_store (\<lparr>Compress = True, PackType = MANAGER\<rparr>, Marshal RoomListRequest_json)"
    "sendable zlib_store (\<lparr>Compress = True, PackType = MANAGER\<rparr>, Marshal (RoomListResponse True [] 0))"
    by (simp_all add: stored_sendable MANAGER_def)
qed

theorem watchdog_is_answered_witness:
  "\<exists>d request s ans answer. dog_round True True True = Inr d \<and>
    OnData_reads zlib_unstore (RegisterHandler NewSocketReader) [con_out (dog_con (ask_step zlib_store None AskTimer d))] =
      (RegisterHandler NewSocketReader, [request], ReadOk) \<and>
    manager_step database_put zlib_store sample_manager_env 1 (ManagerPackage request) sample_manager =
      Done (sample_manager\<lparr>manager_socks := (manager_socks sample_manager)(1 := s)\<rparr>, True) \<and>
    OnData_reads zlib_unstore (RegisterHandler NewSocketReader) [ans] = (RegisterHandler NewSocketReader, [answer], ReadOk) \<and>
    read_step (ReadPackage answer) d = Done d"
proof -
  obtain d where d: "dog_round True True True = Inr d" "con_open (dog_con d)" "con_out (dog_con d) = []"
    by (simp add: dog_round_def startProc_def dial_def RegisterCloseCallback_def MakeSocketClient_def)
  show ?thesis
    using watchdog_is_answered [of zlib_unstore zlib_store sample_manager 1 sample_manager_env d database_put] d
    by (auto simp: stored.reader_writer sendable_small sample_manager_simps sample_env_simps listable_def)
qed

end
